(* ===== verification/Prelude.thy ===== *)
theory Prelude
  imports Main "HOL-Library.Word"
begin

text \<open>
  Shared vocabulary of the development.

  Binary data (keys, quotes, protocol structures) is a list of \<open>byte\<close>s (8-bit words); text
  (hex strings, HTTP, JSON, URLs, command line arguments) is a HOL \<open>string\<close>, whose characters
  are 8-bit values too. The theory models the parts of the C and C++ standard library the
  program uses on text: the character classes of the C locale, \<open>strcasecmp\<close>, the
  \<open>strtol\<close> family, \<open>std::stol\<close>, and searching in a \<open>std::string\<close>. It also holds the
  generic list lemmas and the interface \<open>stepper\<close> of machines that consume their input one
  element at a time.
\<close>

unbundle bit_operations_syntax

type_synonym byte = "8 word"
type_synonym bytes = "8 word list"

named_theorems char_class \<open>definitions of the character classes\<close>

section \<open>Characters of the C locale\<close>

abbreviation code :: "char \<Rightarrow> nat" where
  "code c \<equiv> of_char c"

abbreviation NUL :: char where "NUL \<equiv> CHR 0x00"
abbreviation TAB :: char where "TAB \<equiv> CHR 0x09"
abbreviation LF :: char where "LF \<equiv> CHR 0x0A"
abbreviation CR :: char where "CR \<equiv> CHR 0x0D"
abbreviation SPC :: char where "SPC \<equiv> CHR 0x20"
abbreviation DQUOTE :: char where "DQUOTE \<equiv> CHR 0x22"
abbreviation BACKSLASH :: char where "BACKSLASH \<equiv> CHR 0x5C"

definition isdigit :: "char \<Rightarrow> bool" where
  [char_class]: "isdigit c \<longleftrightarrow> 48 \<le> code c \<and> code c \<le> 57"

definition isupper :: "char \<Rightarrow> bool" where
  [char_class]: "isupper c \<longleftrightarrow> 65 \<le> code c \<and> code c \<le> 90"

definition islower :: "char \<Rightarrow> bool" where
  [char_class]: "islower c \<longleftrightarrow> 97 \<le> code c \<and> code c \<le> 122"

definition isalpha :: "char \<Rightarrow> bool" where
  [char_class]: "isalpha c \<longleftrightarrow> isupper c \<or> islower c"

definition isalnum :: "char \<Rightarrow> bool" where
  [char_class]: "isalnum c \<longleftrightarrow> isalpha c \<or> isdigit c"

definition isspace :: "char \<Rightarrow> bool" where
  [char_class]: "isspace c \<longleftrightarrow> (9 \<le> code c \<and> code c \<le> 13) \<or> code c = 32"

definition tolower :: "char \<Rightarrow> char" where
  "tolower c = (if isupper c then char_of (code c + 32) else c)"

definition toupper :: "char \<Rightarrow> char" where
  "toupper c = (if islower c then char_of (code c - 32) else c)"

text \<open>A C string is the text up to the first NUL.\<close>

definition cstr :: "string \<Rightarrow> string" where
  "cstr s = takeWhile (\<lambda>c. c \<noteq> NUL) s"

text \<open>\<open>strcasecmp(a, b) == 0\<close>.\<close>

definition strcase_eq :: "string \<Rightarrow> string \<Rightarrow> bool" where
  "strcase_eq a b \<longleftrightarrow> map tolower (cstr a) = map tolower (cstr b)"

lemma cstr_no_nul [simp]: "NUL \<notin> set s \<Longrightarrow> cstr s = s"
  by (auto simp: cstr_def takeWhile_eq_all_conv)

lemma strcase_eq_refl [simp]: "strcase_eq a a"
  by (simp add: strcase_eq_def)

section \<open>Numbers in text\<close>

text \<open>The value of a character as a digit of the given base (at most 36).\<close>

definition digit_val :: "nat \<Rightarrow> char \<Rightarrow> nat option" where
  "digit_val base c =
     (let d = (if isdigit c then Some (code c - 48)
               else if islower c then Some (code c - 87)
               else if isupper c then Some (code c - 55) else None)
      in case d of None \<Rightarrow> None | Some v \<Rightarrow> if v < base then Some v else None)"

definition is_digit_of :: "nat \<Rightarrow> char \<Rightarrow> bool" where
  "is_digit_of base c \<longleftrightarrow> digit_val base c \<noteq> None"

definition digits_value :: "nat \<Rightarrow> string \<Rightarrow> nat" where
  "digits_value base ds = foldl (\<lambda>v c. v * base + the (digit_val base c)) 0 ds"

text \<open>An optional sign: the text after it, and whether it was a minus.\<close>

definition take_sign :: "string \<Rightarrow> bool \<times> string" where
  "take_sign s = (case s of [] \<Rightarrow> (False, [])
     | c # cs \<Rightarrow> if c = CHR ''-'' then (True, cs) else if c = CHR ''+'' then (False, cs)
                else (False, s))"

text \<open>The \<open>0x\<close> prefix that base 16 allows, when a hex digit follows it.\<close>

definition skip_0x :: "nat \<Rightarrow> string \<Rightarrow> string" where
  "skip_0x base s = (case s of z # x # d # cs \<Rightarrow>
       if base = 16 \<and> z = CHR ''0'' \<and> (x = CHR ''x'' \<or> x = CHR ''X'') \<and> is_digit_of 16 d
       then d # cs else s
     | _ \<Rightarrow> s)"

text \<open>
  The common part of \<open>strtol\<close> and \<open>strtoul\<close>: leading white space, a sign, digits.
  The result is the sign and magnitude (None when there is no digit) and the text at
  \<open>*endptr\<close>.
\<close>

definition strto :: "nat \<Rightarrow> string \<Rightarrow> (bool \<times> nat) option \<times> string" where
  "strto base s =
     (let (neg, t) = take_sign (dropWhile isspace s);
          u = skip_0x base t;
          ds = takeWhile (is_digit_of base) u
      in if ds = [] then (None, s)
         else (Some (neg, digits_value base ds), dropWhile (is_digit_of base) u))"

definition LONG_MAX :: int where "LONG_MAX = 2 ^ 63 - 1"
definition LONG_MIN :: int where "LONG_MIN = - (2 ^ 63)"

definition clamp_long :: "int \<Rightarrow> int" where
  "clamp_long v = (if v > LONG_MAX then LONG_MAX else if v < LONG_MIN then LONG_MIN else v)"

definition signed_value :: "bool \<times> nat \<Rightarrow> int" where
  "signed_value nv = (if fst nv then - int (snd nv) else int (snd nv))"

definition strtol :: "nat \<Rightarrow> string \<Rightarrow> int" where
  "strtol base s = (case fst (strto base s) of None \<Rightarrow> 0 | Some nv \<Rightarrow> clamp_long (signed_value nv))"

text \<open>\<open>strtoul\<close> with its end pointer; a minus sign negates modulo \<open>2^64\<close>.\<close>

definition strtoul :: "nat \<Rightarrow> string \<Rightarrow> 64 word \<times> string" where
  "strtoul base s = (case strto base s of
       (None, e) \<Rightarrow> (0, e)
     | (Some (neg, v), e) \<Rightarrow>
         (if v \<ge> 2 ^ 64 then - 1 else if neg then - of_nat v else of_nat v, e))"

text \<open>\<open>atoi\<close> is \<open>strtol\<close> in base 10 converted to \<open>int\<close>.\<close>

definition atoi :: "string \<Rightarrow> 32 word" where
  "atoi s = word_of_int (strtol 10 (cstr s))"

datatype std_error = Invalid_argument | Out_of_range

text \<open>\<open>std::stol\<close> and \<open>std::stoul\<close> in base 10.\<close>

definition stol :: "string \<Rightarrow> std_error + int" where
  "stol s = (case fst (strto 10 (cstr s)) of
       None \<Rightarrow> Inl Invalid_argument
     | Some nv \<Rightarrow> if clamp_long (signed_value nv) = signed_value nv then Inr (signed_value nv)
                 else Inl Out_of_range)"

definition stoul :: "string \<Rightarrow> std_error + 64 word" where
  "stoul s = (case fst (strto 10 (cstr s)) of
       None \<Rightarrow> Inl Invalid_argument
     | Some (neg, v) \<Rightarrow> if v \<ge> 2 ^ 64 then Inl Out_of_range
                        else Inr (if neg then - of_nat v else of_nat v))"

text \<open>\<open>std::to_string\<close> and the decimal conversions of \<open>printf\<close>.\<close>

definition digit_char :: "nat \<Rightarrow> char" where
  "digit_char d = char_of (if d < 10 then 48 + d else 87 + d)"

fun show_nat :: "nat \<Rightarrow> string" where
  "show_nat n = (if n < 10 then [digit_char n] else show_nat (n div 10) @ [digit_char (n mod 10)])"

declare show_nat.simps [simp del]

definition show_int :: "int \<Rightarrow> string" where
  "show_int i = (if i < 0 then CHR ''-'' # show_nat (nat (- i)) else show_nat (nat i))"

section \<open>Searching in a \<open>std::string\<close>\<close>

text \<open>
  Positions are indexes; \<open>None\<close> is \<open>string::npos\<close>. \<open>find_if_from P s i\<close> is the first index at or
  after \<open>i\<close> whose character satisfies \<open>P\<close> (\<open>find_first_of\<close> and \<open>find_first_not_of\<close>),
  \<open>find_str_from\<close> is \<open>string::find\<close>.
\<close>

definition find_if_from :: "(char \<Rightarrow> bool) \<Rightarrow> string \<Rightarrow> nat \<Rightarrow> nat option" where
  "find_if_from P s i =
     (let r = dropWhile (\<lambda>c. \<not> P c) (drop i s)
      in if r = [] then None else Some (length s - length r))"

fun find_str :: "string \<Rightarrow> string \<Rightarrow> nat option" where
  "find_str pat [] = (if pat = [] then Some 0 else None)"
| "find_str pat (c # cs) =
     (if take (length pat) (c # cs) = pat then Some 0 else map_option Suc (find_str pat cs))"

definition find_str_from :: "string \<Rightarrow> string \<Rightarrow> nat \<Rightarrow> nat option" where
  "find_str_from pat s i =
     (if i \<le> length s then map_option (\<lambda>k. i + k) (find_str pat (drop i s)) else None)"

definition substr :: "string \<Rightarrow> nat \<Rightarrow> nat \<Rightarrow> string" where
  "substr s pos n = take n (drop pos s)"

section \<open>Machines that consume their input one element at a time\<close>

text \<open>
  The HTTP response parser reads one character at a time, the option loops of the service
  provider and of the client one option at a time. Each is a step that either finishes with a
  result or goes on with a new state, and a run that stops at the first result. The interface
  asks for the two equations of the run and for an invariant the step keeps; its users get
  that input may arrive in pieces, and that the invariant holds after any input.
\<close>

locale stepper =
  fixes step :: "'s \<Rightarrow> 'e \<Rightarrow> 'r option \<times> 's"
    and run :: "'s \<Rightarrow> 'e list \<Rightarrow> 'r option \<times> 's"
    and inv :: "'s \<Rightarrow> bool"
  assumes run_Nil: "run s [] = (None, s)"
    and run_Cons: "run s (e # es) =
          (case step s e of (None, s') \<Rightarrow> run s' es | (Some r, s') \<Rightarrow> (Some r, s'))"
    and step_inv: "inv s \<Longrightarrow> step s e = (None, s') \<Longrightarrow> inv s'"
begin

lemma run_append:
  "run s (xs @ ys) =
     (case run s xs of (None, s') \<Rightarrow> run s' ys | (Some r, s') \<Rightarrow> (Some r, s'))"
  by (induction xs arbitrary: s) (auto simp: run_Nil run_Cons split: prod.splits option.splits)

lemma run_None_append: "run s xs = (None, s') \<Longrightarrow> run s (xs @ ys) = run s' ys"
  by (simp add: run_append)

lemma run_Some_append: "run s xs = (Some r, s') \<Longrightarrow> run s (xs @ ys) = (Some r, s')"
  by (simp add: run_append)

lemma run_Cons_None: "step s e = (None, s') \<Longrightarrow> run s (e # es) = run s' es"
  by (simp add: run_Cons)

lemma run_Cons_Some: "step s e = (Some r, s') \<Longrightarrow> run s (e # es) = (Some r, s')"
  by (simp add: run_Cons)

lemma run_inv: "inv s \<Longrightarrow> run s es = (None, s') \<Longrightarrow> inv s'"
proof (induction es arbitrary: s)
  case Nil
  then show ?case by (simp add: run_Nil)
next
  case (Cons e es)
  then show ?case
    by (auto simp: run_Cons split: prod.splits option.splits intro: step_inv)
qed

text \<open>A loop of the machine: input that keeps it in the states \<open>I\<close> folds over the state.\<close>

lemma run_while:
  assumes "\<And>s e. I s \<Longrightarrow> P e \<Longrightarrow> step s e = (None, f s e) \<and> I (f s e)"
  shows "I s \<Longrightarrow> \<forall>e \<in> set es. P e \<Longrightarrow> run s (es @ rest) = run (foldl f s es) rest"
  using assms by (induction es arbitrary: s) (auto simp: run_Cons)

text \<open>Two ways to cut the same input into pieces lead to the same place.\<close>

lemma run_pieces: "concat ps = concat qs \<Longrightarrow> run s (concat ps) = run s (concat qs)"
  by simp

text \<open>A run that gave a result used some prefix of its input, up to one deciding element.\<close>

lemma run_Some_split:
  "run s es = (Some r, s') \<Longrightarrow>
   \<exists>xs e ys t. es = xs @ e # ys \<and> run s xs = (None, t) \<and> step t e = (Some r, s')"
proof (induction es arbitrary: s)
  case Nil
  then show ?case by (simp add: run_Nil)
next
  case (Cons e es)
  show ?case
  proof (cases "step s e")
    case (Pair q t)
    show ?thesis
    proof (cases q)
      case None
      with Cons.prems Pair have "run t es = (Some r, s')" by (simp add: run_Cons)
      from Cons.IH [OF this] obtain xs e' ys u
        where "es = xs @ e' # ys" "run t xs = (None, u)" "step u e' = (Some r, s')" by blast
      with Pair None show ?thesis
        by (intro exI [of _ "e # xs"] exI [of _ e'] exI [of _ ys] exI [of _ u])
          (simp add: run_Cons)
    next
      case (Some r')
      with Cons.prems Pair have "step s e = (Some r, s')" by (simp add: run_Cons)
      then show ?thesis
        by (intro exI [of _ "[]"] exI [of _ e] exI [of _ es] exI [of _ s]) (simp add: run_Nil)
    qed
  qed
qed

lemma run_Some_inv:
  assumes "inv s" "run s es = (Some r, s')"
  obtains t e where "inv t" "step t e = (Some r, s')"
proof -
  from run_Some_split [OF assms(2)] obtain xs e ys t
    where "run s xs = (None, t)" "step t e = (Some r, s')" by blast
  with run_inv [OF assms(1)] that show thesis by blast
qed

end

section \<open>Lemmas on numbers in text\<close>

lemma digit_val_digit_char: "d < 10 \<Longrightarrow> digit_val 10 (digit_char d) = Some d"
  by (simp add: digit_val_def digit_char_def char_class Let_def)

lemma digit_val_16_digit_char: "d < 16 \<Longrightarrow> digit_val 16 (digit_char d) = Some d"
  by (auto simp: digit_val_def digit_char_def char_class Let_def)

lemma digits_value_snoc:
  "digits_value b (ds @ [c]) = digits_value b ds * b + the (digit_val b c)"
  by (simp add: digits_value_def)

lemma show_nat_not_Nil [simp]: "show_nat n \<noteq> []"
  by (subst show_nat.simps) simp

lemma show_nat_digits: "\<forall>c \<in> set (show_nat n). \<exists>d < 10. c = digit_char d"
proof (induction n rule: show_nat.induct)
  case (1 n)
  show ?case
  proof (cases "n < 10")
    case True
    then show ?thesis by (subst show_nat.simps) auto
  next
    case False
    with 1 show ?thesis
      by (subst show_nat.simps) (auto intro: exI [of _ "n mod 10"])
  qed
qed

lemma is_digit_of_digit_char: "d < 10 \<Longrightarrow> is_digit_of 10 (digit_char d)"
  by (simp add: is_digit_of_def digit_val_digit_char)

lemma show_nat_all_digits: "c \<in> set (show_nat n) \<Longrightarrow> is_digit_of 10 c"
  using show_nat_digits [of n] by (auto simp: is_digit_of_digit_char)

lemma digits_value_show_nat: "digits_value 10 (show_nat n) = n"
proof (induction n rule: show_nat.induct)
  case (1 n)
  show ?case
  proof (cases "n < 10")
    case True
    then show ?thesis by (subst show_nat.simps) (simp add: digits_value_def digit_val_digit_char)
  next
    case False
    with 1 show ?thesis
      by (subst show_nat.simps) (simp add: digits_value_snoc digit_val_digit_char)
  qed
qed

lemma is_digit_of_10: "is_digit_of 10 c \<longleftrightarrow> isdigit c"
  by (auto simp: is_digit_of_def digit_val_def char_class Let_def)

lemma show_nat_isdigit: "c \<in> set (show_nat n) \<Longrightarrow> isdigit c"
  using show_nat_all_digits is_digit_of_10 by blast

text \<open>Reading a printed number back, when what follows does not go on with a digit.\<close>

lemma takeWhile_all_append:
  "(\<forall>c \<in> set xs. P c) \<Longrightarrow> (ys = [] \<or> \<not> P (hd ys)) \<Longrightarrow> takeWhile P (xs @ ys) = xs"
  by (induction xs) (auto simp: takeWhile.simps intro: list.exhaust [of ys])

lemma dropWhile_all_append:
  "(\<forall>c \<in> set xs. P c) \<Longrightarrow> (ys = [] \<or> \<not> P (hd ys)) \<Longrightarrow> dropWhile P (xs @ ys) = ys"
  by (induction xs) (auto intro: list.exhaust [of ys])

lemma hd_show_nat: "isdigit (hd (show_nat n))"
  using show_nat_isdigit [of "hd (show_nat n)" n] by simp

lemma isdigit_not_space: "isdigit c \<Longrightarrow> \<not> isspace c"
  by (auto simp: char_class)

lemma isdigit_not_sign: "isdigit c \<Longrightarrow> c \<noteq> CHR ''-'' \<and> c \<noteq> CHR ''+''"
  by (auto simp: char_class)

lemma minus_not_space: "\<not> isspace CHR ''-''"
  by (simp add: char_class)

lemma skip_0x_10 [simp]: "skip_0x 10 s = s"
  by (simp add: skip_0x_def split: list.splits)

lemma strto_show_nat:
  assumes "rest = [] \<or> \<not> isdigit (hd rest)"
  shows "strto 10 (show_nat n @ rest) = (Some (False, n), rest)"
proof -
  obtain d ds where s: "show_nat n = d # ds" by (cases "show_nat n") auto
  then have d: "isdigit d" using hd_show_nat [of n] by simp
  have ws: "dropWhile isspace (show_nat n @ rest) = show_nat n @ rest"
    using s isdigit_not_space [OF d] by simp
  have sg: "take_sign (show_nat n @ rest) = (False, show_nat n @ rest)"
    using s isdigit_not_sign [OF d] by (simp add: take_sign_def)
  have all: "\<forall>c \<in> set (show_nat n). is_digit_of 10 c" using show_nat_all_digits by blast
  have r: "rest = [] \<or> \<not> is_digit_of 10 (hd rest)" using assms by (simp add: is_digit_of_10)
  show ?thesis
    by (simp add: strto_def ws sg takeWhile_all_append [OF all r] dropWhile_all_append [OF all r]
        digits_value_show_nat)
qed

lemma strto_minus_show_nat:
  assumes "rest = [] \<or> \<not> isdigit (hd rest)"
  shows "strto 10 (CHR ''-'' # show_nat n @ rest) = (Some (True, n), rest)"
proof -
  have all: "\<forall>c \<in> set (show_nat n). is_digit_of 10 c" using show_nat_all_digits by blast
  have r: "rest = [] \<or> \<not> is_digit_of 10 (hd rest)" using assms by (simp add: is_digit_of_10)
  show ?thesis
    by (simp add: strto_def minus_not_space take_sign_def takeWhile_all_append [OF all r]
        dropWhile_all_append [OF all r] digits_value_show_nat)
qed

definition long_range :: "int \<Rightarrow> bool" where
  "long_range i \<longleftrightarrow> LONG_MIN \<le> i \<and> i \<le> LONG_MAX"

lemma nul_not_digit: "\<not> isdigit NUL"
  by (simp add: char_class)

lemma nul_not_in_show_nat: "NUL \<notin> set (show_nat n)"
  using show_nat_isdigit nul_not_digit by blast

lemma nul_not_in_show_int: "NUL \<notin> set (show_int i)"
  by (simp add: show_int_def nul_not_in_show_nat)

lemma clamp_long_id: "long_range i \<Longrightarrow> clamp_long i = i"
  by (simp add: clamp_long_def long_range_def)

lemma stol_show_int: "long_range i \<Longrightarrow> stol (show_int i) = Inr i"
  using strto_show_nat [of "[]" "nat i"] strto_minus_show_nat [of "[]" "nat (- i)"]
  by (auto simp: stol_def show_int_def nul_not_in_show_nat signed_value_def clamp_long_id)

end
