(* ===== verification/Hexutil.thy ===== *)
theory Hexutil
  imports Prelude
begin

text \<open>
  The model of \<open>service-provider/hexutil.c\<close>: base-16 encoding of binary data, used for every
  protocol message and for keys and identifiers given as text.

  \<^item> \<open>scan_2x\<close> is the \<open>sscanf\<close> conversion \<open>%2x\<close> that \<open>from_hexstring\<close> applies at each even
    offset, white space, sign and \<open>0x\<close> prefix included; at the end of the string it converts
    nothing and reports EOF, which the code does not tell from success, so that the byte
    stored is the value of an uninitialised variable (the parameter \<open>junk\<close>).
  \<^item> \<open>print_hexstring\<close> is the text the loop of \<open>%02x\<close> writes.
  \<^item> \<open>hexstring\<close> keeps its text in a buffer that lives across calls (\<open>hex_state\<close>); a failed
    \<open>realloc\<close> and a write through a null pointer or past the buffer are results.

  The interface \<open>text_codec\<close> is what message framing and file input need of the codec.
\<close>

section \<open>Decoding\<close>

datatype scan = Scan_eof | Scan_fail | Scan_val "32 word"

abbreviation is_hex_digit :: "char \<Rightarrow> bool" where
  "is_hex_digit \<equiv> is_digit_of 16"

definition scan_2x :: "string \<Rightarrow> scan" where
  "scan_2x s =
     (let t = dropWhile isspace s in
      if t = [] then Scan_eof
      else let (neg, u) = take_sign t;
               w = 2 - (length t - length u);
               item = takeWhile is_hex_digit (take w u);
               v = digits_value 16 item
           in if item = [] then Scan_fail
              else if w = 2 \<and> item = ''0'' \<and> (take 2 u = ''0x'' \<or> take 2 u = ''0X'') then Scan_fail
              else Scan_val (if neg then - of_nat v else of_nat v))"

text \<open>
  \<open>src\<close> is the memory readable at the source pointer; \<open>sscanf\<close> at offset \<open>2 * i\<close> sees it up to
  the next NUL. The result is the return value and the bytes stored in \<open>dest\<close>, which are the
  ones before the failing position when the call fails.
\<close>

fun from_hexstring_loop :: "(nat \<Rightarrow> byte) \<Rightarrow> string \<Rightarrow> nat \<Rightarrow> nat \<Rightarrow> bool \<times> bytes" where
  "from_hexstring_loop junk src i 0 = (True, [])"
| "from_hexstring_loop junk src i (Suc n) =
     (case scan_2x (cstr (drop (i * 2) src)) of
        Scan_fail \<Rightarrow> (False, [])
      | Scan_eof \<Rightarrow> (let (r, ds) = from_hexstring_loop junk src (Suc i) n in (r, junk i # ds))
      | Scan_val v \<Rightarrow>
          (let (r, ds) = from_hexstring_loop junk src (Suc i) n in (r, ucast v # ds)))"

definition from_hexstring :: "(nat \<Rightarrow> byte) \<Rightarrow> string \<Rightarrow> nat \<Rightarrow> bool \<times> bytes" where
  "from_hexstring junk src len = from_hexstring_loop junk src 0 len"

section \<open>Encoding\<close>

definition printf_02x :: "byte \<Rightarrow> string" where
  "printf_02x b = [digit_char (unat b div 16), digit_char (unat b mod 16)]"

fun print_hexstring :: "bytes \<Rightarrow> string" where
  "print_hexstring [] = []"
| "print_hexstring (b # bs) = printf_02x b @ print_hexstring bs"

definition print_hexstring_nl :: "bytes \<Rightarrow> string" where
  "print_hexstring_nl bs = print_hexstring bs @ [LF]"

definition hextable :: string where
  "hextable = ''0123456789abcdef''"

fun hexstring_fill :: "bytes \<Rightarrow> string" where
  "hexstring_fill [] = []"
| "hexstring_fill (b # bs) =
     hextable ! unat (drop_bit 4 b) # hextable ! unat (b AND 0xf) # hexstring_fill bs"

record hex_state =
  hex_buffer :: "string option"
  hex_buffer_size :: nat

datatype hex_result = Hex_text string | Hex_oom | Hex_null_write | Hex_overflow

definition hex_init :: hex_state where
  "hex_init = \<lparr>hex_buffer = None, hex_buffer_size = 0\<rparr>"

definition grown_size :: "nat \<Rightarrow> nat" where
  "grown_size bsz = 1024 * (bsz div 1024) + (if bsz mod 1024 \<noteq> 0 then 1024 else 0)"

text \<open>\<open>realloc\<close> keeps the old contents; what it adds is indeterminate (\<open>junk\<close>).\<close>

definition realloc_buffer :: "char \<Rightarrow> string option \<Rightarrow> nat \<Rightarrow> string" where
  "realloc_buffer junk old n =
     (case old of None \<Rightarrow> replicate n junk
      | Some s \<Rightarrow> take n s @ replicate (n - length s) junk)"

definition hexstring_write :: "hex_state \<Rightarrow> bytes \<Rightarrow> hex_result \<times> hex_state" where
  "hexstring_write st src =
     (case hex_buffer st of
        None \<Rightarrow> (Hex_null_write, st)
      | Some buf \<Rightarrow>
          (let txt = hexstring_fill src in
           if length buf < length txt + 1 then (Hex_overflow, st)
           else (let buf' = txt @ NUL # drop (length txt + 1) buf
                 in (Hex_text (cstr buf'), st\<lparr>hex_buffer := Some buf'\<rparr>))))"

definition hexstring :: "bool \<Rightarrow> char \<Rightarrow> hex_state \<Rightarrow> bytes \<Rightarrow> hex_result \<times> hex_state" where
  "hexstring alloc_ok junk st src =
     (let bsz = length src * 2 + 1 in
      if bsz \<ge> hex_buffer_size st then
        (let newsz = grown_size bsz; st' = st\<lparr>hex_buffer_size := newsz\<rparr> in
         if alloc_ok
         then hexstring_write (st'\<lparr>hex_buffer := Some (realloc_buffer junk (hex_buffer st) newsz)\<rparr>) src
         else (Hex_oom, st'\<lparr>hex_buffer := None\<rparr>))
      else hexstring_write st src)"

section \<open>The interface of the codec\<close>

locale text_codec =
  fixes enc :: "bytes \<Rightarrow> string"
    and dec :: "string \<Rightarrow> nat \<Rightarrow> bool \<times> bytes"
    and text_char :: "char \<Rightarrow> bool"
  assumes enc_append: "enc (a @ b) = enc a @ enc b"
    and enc_length: "length (enc a) = 2 * length a"
    and enc_chars: "c \<in> set (enc a) \<Longrightarrow> text_char c"
    and dec_enc: "dec (enc a @ rest) (length a) = (True, a)"
begin

lemma enc_Nil [simp]: "enc [] = []"
  using enc_length [of "[]"] by simp

lemma enc_even: "even (length (enc a))"
  by (simp add: enc_length)

lemma enc_half: "length (enc a) div 2 = length a"
  by (simp add: enc_length)

lemma enc_concat: "enc (concat ps) = concat (map enc ps)"
  by (induction ps) (simp_all add: enc_append)

lemma dec_concat: "dec (concat (map enc ps) @ rest) (length (concat ps)) = (True, concat ps)"
  by (simp add: enc_concat [symmetric] dec_enc)

lemma enc_inj: "enc a = enc b \<Longrightarrow> a = b"
  using dec_enc [of a "[]"] dec_enc [of b "[]"] enc_half [of a] enc_half [of b] by simp

lemma enc_eq_Nil: "enc a = [] \<longleftrightarrow> a = []"
  using enc_length [of a] by (cases a) auto

lemma enc_free_of: "\<not> text_char c \<Longrightarrow> c \<notin> set (enc a)"
  using enc_chars by blast

end

section \<open>Lemmas\<close>

lemma unat_byte_less [simp]: "unat (b :: byte) < 256"
  using unsigned_less [of b, where ?'a = nat] by simp

lemma nibble_less [simp]: "unat (b :: byte) div 16 < 16" "unat (b :: byte) mod 16 < 16"
  using unat_byte_less [of b] by (simp_all add: less_mult_imp_div_less)

lemma digit_char_hex: "d < 16 \<Longrightarrow> is_hex_digit (digit_char d)"
  by (simp add: is_digit_of_def digit_val_16_digit_char)

definition hex_char :: "char \<Rightarrow> bool" where
  "hex_char c \<longleftrightarrow> isdigit c \<or> (97 \<le> code c \<and> code c \<le> 102)"

lemma hex_char_digit_char: "d < 16 \<Longrightarrow> hex_char (digit_char d)"
  by (auto simp: hex_char_def digit_char_def char_class)

lemma hex_char_facts:
  assumes "hex_char c"
  shows "c \<noteq> NUL" "c \<noteq> LF" "c \<noteq> CR" "\<not> isspace c" "c \<noteq> CHR ''-''" "c \<noteq> CHR ''+''"
    "c \<noteq> CHR ''x''" "c \<noteq> CHR ''X''"
  using assms by (auto simp: hex_char_def char_class)

lemma print_hexstring_append: "print_hexstring (a @ b) = print_hexstring a @ print_hexstring b"
  by (induction a) simp_all

lemma length_print_hexstring [simp]: "length (print_hexstring a) = 2 * length a"
  by (induction a) (simp_all add: printf_02x_def)

lemma print_hexstring_chars: "c \<in> set (print_hexstring a) \<Longrightarrow> hex_char c"
  by (induction a) (auto simp: printf_02x_def hex_char_digit_char)

lemma cstr_Cons: "c \<noteq> NUL \<Longrightarrow> cstr (c # s) = c # cstr s"
  by (simp add: cstr_def)

lemma scan_2x_printf:
  "scan_2x (cstr (printf_02x b @ rest)) = Scan_val (of_nat (unat b))"
proof -
  let ?h = "digit_char (unat b div 16)" and ?l = "digit_char (unat b mod 16)"
  have hx: "hex_char ?h" "hex_char ?l" by (simp_all add: hex_char_digit_char)
  have s: "cstr (printf_02x b @ rest) = ?h # ?l # cstr rest"
    using hex_char_facts(1) [OF hx(1)] hex_char_facts(1) [OF hx(2)]
    by (simp add: printf_02x_def cstr_Cons)
  have v: "digits_value 16 [?h, ?l] = unat b"
    by (simp add: digits_value_def digit_val_16_digit_char)
  have i: "takeWhile is_hex_digit (take 2 (?h # ?l # cstr rest)) = [?h, ?l]"
    by (simp add: digit_char_hex)
  show ?thesis
    using hex_char_facts [OF hx(1)] hex_char_facts [OF hx(2)] v i
    by (simp add: s scan_2x_def take_sign_def)
qed

lemma ucast_of_nat_unat [simp]: "(ucast (of_nat (unat (b :: byte)) :: 32 word) :: byte) = b"
proof -
  have "unat b < 2 ^ 32" using unat_byte_less [of b] by (rule less_le_trans) simp
  then have "take_bit 32 (unat b) = unat b" by (simp add: take_bit_nat_eq_self)
  then show ?thesis by (simp del: of_nat_unat add: unsigned_of_nat) simp
qed

lemma drop_print_hexstring:
  "drop (2 * i) (print_hexstring a @ rest) = print_hexstring (drop i a) @ drop (2 * (i - length a)) rest"
proof (induction a arbitrary: i)
  case (Cons b a)
  then show ?case by (cases i) (simp_all add: printf_02x_def)
qed simp

lemma from_hexstring_loop_print:
  "i \<le> length a \<Longrightarrow>
   from_hexstring_loop junk (print_hexstring a @ rest) i (length a - i) = (True, drop i a)"
proof (induction "length a - i" arbitrary: i)
  case 0
  then show ?case by simp
next
  case (Suc n)
  then have i: "i < length a" by simp
  have d: "drop i a = a ! i # drop (Suc i) a" using i by (simp add: Cons_nth_drop_Suc)
  have t: "drop (i * 2) (print_hexstring a @ rest) = printf_02x (a ! i) @ print_hexstring (drop (Suc i) a) @ rest"
    using i drop_print_hexstring [of i a rest] by (simp add: d mult.commute [of i])
  have IH: "from_hexstring_loop junk (print_hexstring a @ rest) (Suc i) n = (True, drop (Suc i) a)"
    using Suc.hyps(1) [of "Suc i"] Suc.hyps(2) i by (metis Suc_leI diff_Suc_eq_diff_pred
        Suc_diff_Suc diff_Suc_1 nat.inject)
  show ?case
    by (simp only: Suc.hyps(2) [symmetric] from_hexstring_loop.simps t scan_2x_printf scan.case IH
        Let_def prod.case ucast_of_nat_unat d)
qed

lemma from_hexstring_print_hexstring:
  "from_hexstring junk (print_hexstring a @ rest) (length a) = (True, a)"
  using from_hexstring_loop_print [of 0 a junk rest] by (simp add: from_hexstring_def)

interpretation hexc: text_codec print_hexstring "from_hexstring junk" hex_char for junk
  by unfold_locales
    (auto simp: print_hexstring_append print_hexstring_chars from_hexstring_print_hexstring)

lemma length_from_hexstring_loop:
  "from_hexstring_loop junk src i n = (True, ds) \<Longrightarrow> length ds = n"
  by (induction n arbitrary: i ds) (auto split: scan.splits prod.splits)

lemma length_from_hexstring: "from_hexstring junk src n = (True, ds) \<Longrightarrow> length ds = n"
  by (simp add: from_hexstring_def length_from_hexstring_loop)

lemma length_from_hexstring_le: "length (snd (from_hexstring_loop junk src i n)) \<le> n"
proof (induction n arbitrary: i)
  case (Suc n)
  from Suc.IH [of "Suc i"] show ?case
    by (cases "from_hexstring_loop junk src (Suc i) n") (simp split: scan.splits)
qed simp

text \<open>The nibble table gives the digits of \<open>%02x\<close>.\<close>

lemma hextable_nth: "d < 16 \<Longrightarrow> hextable ! d = digit_char d"
proof -
  assume "d < 16"
  then have "d \<in> set [0..<16]" by simp
  moreover have "\<forall>d \<in> set [0..<16]. hextable ! d = digit_char d"
    by code_simp
  ultimately show ?thesis by blast
qed

lemma unat_high_nibble: "unat (drop_bit 4 (b :: byte)) = unat b div 16"
  unfolding unat_drop_bit_eq by (simp add: drop_bit_eq_div)

lemma unat_low_nibble: "unat (b AND 0xf :: byte) = unat b mod 16"
proof -
  have "b AND 0xf = take_bit 4 b" by (simp add: take_bit_eq_mask mask_eq_exp_minus_1)
  then have "unat (b AND 0xf) = take_bit 4 (unat b)" by (simp only: unsigned_take_bit_eq)
  then show ?thesis by (simp add: take_bit_eq_mod)
qed

lemma hexstring_fill_eq: "hexstring_fill a = print_hexstring a"
  by (induction a)
    (simp_all add: unat_high_nibble unat_low_nibble hextable_nth printf_02x_def)

text \<open>The buffer is null or as large as its recorded size.\<close>

definition hex_wf :: "hex_state \<Rightarrow> bool" where
  "hex_wf st \<longleftrightarrow> (case hex_buffer st of None \<Rightarrow> hex_buffer_size st = 0
                 | Some buf \<Rightarrow> length buf = hex_buffer_size st)"

lemma grown_size_ge: "bsz \<le> grown_size bsz"
  using div_mult_mod_eq [of bsz 1024] mod_less_divisor [of 1024 bsz]
  by (auto simp: grown_size_def simp del: div_mult_mod_eq)

lemma cstr_append_NUL: "NUL \<notin> set t \<Longrightarrow> cstr (t @ NUL # r) = t"
  by (simp add: cstr_def takeWhile_append)

lemma nul_not_hex: "NUL \<notin> set (print_hexstring a)"
  using print_hexstring_chars hex_char_facts(1) by blast

lemma hexstring_write_fits:
  "hex_buffer st = Some buf \<Longrightarrow> 2 * length src + 1 \<le> length buf \<Longrightarrow>
   \<exists>buf'. hexstring_write st src = (Hex_text (print_hexstring src), st\<lparr>hex_buffer := Some buf'\<rparr>) \<and>
          length buf' = length buf"
  by (auto simp: hexstring_write_def hexstring_fill_eq Let_def cstr_append_NUL nul_not_hex)

lemma hexstring_write_wf: "hex_wf st \<Longrightarrow> hex_wf (snd (hexstring_write st src))"
  by (auto simp: hexstring_write_def hex_wf_def Let_def split: option.splits)

lemma length_realloc_buffer: "length (realloc_buffer junk old n) = n"
  by (auto simp: realloc_buffer_def min_def split: option.split)

lemma hexstring_alloc_True:
  assumes "hex_wf st"
  shows "fst (hexstring True junk st src) = Hex_text (print_hexstring src) \<and>
         hex_wf (snd (hexstring True junk st src))"
proof (cases "hex_buffer_size st \<le> length src * 2 + 1")
  case True
  let ?n = "grown_size (length src * 2 + 1)"
  let ?b = "realloc_buffer junk (hex_buffer st) ?n"
  let ?st = "st\<lparr>hex_buffer_size := ?n, hex_buffer := Some ?b\<rparr>"
  have "2 * length src + 1 \<le> length ?b"
    using grown_size_ge [of "length src * 2 + 1"] by (simp add: length_realloc_buffer)
  then obtain buf' where w: "hexstring_write ?st src =
      (Hex_text (print_hexstring src), ?st\<lparr>hex_buffer := Some buf'\<rparr>)" "length buf' = length ?b"
    using hexstring_write_fits [of ?st ?b src] by auto
  with True show ?thesis
    by (simp add: hexstring_def Let_def hex_wf_def length_realloc_buffer)
next
  case False
  with assms obtain buf where b: "hex_buffer st = Some buf" "length buf = hex_buffer_size st"
    by (auto simp: hex_wf_def split: option.splits)
  with False obtain buf' where "hexstring_write st src =
      (Hex_text (print_hexstring src), st\<lparr>hex_buffer := Some buf'\<rparr>)" "length buf' = length buf"
    using hexstring_write_fits [of st buf src] by auto
  with False b show ?thesis by (simp add: hexstring_def Let_def hex_wf_def)
qed

section \<open>Properties\<close>

text \<open>
  C35. Decoding the hex text of any data gives the data back, whatever follows the text in
  memory, and never looks at an uninitialised variable.
\<close>

theorem hex_roundtrip:
  "from_hexstring junk (print_hexstring data @ rest) (length data) = (True, data)"
  by (rule hexc.dec_enc)

text \<open>
  C34. As long as memory can be allocated, \<open>hexstring\<close> returns the same text as
  \<open>print_hexstring\<close> for every sequence of calls: the shared buffer grows as needed, is never
  overrun and never null when it is written.
\<close>

fun hexstring_calls :: "char \<Rightarrow> hex_state \<Rightarrow> bytes list \<Rightarrow> hex_result list" where
  "hexstring_calls junk st [] = []"
| "hexstring_calls junk st (d # ds) =
     (let (r, st') = hexstring True junk st d in r # hexstring_calls junk st' ds)"

lemma hexstring_calls_wf:
  "hex_wf st \<Longrightarrow> hexstring_calls junk st ds = map (\<lambda>d. Hex_text (print_hexstring d)) ds"
proof (induction ds arbitrary: st)
  case (Cons d ds)
  then show ?case
    using hexstring_alloc_True [OF Cons.prems, of junk d]
    by (cases "hexstring True junk st d") simp
qed simp


text \<open>
  When \<open>realloc\<close> fails, the function reports it but has already recorded the larger size, so
  that the next call with data that fits that size writes through the null pointer.
\<close>

theorem hexstring_null_after_oom:
  assumes "hex_buffer_size st \<le> 2 * length d + 1"
    and "2 * length e + 1 < grown_size (2 * length d + 1)"
  shows "fst (hexstring False junk st d) = Hex_oom \<and>
         fst (hexstring ok junk (snd (hexstring False junk st d)) e) = Hex_null_write"
  using assms by (simp add: hexstring_def hexstring_write_def Let_def mult.commute)

theorem hexstring_null_after_oom_witness:
  "fst (hexstring False NUL hex_init [7]) = Hex_oom \<and>
   fst (hexstring True NUL (snd (hexstring False NUL hex_init [7])) [8]) = Hex_null_write"
  by (rule hexstring_null_after_oom) (simp_all add: hex_init_def grown_size_def)

end
