(* ===== verification/Byteorder.thy ===== *)
theory Byteorder
  imports Prelude
begin

text \<open>
  The model of \<open>service-provider/byteorder.c\<close>. \<open>reverse_bytes\<close> works in place when source and
  destination are the same pointer and copies backwards otherwise, so the model keeps the
  aliasing: a memory is a function from addresses to bytes and the two pointers are addresses.
  The library uses it to turn big-endian numbers (ECDSA signatures, the shared secret of the
  key exchange) into the little-endian order of the SGX structures.
\<close>

type_synonym memory = "nat \<Rightarrow> byte"

definition mem_bytes :: "memory \<Rightarrow> nat \<Rightarrow> nat \<Rightarrow> bytes" where
  "mem_bytes m a n = map (\<lambda>i. m (a + i)) [0..<n]"

text \<open>The in-place loop swaps the bytes at \<open>i\<close> and \<open>j\<close> and moves the indexes together.\<close>

function swap_loop :: "memory \<Rightarrow> nat \<Rightarrow> nat \<Rightarrow> nat \<Rightarrow> memory" where
  "swap_loop m sp i j =
     (if i < j then swap_loop (m(sp + j := m (sp + i), sp + i := m (sp + j))) sp (Suc i) (j - 1)
      else m)"
  by pat_completeness auto
termination
  by (relation "measure (\<lambda>(m, sp, i, j). j - i)") auto

declare swap_loop.simps [simp del]

text \<open>The copying loop reads \<open>src\<close> upwards and writes \<open>dest\<close> downwards from its last byte.\<close>

fun copy_loop :: "memory \<Rightarrow> nat \<Rightarrow> nat \<Rightarrow> nat \<Rightarrow> nat \<Rightarrow> memory" where
  "copy_loop m dest src len 0 = m"
| "copy_loop m dest src len (Suc n) =
     (let i = len - Suc n
      in copy_loop (m(dest + len - 1 - i := m (src + i))) dest src len n)"

definition reverse_bytes :: "memory \<Rightarrow> nat \<Rightarrow> nat \<Rightarrow> nat \<Rightarrow> memory" where
  "reverse_bytes m dest src len =
     (if len < 2 then m
      else if src = dest then swap_loop m src 0 (len - 1)
      else copy_loop m dest src len len)"

section \<open>Lemmas\<close>

lemma length_mem_bytes [simp]: "length (mem_bytes m a n) = n"
  by (simp add: mem_bytes_def)

lemma nth_mem_bytes [simp]: "i < n \<Longrightarrow> mem_bytes m a n ! i = m (a + i)"
  by (simp add: mem_bytes_def)

lemma swap_loop_spec:
  "swap_loop m sp i j a =
     (if sp + i \<le> a \<and> a \<le> sp + j then m (sp + i + j - (a - sp)) else m a)"
proof (induction m sp i j rule: swap_loop.induct)
  case (1 m sp i j)
  show ?case
  proof (cases "i < j")
    case True
    define m' where "m' = m(sp + j := m (sp + i), sp + i := m (sp + j))"
    have e: "swap_loop m sp i j a = swap_loop m' sp (Suc i) (j - Suc 0) a"
      using True by (simp add: swap_loop.simps [of m sp i j] m'_def)
    have IH: "swap_loop m' sp (Suc i) (j - Suc 0) a =
        (if sp + Suc i \<le> a \<and> a \<le> sp + (j - 1) then m' (sp + Suc i + (j - 1) - (a - sp)) else m' a)"
      using "1.IH" [OF True] by (simp only: m'_def One_nat_def)
    have s: "sp + Suc i + (j - 1) = sp + i + j" using True by simp
    consider "a = sp + i" | "a = sp + j" | "sp + i < a" "a < sp + j" | "a < sp + i \<or> sp + j < a"
      using True by linarith
    then show ?thesis
    proof cases
      case 1
      then show ?thesis unfolding e IH using True by (simp add: m'_def)
    next
      case 2
      then have n: "\<not> (sp + Suc i \<le> a \<and> a \<le> sp + (j - 1))" using True by linarith
      with 2 show ?thesis unfolding e IH if_not_P [OF n] using True by (simp add: m'_def)
    next
      case 3
      then have "sp + i + j - (a - sp) \<noteq> sp + i" "sp + i + j - (a - sp) \<noteq> sp + j"
        and r: "sp + Suc i \<le> a \<and> a \<le> sp + (j - 1)" by simp_all
      with 3 show ?thesis unfolding e IH if_P [OF r] s by (simp add: m'_def)
    next
      case 4
      then have "\<not> (sp + Suc i \<le> a \<and> a \<le> sp + (j - 1))" "\<not> (sp + i \<le> a \<and> a \<le> sp + j)"
        "a \<noteq> sp + i" "a \<noteq> sp + j" using True by linarith+
      then show ?thesis unfolding e IH by (simp only: m'_def if_False fun_upd_other not_False_eq_True)
    qed
  next
    case False
    then have "sp + i \<le> a \<and> a \<le> sp + j \<longrightarrow> sp + i + j - (a - sp) = a" by linarith
    with False show ?thesis by (simp add: swap_loop.simps [of m sp i j])
  qed
qed

definition disjoint_ranges :: "nat \<Rightarrow> nat \<Rightarrow> nat \<Rightarrow> bool" where
  "disjoint_ranges d s n \<longleftrightarrow> d + n \<le> s \<or> s + n \<le> d"

lemma copy_loop_spec:
  assumes "disjoint_ranges dest src len" "n \<le> len"
  shows "copy_loop m dest src len n a =
           (if dest \<le> a \<and> a < dest + n then m (src + (len - 1 - (a - dest))) else m a)"
  using assms(2)
proof (induction n arbitrary: m)
  case (Suc n)
  let ?i = "len - Suc n"
  let ?m = "m(dest + len - 1 - ?i := m (src + ?i))"
  have w: "dest + len - 1 - ?i = dest + n" using Suc.prems by simp
  have "copy_loop m dest src len (Suc n) a = copy_loop ?m dest src len n a" by (simp add: Let_def)
  also have "\<dots> = (if dest \<le> a \<and> a < dest + n then ?m (src + (len - 1 - (a - dest))) else ?m a)"
    using Suc by simp
  also have "\<dots> = (if dest \<le> a \<and> a < dest + Suc n then m (src + (len - 1 - (a - dest))) else m a)"
    using assms(1) Suc.prems by (auto simp: w disjoint_ranges_def)
  finally show ?case .
qed auto

section \<open>Properties\<close>

text \<open>
  C36. For two bytes or more the destination holds the reversed source afterwards, and nothing
  else in memory changes: in place when the pointers are equal, and into a disjoint
  destination otherwise.
\<close>

theorem reverse_bytes_spec:
  assumes "2 \<le> len" and "src = dest \<or> disjoint_ranges dest src len"
  shows "mem_bytes (reverse_bytes m dest src len) dest len = rev (mem_bytes m src len) \<and>
         (\<forall>a. a < dest \<or> dest + len \<le> a \<longrightarrow> reverse_bytes m dest src len a = m a)"
proof -
  have r: "reverse_bytes m dest src len a =
      (if dest \<le> a \<and> a < dest + len then m (src + (len - 1 - (a - dest))) else m a)" for a
    using assms copy_loop_spec [of dest src len len m a]
    by (auto simp: reverse_bytes_def swap_loop_spec intro!: arg_cong [of _ _ m])
  have "mem_bytes (reverse_bytes m dest src len) dest len = rev (mem_bytes m src len)"
    by (rule nth_equalityI) (simp_all add: r rev_nth)
  then show ?thesis by (simp add: r)
qed

theorem reverse_bytes_spec_witness:
  "mem_bytes (reverse_bytes (\<lambda>a. of_nat a) 10 1 3) 10 3 = [3, 2, 1 :: byte]"
  using reverse_bytes_spec [of 3 1 10 "\<lambda>a. of_nat a"]
  by (simp add: disjoint_ranges_def mem_bytes_def upt_rec numeral_eq_Suc)

text \<open>
  A single byte is not copied to a different destination: the guard on the length comes
  before the test for aliasing. The callers pass 32 bytes, or the length of the shared secret.
\<close>

lemma reverse_bytes_single_not_copied: "reverse_bytes m dest src 1 = m"
  by (simp add: reverse_bytes_def)

end
