(* ===== verification/Http_Parser.thy ===== *)
theory Http_Parser
  imports Prelude
begin

text \<open>
  The model of \<open>service-provider/httpparser\<close>: the \<open>Response\<close> structure with its printing and
  header lookup, and the character-by-character response parser.

  The state of the parser object is the record \<open>parser\<close>; \<open>size_t\<close> fields are 64-bit words and
  \<open>int\<close> fields 32-bit words, which wrap (for the signed version numbers this is what the
  unoptimised build of the Makefile does). A step of \<open>consume\<close> is split as the code's switch is:
  \<open>status_line_step\<close>, \<open>header_step\<close> and \<open>body_step\<close>, each passing the states it does not know
  to the next. \<open>Parsing_undefined\<close> is \<open>headers.back()\<close> on an empty vector, which the invariant
  \<open>http_inv\<close> excludes, and \<open>Parsing_length_error\<close> the exception of \<open>vector::reserve\<close> beyond
  \<open>max_size()\<close>. Memory is otherwise assumed to be available.
\<close>

section \<open>The response\<close>

record header_item =
  h_name :: string
  h_value :: string

record response =
  versionMajor :: "32 word"
  versionMinor :: "32 word"
  headers :: "header_item list"
  content :: string
  keepAlive :: bool
  statusCode :: "32 word"
  status :: string

definition empty_response :: response where
  "empty_response = \<lparr>versionMajor = 0, versionMinor = 0, headers = [], content = [],
     keepAlive = False, statusCode = 0, status = []\<rparr>"

definition inspect :: "response \<Rightarrow> string" where
  "inspect r =
     ''HTTP/'' @ show_int (sint (versionMajor r)) @ ''.'' @ show_int (sint (versionMinor r))
       @ '' '' @ show_nat (unat (statusCode r)) @ '' '' @ status r @ [LF]
     @ concat (map (\<lambda>it. h_name it @ '': '' @ h_value it @ [LF]) (headers r))
     @ [LF] @ content r @ [LF]"

definition content_string :: "response \<Rightarrow> string" where
  "content_string r = content r"

definition is_equal_ncase :: "string \<Rightarrow> string \<Rightarrow> bool" where
  "is_equal_ncase a b \<longleftrightarrow> map toupper a = map toupper b"

definition headers_as_string :: "response \<Rightarrow> string \<Rightarrow> string" where
  "headers_as_string r name =
     concat (map (\<lambda>it. if is_equal_ncase (h_name it) name then h_value it @ [LF] else [])
                 (headers r))"

section \<open>The parser object\<close>

datatype state =
    ResponseStatusStart
  | ResponseHttpVersion_ht
  | ResponseHttpVersion_htt
  | ResponseHttpVersion_http
  | ResponseHttpVersion_slash
  | ResponseHttpVersion_majorStart
  | ResponseHttpVersion_major
  | ResponseHttpVersion_minorStart
  | ResponseHttpVersion_minor
  | ResponseHttpVersion_statusCodeStart
  | ResponseHttpVersion_statusCode
  | ResponseHttpVersion_statusTextStart
  | ResponseHttpVersion_statusText
  | ResponseHttpVersion_newLine
  | HeaderLineStart
  | HeaderLws
  | HeaderName
  | SpaceBeforeHeaderValue
  | HeaderValue
  | ExpectingNewline_2
  | ExpectingNewline_3
  | Post
  | ChunkSize
  | ChunkExtensionName
  | ChunkExtensionValue
  | ChunkSizeNewLine
  | ChunkSizeNewLine_2
  | ChunkSizeNewLine_3
  | ChunkTrailerName
  | ChunkTrailerValue
  | ChunkDataNewLine_1
  | ChunkDataNewLine_2
  | ChunkData

datatype parse_result =
    ParsingCompleted
  | ParsingIncompleted
  | ParsingError
  | Parsing_length_error
  | Parsing_undefined

record parser =
  pstate :: state
  contentSize :: "64 word"
  chunkSizeStr :: string
  chunkSize :: "64 word"
  chunked :: bool

definition init_parser :: parser where
  "init_parser = \<lparr>pstate = ResponseStatusStart, contentSize = 0, chunkSizeStr = [],
     chunkSize = 0, chunked = False\<rparr>"

type_synonym conn = "parser \<times> response"

section \<open>Character classes\<close>

text \<open>
  The functions take an \<open>int\<close>; a \<open>char\<close> is signed on the platform, so that bytes from 128 on
  are negative.
\<close>

definition char_int :: "char \<Rightarrow> int" where
  "char_int c = (if code c < 128 then int (code c) else int (code c) - 256)"

definition isChar :: "int \<Rightarrow> bool" where
  "isChar c \<longleftrightarrow> c \<ge> 0 \<and> c \<le> 127"

definition isControl :: "int \<Rightarrow> bool" where
  "isControl c \<longleftrightarrow> (c \<ge> 0 \<and> c \<le> 31) \<or> c = 127"

definition isSpecial :: "char \<Rightarrow> bool" where
  "isSpecial c \<longleftrightarrow> c \<in> set (''()<>@,;:/[]?={} '' @ [BACKSLASH, DQUOTE, TAB])"

definition isDigit :: "int \<Rightarrow> bool" where
  "isDigit c \<longleftrightarrow> c \<ge> 48 \<and> c \<le> 57"

definition digit :: "char \<Rightarrow> 'a::len word" where
  "digit c = of_nat (code c - 48)"

section \<open>One step\<close>

definition goto :: "state \<Rightarrow> parser \<Rightarrow> response \<Rightarrow> parse_result option \<times> conn" where
  "goto s p r = (None, p\<lparr>pstate := s\<rparr>, r)"

definition stop :: "parse_result \<Rightarrow> parser \<Rightarrow> response \<Rightarrow> parse_result option \<times> conn" where
  "stop res p r = (Some res, p, r)"

text \<open>\<open>vector<char>::max_size()\<close>.\<close>

definition max_size :: "64 word" where
  "max_size = 2 ^ 63 - 1"

text \<open>Writing to \<open>headers.back()\<close>.\<close>

definition with_back ::
    "response \<Rightarrow> (header_item \<Rightarrow> header_item) \<Rightarrow> (response \<Rightarrow> parse_result option \<times> conn)
      \<Rightarrow> parser \<Rightarrow> parse_result option \<times> conn" where
  "with_back r f k p =
     (if headers r = [] then stop Parsing_undefined p r
      else k (r\<lparr>headers := butlast (headers r) @ [f (last (headers r))]\<rparr>))"

definition body_step :: "parser \<Rightarrow> response \<Rightarrow> char \<Rightarrow> parse_result option \<times> conn" where
  "body_step p r input = (case pstate p of
      Post \<Rightarrow>
        (let p' = p\<lparr>contentSize := contentSize p - 1\<rparr>;
             r' = r\<lparr>content := content r @ [input]\<rparr>
         in if contentSize p' = 0 then stop ParsingCompleted p' r' else (None, p', r'))
    | ChunkSize \<Rightarrow>
        if isalnum input then (None, p\<lparr>chunkSizeStr := chunkSizeStr p @ [input]\<rparr>, r)
        else if input = CHR '';'' then goto ChunkExtensionName p r
        else if input = CR then goto ChunkSizeNewLine p r
        else stop ParsingError p r
    | ChunkExtensionName \<Rightarrow>
        if isalnum input \<or> input = SPC then (None, p, r)
        else if input = CHR ''='' then goto ChunkExtensionValue p r
        else if input = CR then goto ChunkSizeNewLine p r
        else stop ParsingError p r
    | ChunkExtensionValue \<Rightarrow>
        if isalnum input \<or> input = SPC then (None, p, r)
        else if input = CR then goto ChunkSizeNewLine p r
        else stop ParsingError p r
    | ChunkSizeNewLine \<Rightarrow>
        if input = LF then
          (let sz = word_of_int (strtol 16 (chunkSizeStr p));
               p' = p\<lparr>chunkSize := sz, chunkSizeStr := []\<rparr>
           in if of_nat (length (content r)) + sz > max_size then stop Parsing_length_error p' r
              else if sz = 0 then goto ChunkSizeNewLine_2 p' r
              else goto ChunkData p' r)
        else stop ParsingError p r
    | ChunkSizeNewLine_2 \<Rightarrow>
        if input = CR then goto ChunkSizeNewLine_3 p r
        else if isalpha input then goto ChunkTrailerName p r
        else stop ParsingError p r
    | ChunkSizeNewLine_3 \<Rightarrow>
        if input = LF then stop ParsingCompleted p r else stop ParsingError p r
    | ChunkTrailerName \<Rightarrow>
        if isalnum input then (None, p, r)
        else if input = CHR '':'' then goto ChunkTrailerValue p r
        else stop ParsingError p r
    | ChunkTrailerValue \<Rightarrow>
        if isalnum input \<or> input = SPC then (None, p, r)
        else if input = CR then goto ChunkSizeNewLine p r
        else stop ParsingError p r
    | ChunkData \<Rightarrow>
        (let p' = p\<lparr>chunkSize := chunkSize p - 1\<rparr>;
             r' = r\<lparr>content := content r @ [input]\<rparr>
         in if chunkSize p' = 0 then goto ChunkDataNewLine_1 p' r' else (None, p', r'))
    | ChunkDataNewLine_1 \<Rightarrow>
        if input = CR then goto ChunkDataNewLine_2 p r else stop ParsingError p r
    | ChunkDataNewLine_2 \<Rightarrow>
        if input = LF then goto ChunkSize p r else stop ParsingError p r
    | _ \<Rightarrow> stop ParsingError p r)"

text \<open>
  The end of a header value: \<open>Content-Length\<close> and \<open>Transfer-Encoding\<close> set how the body is read.
\<close>

definition header_value_done :: "parser \<Rightarrow> response \<Rightarrow> parse_result option \<times> conn" where
  "header_value_done p r =
     (if headers r = [] then stop Parsing_undefined p r
      else let h = last (headers r) in
        if strcase_eq (h_name h) ''Content-Length'' then
          (let p' = p\<lparr>contentSize := scast (atoi (h_value h))\<rparr>
           in if contentSize p' > max_size then stop Parsing_length_error p' r
              else goto ExpectingNewline_2 p' r)
        else if strcase_eq (h_name h) ''Transfer-Encoding'' then
          (if strcase_eq (h_value h) ''chunked''
           then goto ExpectingNewline_2 (p\<lparr>chunked := True\<rparr>) r
           else goto ExpectingNewline_2 p r)
        else goto ExpectingNewline_2 p r)"

text \<open>The blank line after the headers: keep-alive, and which kind of body follows.\<close>

definition checkIfConnection :: "header_item \<Rightarrow> bool" where
  "checkIfConnection it \<longleftrightarrow> strcase_eq (h_name it) ''Connection''"

definition decide_keep_alive :: "response \<Rightarrow> response" where
  "decide_keep_alive r =
     (case find checkIfConnection (headers r) of
        Some it \<Rightarrow> r\<lparr>keepAlive := strcase_eq (h_value it) ''Keep-Alive''\<rparr>
      | None \<Rightarrow> if sint (versionMajor r) > 1 \<or> (versionMajor r = 1 \<and> versionMinor r = 1)
                then r\<lparr>keepAlive := True\<rparr> else r)"

definition headers_done :: "parser \<Rightarrow> response \<Rightarrow> char \<Rightarrow> parse_result option \<times> conn" where
  "headers_done p r input =
     (let r' = decide_keep_alive r in
      if chunked p then goto ChunkSize p r'
      else if contentSize p = 0 then
        (if input = LF then stop ParsingCompleted p r' else stop ParsingError p r')
      else goto Post p r')"

definition header_step :: "parser \<Rightarrow> response \<Rightarrow> char \<Rightarrow> parse_result option \<times> conn" where
  "header_step p r input = (case pstate p of
      HeaderLineStart \<Rightarrow>
        if input = CR then goto ExpectingNewline_3 p r
        else if headers r \<noteq> [] \<and> (input = SPC \<or> input = TAB) then goto HeaderLws p r
        else if \<not> isChar (char_int input) \<or> isControl (char_int input) \<or> isSpecial input
        then stop ParsingError p r
        else goto HeaderName p
               (r\<lparr>headers := headers r @ [\<lparr>h_name = [input], h_value = []\<rparr>]\<rparr>)
    | HeaderLws \<Rightarrow>
        if input = CR then goto ExpectingNewline_2 p r
        else if input = SPC \<or> input = TAB then (None, p, r)
        else if isControl (char_int input) then stop ParsingError p r
        else with_back r (\<lambda>h. h\<lparr>h_value := h_value h @ [input]\<rparr>) (goto HeaderValue p) p
    | HeaderName \<Rightarrow>
        if input = CHR '':'' then goto SpaceBeforeHeaderValue p r
        else if \<not> isChar (char_int input) \<or> isControl (char_int input) \<or> isSpecial input
        then stop ParsingError p r
        else with_back r (\<lambda>h. h\<lparr>h_name := h_name h @ [input]\<rparr>) (\<lambda>r'. (None, p, r')) p
    | SpaceBeforeHeaderValue \<Rightarrow>
        if input = SPC then goto HeaderValue p r else stop ParsingError p r
    | HeaderValue \<Rightarrow>
        if input = CR then header_value_done p r
        else if isControl (char_int input) then stop ParsingError p r
        else with_back r (\<lambda>h. h\<lparr>h_value := h_value h @ [input]\<rparr>) (\<lambda>r'. (None, p, r')) p
    | ExpectingNewline_2 \<Rightarrow>
        if input = LF then goto HeaderLineStart p r else stop ParsingError p r
    | ExpectingNewline_3 \<Rightarrow> headers_done p r input
    | _ \<Rightarrow> body_step p r input)"

definition status_line_step :: "parser \<Rightarrow> response \<Rightarrow> char \<Rightarrow> parse_result option \<times> conn" where
  "status_line_step p r input = (case pstate p of
      ResponseStatusStart \<Rightarrow>
        if input \<noteq> CHR ''H'' then stop ParsingError p r else goto ResponseHttpVersion_ht p r
    | ResponseHttpVersion_ht \<Rightarrow>
        if input = CHR ''T'' then goto ResponseHttpVersion_htt p r else stop ParsingError p r
    | ResponseHttpVersion_htt \<Rightarrow>
        if input = CHR ''T'' then goto ResponseHttpVersion_http p r else stop ParsingError p r
    | ResponseHttpVersion_http \<Rightarrow>
        if input = CHR ''P'' then goto ResponseHttpVersion_slash p r else stop ParsingError p r
    | ResponseHttpVersion_slash \<Rightarrow>
        if input = CHR ''/'' then
          goto ResponseHttpVersion_majorStart p (r\<lparr>versionMajor := 0, versionMinor := 0\<rparr>)
        else stop ParsingError p r
    | ResponseHttpVersion_majorStart \<Rightarrow>
        if isDigit (char_int input) then
          goto ResponseHttpVersion_major p (r\<lparr>versionMajor := digit input\<rparr>)
        else stop ParsingError p r
    | ResponseHttpVersion_major \<Rightarrow>
        if input = CHR ''.'' then goto ResponseHttpVersion_minorStart p r
        else if isDigit (char_int input) then
          (None, p, r\<lparr>versionMajor := versionMajor r * 10 + digit input\<rparr>)
        else stop ParsingError p r
    | ResponseHttpVersion_minorStart \<Rightarrow>
        if isDigit (char_int input) then
          goto ResponseHttpVersion_minor p (r\<lparr>versionMinor := digit input\<rparr>)
        else stop ParsingError p r
    | ResponseHttpVersion_minor \<Rightarrow>
        if input = SPC then goto ResponseHttpVersion_statusCodeStart p (r\<lparr>statusCode := 0\<rparr>)
        else if isDigit (char_int input) then
          (None, p, r\<lparr>versionMinor := versionMinor r * 10 + digit input\<rparr>)
        else stop ParsingError p r
    | ResponseHttpVersion_statusCodeStart \<Rightarrow>
        if isDigit (char_int input) then
          goto ResponseHttpVersion_statusCode p (r\<lparr>statusCode := digit input\<rparr>)
        else stop ParsingError p r
    | ResponseHttpVersion_statusCode \<Rightarrow>
        if isDigit (char_int input) then
          (None, p, r\<lparr>statusCode := statusCode r * 10 + digit input\<rparr>)
        else if statusCode r < 100 \<or> statusCode r > 999 then stop ParsingError p r
        else if input = SPC then goto ResponseHttpVersion_statusTextStart p r
        else stop ParsingError p r
    | ResponseHttpVersion_statusTextStart \<Rightarrow>
        if isChar (char_int input) then
          goto ResponseHttpVersion_statusText p (r\<lparr>status := status r @ [input]\<rparr>)
        else stop ParsingError p r
    | ResponseHttpVersion_statusText \<Rightarrow>
        if input = CR then goto ResponseHttpVersion_newLine p r
        else if isChar (char_int input) then (None, p, r\<lparr>status := status r @ [input]\<rparr>)
        else stop ParsingError p r
    | ResponseHttpVersion_newLine \<Rightarrow>
        if input = LF then goto HeaderLineStart p r else stop ParsingError p r
    | _ \<Rightarrow> header_step p r input)"

section \<open>The run\<close>

fun step :: "conn \<Rightarrow> char \<Rightarrow> parse_result option \<times> conn" where
  "step (p, r) input = status_line_step p r input"

fun consume :: "conn \<Rightarrow> string \<Rightarrow> parse_result option \<times> conn" where
  "consume s [] = (None, s)"
| "consume s (input # rest) =
     (case step s input of
        (Some res, s') \<Rightarrow> (Some res, s')
      | (None, s') \<Rightarrow> consume s' rest)"

definition parse :: "parser \<Rightarrow> response \<Rightarrow> string \<Rightarrow> parse_result \<times> conn" where
  "parse p r s = (case consume (p, r) s of
      (Some res, s') \<Rightarrow> (res, s') | (None, s') \<Rightarrow> (ParsingIncompleted, s'))"

section \<open>The invariant\<close>

definition needs_header :: "state \<Rightarrow> bool" where
  "needs_header q \<longleftrightarrow> q \<in> {HeaderLws, HeaderName, SpaceBeforeHeaderValue, HeaderValue}"

definition before_status :: "state \<Rightarrow> bool" where
  "before_status q \<longleftrightarrow> q \<in> {ResponseStatusStart, ResponseHttpVersion_ht, ResponseHttpVersion_htt,
     ResponseHttpVersion_http, ResponseHttpVersion_slash, ResponseHttpVersion_majorStart,
     ResponseHttpVersion_major, ResponseHttpVersion_minorStart, ResponseHttpVersion_minor,
     ResponseHttpVersion_statusCodeStart, ResponseHttpVersion_statusCode}"

definition status_ok :: "response \<Rightarrow> bool" where
  "status_ok r \<longleftrightarrow> 100 \<le> statusCode r \<and> statusCode r \<le> 999"

fun http_inv :: "conn \<Rightarrow> bool" where
  "http_inv (p, r) \<longleftrightarrow>
     (needs_header (pstate p) \<longrightarrow> headers r \<noteq> []) \<and>
     (\<not> before_status (pstate p) \<longrightarrow> status_ok r) \<and>
     (pstate p = Post \<longrightarrow> contentSize p \<noteq> 0) \<and>
     (pstate p = ChunkData \<longrightarrow> chunkSize p \<noteq> 0)"

lemmas http_defs = status_line_step_def header_step_def body_step_def header_value_done_def
  headers_done_def goto_def stop_def with_back_def Let_def

lemma decide_keep_alive_frame [simp]:
  "headers (decide_keep_alive r) = headers r" "statusCode (decide_keep_alive r) = statusCode r"
  "content (decide_keep_alive r) = content r" "status (decide_keep_alive r) = status r"
  "versionMajor (decide_keep_alive r) = versionMajor r"
  "versionMinor (decide_keep_alive r) = versionMinor r"
  by (auto simp: decide_keep_alive_def split: option.splits)

lemma step_inv: "http_inv (p, r) \<Longrightarrow> step (p, r) c = (None, (p', r')) \<Longrightarrow> http_inv (p', r')"
  by (cases "pstate p")
    (auto simp: http_defs needs_header_def before_status_def status_ok_def not_less not_le
      split: if_splits)

interpretation http: stepper step consume http_inv
proof unfold_locales
  show "consume s [] = (None, s)" for s by simp
  show "consume s (c # cs) =
      (case step s c of (None, s') \<Rightarrow> consume s' cs | (Some r, s') \<Rightarrow> (Some r, s'))" for s c cs
    by (simp split: prod.splits option.splits)
  show "http_inv s'" if "http_inv s" "step s c = (None, s')" for s c s'
    using that step_inv [of "fst s" "snd s" c "fst s'" "snd s'"] by simp
qed

lemma init_inv: "http_inv (init_parser, empty_response)"
  by (simp add: init_parser_def needs_header_def before_status_def)

section \<open>Reading the parts of a response\<close>

lemma isDigit_char_int: "isDigit (char_int c) \<longleftrightarrow> isdigit c"
  using nat_of_char_less_256 [of c]
  by (auto simp: isDigit_def char_int_def char_class simp del: nat_of_char_less_256)

lemma digit_word: "isdigit c \<Longrightarrow> digit c = of_nat (the (digit_val 10 c))"
  by (auto simp: digit_def digit_val_def char_class Let_def)

lemma foldl_digit:
  "\<forall>c \<in> set ds. isdigit c \<Longrightarrow>
   foldl (\<lambda>v c. v * 10 + digit c) (of_nat v0) ds =
     (of_nat (foldl (\<lambda>v c. v * 10 + the (digit_val 10 c)) v0 ds) :: 'a::len word)"
proof (induction ds arbitrary: v0)
  case (Cons c ds)
  then show ?case
    using Cons.IH [of "v0 * 10 + the (digit_val 10 c)"] by (simp add: digit_word mult.commute)
qed simp

lemma foldl_digit_show_nat:
  "foldl (\<lambda>v c. v * 10 + digit c) 0 (show_nat n) = (of_nat n :: 'a::len word)"
  using foldl_digit [of "show_nat n" 0] show_nat_isdigit [of _ n] digits_value_show_nat [of n]
  by (auto simp: digits_value_def)

lemma isdigit_not_punct: "isdigit c \<Longrightarrow> c \<noteq> CHR ''.'' \<and> c \<noteq> SPC"
  by (auto simp: char_class)

lemma consume_major:
  "pstate p = ResponseHttpVersion_major \<Longrightarrow> \<forall>c \<in> set ds. isdigit c \<Longrightarrow>
   consume (p, r) (ds @ rest) =
     consume (p, r\<lparr>versionMajor := foldl (\<lambda>v c. v * 10 + digit c) (versionMajor r) ds\<rparr>) rest"
  by (induction ds arbitrary: r)
    (auto simp: status_line_step_def isDigit_char_int dest!: isdigit_not_punct)

lemma consume_minor:
  "pstate p = ResponseHttpVersion_minor \<Longrightarrow> \<forall>c \<in> set ds. isdigit c \<Longrightarrow>
   consume (p, r) (ds @ rest) =
     consume (p, r\<lparr>versionMinor := foldl (\<lambda>v c. v * 10 + digit c) (versionMinor r) ds\<rparr>) rest"
  by (induction ds arbitrary: r)
    (auto simp: status_line_step_def isDigit_char_int dest!: isdigit_not_punct)

lemma consume_code:
  "pstate p = ResponseHttpVersion_statusCode \<Longrightarrow> \<forall>c \<in> set ds. isdigit c \<Longrightarrow>
   consume (p, r) (ds @ rest) =
     consume (p, r\<lparr>statusCode := foldl (\<lambda>v c. v * 10 + digit c) (statusCode r) ds\<rparr>) rest"
  by (induction ds arbitrary: r) (auto simp: status_line_step_def isDigit_char_int)

text \<open>A number starts in its start state, with its first digit, and goes on in the next.\<close>

lemma show_nat_split:
  obtains d ds where "show_nat n = d # ds" "isdigit d" "\<forall>c \<in> set ds. isdigit c"
    "foldl (\<lambda>v c. v * 10 + digit c) (digit d) ds = (of_nat n :: 'a::len word)"
proof -
  obtain d ds where s: "show_nat n = d # ds" by (cases "show_nat n") auto
  then have "isdigit d" "\<forall>c \<in> set ds. isdigit c" using show_nat_isdigit [of _ n] by auto
  moreover have "foldl (\<lambda>v c. v * 10 + digit c) (digit d) ds = (of_nat n :: 'a word)"
    using foldl_digit_show_nat [of n, where ?'a = 'a] by (simp add: s)
  ultimately show thesis using s that by blast
qed

lemma consume_major_number:
  "pstate p = ResponseHttpVersion_majorStart \<Longrightarrow>
   consume (p, r) (show_nat n @ rest) =
     consume (p\<lparr>pstate := ResponseHttpVersion_major\<rparr>, r\<lparr>versionMajor := of_nat n\<rparr>) rest"
  by (rule show_nat_split [of n, where ?'a = 32])
    (simp add: status_line_step_def isDigit_char_int goto_def consume_major)

lemma consume_minor_number:
  "pstate p = ResponseHttpVersion_minorStart \<Longrightarrow>
   consume (p, r) (show_nat n @ rest) =
     consume (p\<lparr>pstate := ResponseHttpVersion_minor\<rparr>, r\<lparr>versionMinor := of_nat n\<rparr>) rest"
  by (rule show_nat_split [of n, where ?'a = 32])
    (simp add: status_line_step_def isDigit_char_int goto_def consume_minor)

lemma consume_code_number:
  "pstate p = ResponseHttpVersion_statusCodeStart \<Longrightarrow>
   consume (p, r) (show_nat n @ rest) =
     consume (p\<lparr>pstate := ResponseHttpVersion_statusCode\<rparr>, r\<lparr>statusCode := of_nat n\<rparr>) rest"
  by (rule show_nat_split [of n, where ?'a = 32])
    (simp add: status_line_step_def isDigit_char_int goto_def consume_code)

lemma consume_status_text:
  "pstate p = ResponseHttpVersion_statusText \<Longrightarrow> \<forall>c \<in> set t. c \<noteq> CR \<and> isChar (char_int c) \<Longrightarrow>
   consume (p, r) (t @ rest) = consume (p, r\<lparr>status := status r @ t\<rparr>) rest"
  by (induction t arbitrary: r) (simp_all add: status_line_step_def)

section \<open>Well-formed responses\<close>

record http_head =
  m_major :: nat
  m_minor :: nat
  m_code :: nat
  m_reason :: string
  m_headers :: "(string \<times> string) list"

definition reason_ok :: "string \<Rightarrow> bool" where
  "reason_ok t \<longleftrightarrow> t \<noteq> [] \<and> (\<forall>c \<in> set t. c \<noteq> CR \<and> isChar (char_int c))"

definition token_char :: "char \<Rightarrow> bool" where
  "token_char c \<longleftrightarrow> isChar (char_int c) \<and> \<not> isControl (char_int c) \<and> \<not> isSpecial c"

definition name_ok :: "string \<Rightarrow> bool" where
  "name_ok n \<longleftrightarrow> n \<noteq> [] \<and> (\<forall>c \<in> set n. token_char c)"

definition value_ok :: "string \<Rightarrow> bool" where
  "value_ok v \<longleftrightarrow> (\<forall>c \<in> set v. \<not> isControl (char_int c))"

definition length_ok :: "string \<times> string \<Rightarrow> bool" where
  "length_ok nv \<longleftrightarrow> (strcase_eq (fst nv) ''Content-Length'' \<longrightarrow> (scast (atoi (snd nv)) :: 64 word) \<le> max_size)"

definition header_ok :: "string \<times> string \<Rightarrow> bool" where
  "header_ok nv \<longleftrightarrow> name_ok (fst nv) \<and> value_ok (snd nv) \<and> length_ok nv"

definition head_ok :: "http_head \<Rightarrow> bool" where
  "head_ok m \<longleftrightarrow> reason_ok (m_reason m) \<and> list_all header_ok (m_headers m)"

definition render_header :: "string \<times> string \<Rightarrow> string" where
  "render_header nv = fst nv @ '': '' @ snd nv @ [CR, LF]"

definition render_head :: "http_head \<Rightarrow> string" where
  "render_head m = ''HTTP/'' @ show_nat (m_major m) @ ''.'' @ show_nat (m_minor m) @ '' ''
     @ show_nat (m_code m) @ '' '' @ m_reason m @ [CR, LF]
     @ concat (map render_header (m_headers m)) @ [CR, LF]"

text \<open>What a header does to the parser, and the item it leaves in the response.\<close>

definition apply_header :: "parser \<Rightarrow> string \<times> string \<Rightarrow> parser" where
  "apply_header p nv =
     (if strcase_eq (fst nv) ''Content-Length'' then p\<lparr>contentSize := scast (atoi (snd nv))\<rparr>
      else if strcase_eq (fst nv) ''Transfer-Encoding'' \<and> strcase_eq (snd nv) ''chunked''
      then p\<lparr>chunked := True\<rparr> else p)"

definition header_of :: "string \<times> string \<Rightarrow> header_item" where
  "header_of nv = \<lparr>h_name = fst nv, h_value = snd nv\<rparr>"

definition headers_parser :: "http_head \<Rightarrow> parser" where
  "headers_parser m = foldl apply_header init_parser (m_headers m)"

definition parsed_head :: "http_head \<Rightarrow> response" where
  "parsed_head m = \<lparr>versionMajor = of_nat (m_major m), versionMinor = of_nat (m_minor m),
     headers = map header_of (m_headers m), content = [], keepAlive = False,
     statusCode = of_nat (m_code m), status = m_reason m\<rparr>"

section \<open>Reading a header and a body\<close>

lemma not_token_char:
  "\<not> token_char CR" "\<not> token_char SPC" "\<not> token_char TAB" "\<not> token_char CHR '':''"
  by (simp_all add: token_char_def isSpecial_def isControl_def char_int_def)

lemma token_char_facts:
  "token_char c \<Longrightarrow> c \<noteq> CR \<and> c \<noteq> SPC \<and> c \<noteq> TAB \<and> c \<noteq> CHR '':'' \<and>
     isChar (char_int c) \<and> \<not> isControl (char_int c) \<and> \<not> isSpecial c"
  using not_token_char by (auto simp: token_char_def)

lemma cr_control: "isControl (char_int CR)"
  by (simp add: isControl_def char_int_def)

lemma consume_name:
  "pstate p = HeaderName \<Longrightarrow> \<forall>c \<in> set n. token_char c \<Longrightarrow> headers r = hs @ [h] \<Longrightarrow>
   consume (p, r) (n @ rest) = consume (p, r\<lparr>headers := hs @ [h\<lparr>h_name := h_name h @ n\<rparr>]\<rparr>) rest"
proof (induction n arbitrary: r h)
  case Nil
  then have "r\<lparr>headers := hs @ [h]\<rparr> = r" by (cases r) simp
  then show ?case by simp
next
  case (Cons c n)
  then show ?case
    using token_char_facts [of c]
    by (simp add: status_line_step_def header_step_def with_back_def)
qed

lemma consume_value:
  "pstate p = HeaderValue \<Longrightarrow> \<forall>c \<in> set v. \<not> isControl (char_int c) \<Longrightarrow> headers r = hs @ [h] \<Longrightarrow>
   consume (p, r) (v @ rest) = consume (p, r\<lparr>headers := hs @ [h\<lparr>h_value := h_value h @ v\<rparr>]\<rparr>) rest"
proof (induction v arbitrary: r h)
  case Nil
  then have "r\<lparr>headers := hs @ [h]\<rparr> = r" by (cases r) simp
  then show ?case by simp
next
  case (Cons c v)
  then have "c \<noteq> CR" using cr_control by auto
  with Cons show ?case
    by (simp add: status_line_step_def header_step_def with_back_def)
qed

lemma step_value_done:
  assumes "pstate p = HeaderValue" "headers r = hs @ [header_of nv]" "length_ok nv"
  shows "step (p, r) CR = (None, (apply_header p nv)\<lparr>pstate := ExpectingNewline_2\<rparr>, r)"
  using assms
  by (auto simp: status_line_step_def header_step_def header_value_done_def header_of_def
      length_ok_def apply_header_def goto_def Let_def not_less)

lemma consume_header:
  assumes p: "pstate p = HeaderLineStart" and ok: "header_ok nv"
  shows "consume (p, r) (render_header nv @ rest) =
     consume ((apply_header p nv)\<lparr>pstate := HeaderLineStart\<rparr>,
              r\<lparr>headers := headers r @ [header_of nv]\<rparr>) rest"
proof -
  obtain c n where n: "fst nv = c # n" and tc: "token_char c" "\<forall>x \<in> set n. token_char x"
    using ok by (cases "fst nv") (auto simp: header_ok_def name_ok_def)
  have v: "\<forall>x \<in> set (snd nv). \<not> isControl (char_int x)"
    using ok by (simp add: header_ok_def value_ok_def)
  let ?p1 = "p\<lparr>pstate := HeaderName\<rparr>" and ?p2 = "p\<lparr>pstate := HeaderValue\<rparr>"
  let ?r1 = "r\<lparr>headers := headers r @ [\<lparr>h_name = [c], h_value = []\<rparr>]\<rparr>"
  let ?r2 = "r\<lparr>headers := headers r @ [\<lparr>h_name = fst nv, h_value = []\<rparr>]\<rparr>"
  let ?r3 = "r\<lparr>headers := headers r @ [header_of nv]\<rparr>"
  have "consume (p, r) (render_header nv @ rest) =
      consume (?p1, ?r1) (n @ '': '' @ snd nv @ [CR, LF] @ rest)"
    using p token_char_facts [OF tc(1)]
    by (simp add: render_header_def n status_line_step_def header_step_def goto_def)
  also have "\<dots> = consume (?p1, ?r2) ('': '' @ snd nv @ [CR, LF] @ rest)"
    using consume_name [of ?p1 n ?r1 "headers r"] tc(2) by (simp add: n del: consume.simps)
  also have "\<dots> = consume (?p2, ?r2) (snd nv @ [CR, LF] @ rest)"
    by (simp add: status_line_step_def header_step_def goto_def)
  also have "\<dots> = consume (?p2, ?r3) ([CR, LF] @ rest)"
    using consume_value [of ?p2 "snd nv" ?r2 "headers r"] v
    by (simp add: header_of_def del: consume.simps)
  also have "\<dots> = consume ((apply_header ?p2 nv)\<lparr>pstate := ExpectingNewline_2\<rparr>, ?r3) ([LF] @ rest)"
    using ok step_value_done [of ?p2 ?r3 "headers r" nv] by (simp add: header_ok_def del: step.simps)
  also have "\<dots> = consume ((apply_header p nv)\<lparr>pstate := HeaderLineStart\<rparr>, ?r3) rest"
    by (simp add: status_line_step_def header_step_def goto_def apply_header_def)
  finally show ?thesis .
qed

lemma pstate_apply_header [simp]: "pstate (apply_header p nv) = pstate p"
  by (simp add: apply_header_def)

lemma apply_header_pstate [simp]:
  "apply_header (p\<lparr>pstate := q\<rparr>) nv = (apply_header p nv)\<lparr>pstate := q\<rparr>"
  by (simp add: apply_header_def)

lemma consume_headers:
  "pstate p = HeaderLineStart \<Longrightarrow> list_all header_ok hs \<Longrightarrow>
   consume (p, r) (concat (map render_header hs) @ rest) =
     consume ((foldl apply_header p hs)\<lparr>pstate := HeaderLineStart\<rparr>,
              r\<lparr>headers := headers r @ map header_of hs\<rparr>) rest"
proof (induction hs arbitrary: p r)
  case Nil
  then show ?case by (cases p) simp
next
  case (Cons nv hs)
  let ?q = "(apply_header p nv)\<lparr>pstate := HeaderLineStart\<rparr>"
  have q: "?q = apply_header p nv" using Cons.prems(1) by (cases "apply_header p nv") (metis
        pstate_apply_header parser.update_convs(1) parser.select_convs(1))
  show ?case
    using Cons.prems Cons.IH [of ?q "r\<lparr>headers := headers r @ [header_of nv]\<rparr>"]
      consume_header [OF Cons.prems(1), of nv r "concat (map render_header hs) @ rest"]
    by (simp add: q)
qed

lemma code_range_word:
  "n < 2 ^ 32 \<Longrightarrow> 100 \<le> n \<Longrightarrow> n \<le> 999 \<Longrightarrow> \<not> (of_nat n :: 32 word) < 100 \<and> \<not> (of_nat n :: 32 word) > 999"
  by (simp add: word_less_nat_alt unat_of_nat take_bit_nat_eq_self unsigned_of_nat)

lemma consume_http_version:
  "consume (init_parser, empty_response)
     (''HTTP/'' @ show_nat maj @ ''.'' @ show_nat mnr @ '' '' @ rest) =
   consume (init_parser\<lparr>pstate := ResponseHttpVersion_statusCodeStart\<rparr>,
     empty_response\<lparr>versionMajor := of_nat maj, versionMinor := of_nat mnr\<rparr>) rest"
  by (simp add: status_line_step_def goto_def init_parser_def empty_response_def
      consume_major_number consume_minor_number)

lemma consume_status_line:
  assumes "pstate p = ResponseHttpVersion_statusCodeStart" "status r = []" "reason_ok t"
    and n: "\<not> (of_nat n :: 32 word) < 100" "\<not> (of_nat n :: 32 word) > 999"
  shows "consume (p, r) (show_nat n @ '' '' @ t @ [CR, LF] @ rest) =
         consume (p\<lparr>pstate := HeaderLineStart\<rparr>, r\<lparr>statusCode := of_nat n, status := t\<rparr>) rest"
proof -
  obtain c u where t: "t = c # u" using assms(3) by (cases t) (auto simp: reason_ok_def)
  then have c: "isChar (char_int c)" "\<forall>x \<in> set u. x \<noteq> CR \<and> isChar (char_int x)"
    using assms(3) by (auto simp: reason_ok_def)
  have sp: "\<not> isDigit (char_int SPC)" by (simp add: isDigit_def char_int_def)
  have "consume (p, r) (show_nat n @ '' '' @ t @ [CR, LF] @ rest) =
        consume (p\<lparr>pstate := ResponseHttpVersion_statusText\<rparr>,
          r\<lparr>statusCode := of_nat n, status := [c]\<rparr>) (u @ [CR, LF] @ rest)"
    using assms(1,2) n c(1)
    by (simp add: consume_code_number status_line_step_def goto_def t sp)
  also have "\<dots> = consume (p\<lparr>pstate := ResponseHttpVersion_statusText\<rparr>,
          r\<lparr>statusCode := of_nat n, status := t\<rparr>) ([CR, LF] @ rest)"
    using consume_status_text [OF _ c(2)] by (simp add: t del: consume.simps)
  also have "\<dots> = consume (p\<lparr>pstate := HeaderLineStart\<rparr>,
          r\<lparr>statusCode := of_nat n, status := t\<rparr>) rest"
    by (simp add: status_line_step_def goto_def)
  finally show ?thesis .
qed

lemma foldl_apply_header_pstate [simp]: "pstate (foldl apply_header p hs) = pstate p"
  by (induction hs arbitrary: p) simp_all

lemma foldl_apply_header_upd:
  "foldl apply_header (p\<lparr>pstate := q\<rparr>) hs = (foldl apply_header p hs)\<lparr>pstate := q\<rparr>"
  by (induction hs arbitrary: p) simp_all

definition code_ok :: "nat \<Rightarrow> bool" where
  "code_ok n \<longleftrightarrow> 100 \<le> n mod 2 ^ 32 \<and> n mod 2 ^ 32 \<le> 999"

lemma code_ok_word: "code_ok n \<longleftrightarrow> \<not> (of_nat n :: 32 word) < 100 \<and> \<not> (of_nat n :: 32 word) > 999"
  by (simp add: code_ok_def word_less_nat_alt unsigned_of_nat take_bit_eq_mod not_less)

lemma render_head_eq:
  "render_head m @ rest =
     ''HTTP/'' @ show_nat (m_major m) @ ''.'' @ show_nat (m_minor m) @ '' ''
     @ show_nat (m_code m) @ '' '' @ m_reason m @ [CR, LF]
     @ concat (map render_header (m_headers m)) @ [CR] @ LF # rest"
  by (simp add: render_head_def)

lemma consume_head:
  assumes "head_ok m" "code_ok (m_code m)"
  shows "consume (init_parser, empty_response) (render_head m @ rest) =
         consume ((headers_parser m)\<lparr>pstate := ExpectingNewline_3\<rparr>, parsed_head m) (LF # rest)"
proof -
  let ?p0 = "init_parser\<lparr>pstate := ResponseHttpVersion_statusCodeStart\<rparr>"
  let ?r0 = "empty_response\<lparr>versionMajor := of_nat (m_major m), versionMinor := of_nat (m_minor m)\<rparr>"
  let ?p1 = "init_parser\<lparr>pstate := HeaderLineStart\<rparr>"
  let ?r1 = "?r0\<lparr>statusCode := of_nat (m_code m), status := m_reason m\<rparr>"
  let ?hs = "concat (map render_header (m_headers m)) @ [CR] @ LF # rest"
  have ok: "reason_ok (m_reason m)" "list_all header_ok (m_headers m)"
    using assms(1) by (simp_all add: head_ok_def)
  have "consume (init_parser, empty_response) (render_head m @ rest) =
        consume (?p0, ?r0) (show_nat (m_code m) @ '' '' @ m_reason m @ [CR, LF] @ ?hs)"
    unfolding render_head_eq by (rule consume_http_version)
  also have "\<dots> = consume (?p1, ?r1) ?hs"
    using assms(2) ok(1) consume_status_line [of ?p0 ?r0 "m_reason m" "m_code m" ?hs]
    by (simp add: code_ok_word empty_response_def del: consume.simps)
  also have "\<dots> = consume ((headers_parser m)\<lparr>pstate := HeaderLineStart\<rparr>, parsed_head m) ([CR] @ LF # rest)"
    using consume_headers [of ?p1 "m_headers m" ?r1 "[CR] @ LF # rest"] ok(2)
    by (simp add: headers_parser_def parsed_head_def empty_response_def foldl_apply_header_upd
        del: consume.simps)
  also have "\<dots> = consume ((headers_parser m)\<lparr>pstate := ExpectingNewline_3\<rparr>, parsed_head m) (LF # rest)"
    by (simp add: status_line_step_def header_step_def goto_def)
  finally show ?thesis .
qed

text \<open>A body of known length.\<close>

lemma of_nat_64_eq_0: "n < 2 ^ 64 \<Longrightarrow> (of_nat n :: 64 word) = 0 \<longleftrightarrow> n = 0"
  unfolding unsigned_eq_0_iff [symmetric, where ?'a = nat]
  by (simp add: unsigned_of_nat take_bit_nat_eq_self)

lemma consume_post:
  "pstate p = Post \<Longrightarrow> contentSize p = of_nat (length b) \<Longrightarrow> b \<noteq> [] \<Longrightarrow> length b < 2 ^ 63 \<Longrightarrow>
   consume (p, r) (b @ rest) =
     (Some ParsingCompleted, (p\<lparr>contentSize := 0\<rparr>, r\<lparr>content := content r @ b\<rparr>))"
proof (induction b arbitrary: p r)
  case (Cons c b)
  have sz: "contentSize p - 1 = of_nat (length b)" using Cons.prems(2) by simp
  have z: "(of_nat (length b) :: 64 word) = 0 \<longleftrightarrow> b = []"
    using Cons.prems(4) of_nat_64_eq_0 [of "length b"] by simp
  show ?case
  proof (cases "b = []")
    case True
    with Cons.prems sz show ?thesis
      by (simp add: status_line_step_def header_step_def body_step_def stop_def Let_def)
  next
    case False
    then have "step (p, r) c =
        (None, (p\<lparr>contentSize := of_nat (length b)\<rparr>, r\<lparr>content := content r @ [c]\<rparr>))"
      by (simp add: status_line_step_def header_step_def body_step_def Let_def
          Cons.prems(1) sz z)
    then have "consume (p, r) ((c # b) @ rest) =
        consume (p\<lparr>contentSize := of_nat (length b)\<rparr>, r\<lparr>content := content r @ [c]\<rparr>) (b @ rest)"
      by (simp del: step.simps)
    then show ?thesis
      using Cons.IH [of "p\<lparr>contentSize := of_nat (length b)\<rparr>" "r\<lparr>content := content r @ [c]\<rparr>"]
        Cons.prems False by simp
  qed
qed simp

lemma consume_length_body:
  assumes "head_ok m" "code_ok (m_code m)" "\<not> chunked (headers_parser m)"
    "contentSize (headers_parser m) = of_nat (length body)" "length body < 2 ^ 63"
  shows "\<exists>q. consume (init_parser, empty_response) (render_head m @ body @ rest) =
     (Some ParsingCompleted, (q, (decide_keep_alive (parsed_head m))\<lparr>content := body\<rparr>))"
proof -
  let ?p = "(headers_parser m)\<lparr>pstate := ExpectingNewline_3\<rparr>"
  let ?r = "decide_keep_alive (parsed_head m)"
  have c0: "content ?r = []" by (simp add: parsed_head_def)
  have r: "?r\<lparr>content := []\<rparr> = ?r" using c0 by (cases ?r) simp
  have h: "consume (init_parser, empty_response) (render_head m @ body @ rest) =
      consume (?p, parsed_head m) (LF # body @ rest)"
    by (rule consume_head [OF assms(1,2)])
  show ?thesis
  proof (cases "body = []")
    case True
    then show ?thesis using assms(3,4) h
      by (simp add: status_line_step_def header_step_def headers_done_def stop_def r)
  next
    case False
    then have "(of_nat (length body) :: 64 word) \<noteq> 0"
      using assms(5) of_nat_64_eq_0 [of "length body"] by simp
    then have "consume (?p, parsed_head m) (LF # body @ rest) =
        consume ((headers_parser m)\<lparr>pstate := Post\<rparr>, ?r) (body @ rest)"
      using assms(3,4)
      by (simp add: status_line_step_def header_step_def headers_done_def goto_def)
    moreover have "consume ((headers_parser m)\<lparr>pstate := Post\<rparr>, ?r) (body @ rest) =
        (Some ParsingCompleted, ((headers_parser m)\<lparr>pstate := Post\<rparr>\<lparr>contentSize := 0\<rparr>,
          ?r\<lparr>content := content ?r @ body\<rparr>))"
      by (rule consume_post) (use False assms(4,5) in simp_all)
    ultimately show ?thesis using h c0 by (metis append_Nil)
  qed
qed

text \<open>A chunked body: a list of chunks, each with the text of its size.\<close>

definition chunk_ok :: "string \<times> string \<Rightarrow> bool" where
  "chunk_ok ch \<longleftrightarrow> list_all isalnum (fst ch) \<and> snd ch \<noteq> [] \<and>
     strtol 16 (fst ch) = int (length (snd ch))"

definition render_chunk :: "string \<times> string \<Rightarrow> string" where
  "render_chunk ch = fst ch @ [CR, LF] @ snd ch @ [CR, LF]"

lemma consume_chunk_size:
  "pstate p = ChunkSize \<Longrightarrow> list_all isalnum sz \<Longrightarrow>
   consume (p, r) (sz @ rest) = consume (p\<lparr>chunkSizeStr := chunkSizeStr p @ sz\<rparr>, r) rest"
  by (induction sz arbitrary: p) (simp_all add: status_line_step_def header_step_def body_step_def)

lemma consume_chunk_data:
  "pstate p = ChunkData \<Longrightarrow> chunkSize p = of_nat (length d) \<Longrightarrow> d \<noteq> [] \<Longrightarrow> length d < 2 ^ 63 \<Longrightarrow>
   consume (p, r) (d @ rest) =
     consume (p\<lparr>chunkSize := 0, pstate := ChunkDataNewLine_1\<rparr>, r\<lparr>content := content r @ d\<rparr>) rest"
proof (induction d arbitrary: p r)
  case (Cons c d)
  have sz: "chunkSize p - 1 = of_nat (length d)" using Cons.prems(2) by simp
  have z: "(of_nat (length d) :: 64 word) = 0 \<longleftrightarrow> d = []"
    using Cons.prems(4) of_nat_64_eq_0 [of "length d"] by simp
  show ?case
  proof (cases "d = []")
    case True
    with Cons.prems sz show ?thesis
      by (simp add: status_line_step_def header_step_def body_step_def goto_def Let_def)
  next
    case False
    then have "step (p, r) c =
        (None, (p\<lparr>chunkSize := of_nat (length d)\<rparr>, r\<lparr>content := content r @ [c]\<rparr>))"
      by (simp add: status_line_step_def header_step_def body_step_def Let_def
          Cons.prems(1) sz z)
    then have "consume (p, r) ((c # d) @ rest) =
        consume (p\<lparr>chunkSize := of_nat (length d)\<rparr>, r\<lparr>content := content r @ [c]\<rparr>) (d @ rest)"
      by (simp del: step.simps)
    then show ?thesis
      using Cons.IH [of "p\<lparr>chunkSize := of_nat (length d)\<rparr>" "r\<lparr>content := content r @ [c]\<rparr>"]
        Cons.prems False by simp
  qed
qed simp

lemma room_for:
  "n < 2 ^ 63 \<Longrightarrow> \<not> (of_nat n :: 64 word) > max_size"
  by (simp add: max_size_def word_less_nat_alt unsigned_of_nat take_bit_nat_eq_self)

lemma consume_chunk:
  assumes p: "pstate p = ChunkSize" "chunkSizeStr p = []" and ok: "chunk_ok ch"
    and room: "length (content r) + length (snd ch) < 2 ^ 63"
  shows "consume (p, r) (render_chunk ch @ rest) =
     consume (p\<lparr>chunkSize := 0\<rparr>, r\<lparr>content := content r @ snd ch\<rparr>) rest"
proof -
  obtain sz d where ch: "ch = (sz, d)" by (cases ch)
  have sz: "list_all isalnum sz" "d \<noteq> []" "strtol 16 sz = int (length d)"
    using ok by (simp_all add: chunk_ok_def ch)
  have len: "length d < 2 ^ 63" using room by (simp add: ch)
  have nz: "(of_nat (length d) :: 64 word) \<noteq> 0"
    using sz(2) len of_nat_64_eq_0 [of "length d"] by simp
  have rm: "\<not> (of_nat (length (content r)) + of_nat (length d) :: 64 word) > max_size"
    using room_for [OF room] by (simp add: ch)
  let ?p1 = "p\<lparr>chunkSizeStr := sz\<rparr>"
  let ?p2 = "p\<lparr>chunkSize := of_nat (length d), chunkSizeStr := [], pstate := ChunkData\<rparr>"
  let ?p3 = "?p2\<lparr>chunkSize := 0, pstate := ChunkSize\<rparr>"
  let ?r2 = "r\<lparr>content := content r @ d\<rparr>"
  have "consume (p, r) (render_chunk ch @ rest) = consume (?p1, r) ([CR, LF] @ d @ [CR, LF] @ rest)"
    using consume_chunk_size [OF p(1) sz(1), of r] p(2) by (simp add: render_chunk_def ch)
  also have "\<dots> = consume (?p2, r) (d @ [CR, LF] @ rest)"
    using p nz rm sz(3)
    by (simp add: status_line_step_def header_step_def body_step_def goto_def Let_def char_class)
  also have "\<dots> = consume (?p2\<lparr>chunkSize := 0, pstate := ChunkDataNewLine_1\<rparr>, ?r2) ([CR, LF] @ rest)"
    by (rule consume_chunk_data) (use sz(2) len in simp_all)
  also have "\<dots> = consume (?p3, ?r2) rest"
    by (simp add: status_line_step_def header_step_def body_step_def goto_def)
  also have "?p3 = p\<lparr>chunkSize := 0\<rparr>"
    using p by (cases p) simp
  finally show ?thesis by (simp add: ch)
qed

lemma consume_chunks:
  "pstate p = ChunkSize \<Longrightarrow> chunkSizeStr p = [] \<Longrightarrow> list_all chunk_ok chs \<Longrightarrow>
   length (content r) + length (concat (map snd chs)) < 2 ^ 63 \<Longrightarrow>
   \<exists>q. pstate q = ChunkSize \<and> chunkSizeStr q = [] \<and>
     consume (p, r) (concat (map render_chunk chs) @ rest) =
     consume (q, r\<lparr>content := content r @ concat (map snd chs)\<rparr>) rest"
proof (induction chs arbitrary: p r)
  case Nil
  have "r\<lparr>content := content r\<rparr> = r" by (cases r) simp
  with Nil show ?case by auto
next
  case (Cons ch chs)
  let ?q = "p\<lparr>chunkSize := 0\<rparr>" and ?r = "r\<lparr>content := content r @ snd ch\<rparr>"
  have "consume (p, r) (concat (map render_chunk (ch # chs)) @ rest) =
        consume (?q, ?r) (concat (map render_chunk chs) @ rest)"
    using Cons.prems consume_chunk [of p ch r "concat (map render_chunk chs) @ rest"] by simp
  with Cons.IH [of ?q ?r] Cons.prems show ?case by simp
qed

lemma foldl_apply_header_chunkSizeStr: "chunkSizeStr (foldl apply_header p hs) = chunkSizeStr p"
  by (induction hs arbitrary: p) (simp_all add: apply_header_def)

lemma headers_parser_chunkSizeStr: "chunkSizeStr (headers_parser m) = []"
  by (simp add: headers_parser_def foldl_apply_header_chunkSizeStr init_parser_def)

lemma strtol_16_zero: "strtol 16 ''0'' = 0"
  by code_simp

lemma consume_last_chunk:
  "pstate q = ChunkSize \<Longrightarrow> chunkSizeStr q = [] \<Longrightarrow> length (content r) < 2 ^ 63 \<Longrightarrow>
   \<exists>q'. consume (q, r) (''0'' @ [CR, LF, CR, LF] @ rest) = (Some ParsingCompleted, (q', r))"
  using room_for [of "length (content r)"]
  by (simp add: status_line_step_def header_step_def body_step_def goto_def stop_def Let_def
      char_class strtol_16_zero)

lemma step_not_undefined:
  "http_inv (p, r) \<Longrightarrow> fst (step (p, r) c) \<noteq> Some Parsing_undefined"
  by (cases "pstate p") (simp_all add: http_defs needs_header_def)

lemma step_completed:
  "http_inv (p, r) \<Longrightarrow> step (p, r) c = (Some ParsingCompleted, (p', r')) \<Longrightarrow> status_ok r'"
  by (cases "pstate p")
    (auto simp: http_defs before_status_def status_ok_def split: if_splits)

section \<open>Properties\<close>

text \<open>
  C17. A well-formed response with a body of the announced length is accepted whatever follows
  it, and the response object holds its version, status, headers and body exactly.
\<close>

theorem http_length_body_parsed:
  assumes "head_ok m" and "code_ok (m_code m)" and "\<not> chunked (headers_parser m)"
    and "contentSize (headers_parser m) = of_nat (length body)" and "length body < 2 ^ 63"
  shows "\<exists>q. parse init_parser empty_response (render_head m @ body @ rest) =
     (ParsingCompleted, (q, (decide_keep_alive (parsed_head m))\<lparr>content := body\<rparr>))"
  using consume_length_body [OF assms, of rest] by (auto simp: parse_def)

definition sample_head :: "string \<Rightarrow> string \<Rightarrow> http_head" where
  "sample_head n v = \<lparr>m_major = 1, m_minor = 1, m_code = 200, m_reason = ''OK'',
     m_headers = [(n, v)]\<rparr>"

lemma sample_length_facts:
  "head_ok (sample_head ''Content-Length'' ''3'')"
  "code_ok (m_code (sample_head n v))"
  "\<not> chunked (headers_parser (sample_head ''Content-Length'' ''3''))"
  "contentSize (headers_parser (sample_head ''Content-Length'' ''3'')) = 3"
     apply code_simp
    apply (simp add: sample_head_def code_ok_def)
   apply code_simp
  apply code_simp
  done

theorem http_length_body_parsed_witness:
  "\<exists>q. parse init_parser empty_response
        (render_head (sample_head ''Content-Length'' ''3'') @ ''abc'' @ ''junk'') =
     (ParsingCompleted,
       (q, (decide_keep_alive (parsed_head (sample_head ''Content-Length'' ''3'')))\<lparr>content := ''abc''\<rparr>))"
  by (rule http_length_body_parsed) (simp_all add: sample_length_facts)

text \<open>
  C16. A well-formed response with \<open>Transfer-Encoding: chunked\<close> is accepted and its content is
  the concatenation of the chunks.
\<close>

theorem http_chunked_body_parsed:
  assumes "head_ok m" and "code_ok (m_code m)" and "chunked (headers_parser m)"
    and "list_all chunk_ok chs" and "length (concat (map snd chs)) < 2 ^ 63"
  shows "\<exists>q. parse init_parser empty_response
       (render_head m @ concat (map render_chunk chs) @ ''0'' @ [CR, LF, CR, LF] @ rest) =
     (ParsingCompleted,
       (q, (decide_keep_alive (parsed_head m))\<lparr>content := concat (map snd chs)\<rparr>))"
proof -
  let ?tl = "''0'' @ [CR, LF, CR, LF] @ rest"
  let ?r = "decide_keep_alive (parsed_head m)"
  let ?p = "(headers_parser m)\<lparr>pstate := ChunkSize\<rparr>"
  have c0: "content ?r = []" by (simp add: parsed_head_def)
  have str: "chunkSizeStr (headers_parser m) = []" by (rule headers_parser_chunkSizeStr)
  have h: "consume (init_parser, empty_response) (render_head m @ concat (map render_chunk chs) @ ?tl) =
      consume (?p, ?r) (concat (map render_chunk chs) @ ?tl)"
    using consume_head [OF assms(1,2)] assms(3)
    by (simp add: status_line_step_def header_step_def headers_done_def goto_def)
  obtain q where q: "pstate q = ChunkSize" "chunkSizeStr q = []"
    "consume (?p, ?r) (concat (map render_chunk chs) @ ?tl) =
     consume (q, ?r\<lparr>content := concat (map snd chs)\<rparr>) ?tl"
    using consume_chunks [of ?p chs ?r ?tl] assms(4,5) str c0 by auto
  obtain q' where "consume (q, ?r\<lparr>content := concat (map snd chs)\<rparr>) ?tl =
      (Some ParsingCompleted, (q', ?r\<lparr>content := concat (map snd chs)\<rparr>))"
    using consume_last_chunk [OF q(1,2), of "?r\<lparr>content := concat (map snd chs)\<rparr>" rest] assms(5)
    by auto
  with h q(3) show ?thesis by (simp add: parse_def)
qed

lemma sample_chunked_facts:
  "head_ok (sample_head ''transfer-encoding'' ''Chunked'')"
  "chunked (headers_parser (sample_head ''transfer-encoding'' ''Chunked''))"
  "list_all chunk_ok [(''3'', ''abc''), (''0A'', ''0123456789'')]"
  by code_simp+

theorem http_chunked_body_parsed_witness:
  "\<exists>q. parse init_parser empty_response
       (render_head (sample_head ''transfer-encoding'' ''Chunked'') @
        concat (map render_chunk [(''3'', ''abc''), (''0A'', ''0123456789'')]) @
        ''0'' @ [CR, LF, CR, LF] @ []) =
     (ParsingCompleted,
       (q, (decide_keep_alive (parsed_head (sample_head ''transfer-encoding'' ''Chunked'')))
             \<lparr>content := concat (map snd [(''3'', ''abc''), (''0A'', ''0123456789'')])\<rparr>))"
  by (rule http_chunked_body_parsed [OF sample_chunked_facts(1) sample_length_facts(2)
        sample_chunked_facts(2,3)]) simp

text \<open>
  C18. On any input whatever, the parser never writes to the last header of an empty list, and
  when it reports a complete response the status code is a three-digit number.
\<close>

theorem http_parse_safe:
  "fst (parse init_parser empty_response s) \<noteq> Parsing_undefined \<and>
   (fst (parse init_parser empty_response s) = ParsingCompleted \<longrightarrow>
      status_ok (snd (snd (parse init_parser empty_response s))))"
proof -
  obtain res s' where Pair: "consume (init_parser, empty_response) s = (res, s')"
    by (rule prod.exhaust)
  show ?thesis
  proof (cases res)
    case None
    with Pair show ?thesis by (simp add: parse_def)
  next
    case (Some r)
    with Pair have "consume (init_parser, empty_response) s = (Some r, s')" by simp
    with init_inv obtain t c where t: "http_inv t" "step t c = (Some r, s')"
      by (rule http.run_Some_inv)
    then have "r \<noteq> Parsing_undefined \<and> (r = ParsingCompleted \<longrightarrow> status_ok (snd s'))"
      using step_not_undefined [of "fst t" "snd t" c] step_completed [of "fst t" "snd t" c "fst s'" "snd s'"]
      by auto
    with Pair Some show ?thesis by (simp add: parse_def)
  qed
qed

theorem http_parse_safe_witness:
  "fst (parse init_parser empty_response ''HTTP/1.1 7 x'') \<noteq> Parsing_undefined"
  using http_parse_safe [of "''HTTP/1.1 7 x''"] by blast

text \<open>
  The status code is accumulated in 32 bits before its range is checked: a number beyond
  \<open>2 ^ 32\<close> that is 200 modulo \<open>2 ^ 32\<close> is accepted as status 200.
\<close>

theorem http_status_code_wraps:
  "(case parse init_parser empty_response (''HTTP/1.1 4294967496 OK'' @ [CR, LF, CR, LF]) of
      (res, (q, r)) \<Rightarrow> res = ParsingCompleted \<and> statusCode r = 200)"
  by code_simp

end
