(* ===== verification/Msgio.thy ===== *)
theory Msgio
  imports Hexutil
begin

text \<open>
  The model of \<open>service-provider/msgio.cpp\<close>: messages as lines of hex text, over a socket or
  over standard input and output.

  The object is the record \<open>msgio\<close>; what the operating system and the peer do is the record
  \<open>world\<close>: the results of the coming \<open>recv\<close>, \<open>send\<close> and \<open>malloc\<close> calls, what was put on the wire
  and on the standard streams, and the descriptors closed so far. An exhausted list of
  \<open>recv\<close> results is a peer that stays silent (the call blocks), an exhausted list of \<open>send\<close>
  results a socket that takes everything, an exhausted list of \<open>malloc\<close> results memory enough.
  Messages printed for the user (\<open>eprintf\<close>, \<open>perror\<close>, the \<open>debug\<close> dumps) are left out, but not
  the copy of each sent message on the standard output, which is part of the protocol when
  the standard streams are used.
\<close>

section \<open>State\<close>

datatype recv_event = Rcv_data string | Rcv_eintr | Rcv_err

datatype send_event = Snt nat | Snd_eintr | Snd_err

record world =
  recvs :: "recv_event list"
  sends :: "send_event list"
  mallocs :: "bool list"
  wire :: string
  out :: string
  errout :: string
  stdin :: string
  stdin_err :: bool
  tty :: bool
  closed :: "int list"
  line_buf :: bool        \<comment> \<open>\<open>buffer != NULL\<close>\<close>
  buffer_size :: nat

record msgio =
  wbuffer :: string
  rbuffer :: string
  use_stdio :: bool
  lsock :: int
  sock :: int

definition MSGIO_BUFFER_SZ :: nat where
  "MSGIO_BUFFER_SZ = 1024 * 1024"

definition DEFAULT_PORT :: string where "DEFAULT_PORT = ''7777''"

definition malloc :: "world \<Rightarrow> bool \<times> world" where
  "malloc w = (case mallocs w of [] \<Rightarrow> (True, w) | b # bs \<Rightarrow> (b, w\<lparr>mallocs := bs\<rparr>))"

definition close_fd :: "int \<Rightarrow> world \<Rightarrow> world" where
  "close_fd fd w = w\<lparr>closed := closed w @ [fd]\<rparr>"

section \<open>Opening and closing\<close>

definition msgio_stdio :: msgio where
  "msgio_stdio = \<lparr>wbuffer = [], rbuffer = [], use_stdio = True, lsock = -1, sock = -1\<rparr>"

text \<open>
  An address that \<open>getaddrinfo\<close> returned: what \<open>socket\<close> gives for it (\<open>-1\<close> is failure), and
  whether \<open>bind\<close> (for the server) or \<open>connect\<close> (for the client) succeeds.
\<close>

record address =
  socket_fd :: int
  establishes :: bool

fun open_loop :: "address list \<Rightarrow> int \<Rightarrow> world \<Rightarrow> int \<times> world" where
  "open_loop [] s w = (s, w)"
| "open_loop (a # addrs) s w =
     (if socket_fd a = -1 then open_loop addrs (-1) w
      else if establishes a then (socket_fd a, w)
      else open_loop addrs (-1) (close_fd (socket_fd a) w))"

datatype open_error = Getaddrinfo_failed | No_socket | No_listen

definition msgio_open ::
    "bool \<Rightarrow> address list option \<Rightarrow> bool \<Rightarrow> world \<Rightarrow> (open_error + msgio) \<times> world" where
  "msgio_open server addrs listens w =
     (case addrs of None \<Rightarrow> (Inl Getaddrinfo_failed, w)
      | Some as \<Rightarrow>
          (let (s, w') = open_loop as (-1) w;
               io = \<lparr>wbuffer = [], rbuffer = [], use_stdio = False, lsock = -1, sock = s\<rparr>
           in if s = -1 then (Inl No_socket, w')
              else if server then
                (if listens then (Inr (io\<lparr>lsock := s, sock := -1\<rparr>), w')
                 else (Inl No_listen, close_fd s w'))
              else (Inr io, w')))"

definition msgio_destroy :: "msgio \<Rightarrow> world \<Rightarrow> world" where
  "msgio_destroy io w =
     (let w' = if sock io \<noteq> -1 then close_fd (sock io) w else w
      in if lsock io \<noteq> -1 then close_fd (lsock io) w' else w')"

text \<open>\<open>accept\<close> gives the descriptor of the new session, or \<open>-1\<close>.\<close>

definition server_loop :: "int \<Rightarrow> msgio \<Rightarrow> world \<Rightarrow> bool \<times> msgio \<times> world" where
  "server_loop accepted io w =
     (if use_stdio io then (True, io, w)
      else if accepted = -1 then (False, io\<lparr>sock := -1\<rparr>, close_fd (lsock io) w)
      else (True, io\<lparr>sock := accepted\<rparr>, w))"

definition disconnect :: "msgio \<Rightarrow> world \<Rightarrow> msgio \<times> world" where
  "disconnect io w =
     (if use_stdio io then (io, w)
      else if sock io \<noteq> -1 then (io, close_fd (sock io) w) else (io, w))"

section \<open>Sending\<close>

text \<open>
  \<open>hexstring\<close> is used through its text (the refinement theorem of the hex codec).
\<close>

definition fsend_msg_partial :: "bytes \<Rightarrow> string" where
  "fsend_msg_partial src = (if length src \<noteq> 0 then print_hexstring src else [])"

definition fsend_msg :: "bytes \<Rightarrow> string" where
  "fsend_msg src = (if length src \<noteq> 0 then print_hexstring src else []) @ [LF]"

definition send_msg_partial :: "bytes \<Rightarrow> world \<Rightarrow> world" where
  "send_msg_partial src w =
     (let w' = w\<lparr>out := out w @ (if length src \<noteq> 0 then print_hexstring src else [])\<rparr>
      in if \<not> tty w then w'\<lparr>errout := errout w' @ print_hexstring src\<rparr> else w')"

definition send_msg :: "bytes \<Rightarrow> world \<Rightarrow> world" where
  "send_msg src w =
     (let w' = w\<lparr>out := out w @ (if length src \<noteq> 0 then print_hexstring src else []) @ [LF]\<rparr>
      in if \<not> tty w then w'\<lparr>errout := errout w' @ print_hexstring src @ [LF]\<rparr> else w')"

definition put_wire :: "string \<Rightarrow> world \<Rightarrow> world" where
  "put_wire s w = w\<lparr>wire := wire w @ s, out := out w @ s\<rparr>"

fun send_loop :: "send_event list \<Rightarrow> string \<Rightarrow> world \<Rightarrow> string \<times> world" where
  "send_loop evs [] w = ([], w\<lparr>sends := evs\<rparr>)"
| "send_loop [] buf w = ([], put_wire buf (w\<lparr>sends := []\<rparr>))"
| "send_loop (Snd_eintr # evs) buf w = send_loop evs buf w"
| "send_loop (Snd_err # evs) buf w = (buf, w\<lparr>sends := evs\<rparr>)"
| "send_loop (Snt n # evs) buf w =
     (let w' = put_wire (take n buf) w
      in if n \<ge> length buf then ([], w'\<lparr>sends := evs\<rparr>)
         else send_loop evs (drop n buf) w')"

definition send :: "bytes \<Rightarrow> msgio \<Rightarrow> world \<Rightarrow> msgio \<times> world" where
  "send src io w =
     (if use_stdio io then (io, send_msg src w)
      else (let buf = wbuffer io @ print_hexstring src @ [LF];
                (rest, w') = send_loop (sends w) buf w
            in (io\<lparr>wbuffer := rest\<rparr>, w')))"

definition send_partial :: "bytes \<Rightarrow> msgio \<Rightarrow> world \<Rightarrow> msgio \<times> world" where
  "send_partial src io w =
     (if use_stdio io then (io, send_msg_partial src w)
      else (io\<lparr>wbuffer := wbuffer io @ print_hexstring src\<rparr>, w))"

section \<open>Receiving\<close>

text \<open>
  The outcome of a read: the return value, what was stored through \<open>dest\<close> and through \<open>sz\<close>
  (\<open>None\<close> when nothing was stored), or \<open>Blocked\<close> when it waits for the peer.
\<close>

datatype read_result = Blocked | Returned int "bytes option" "nat option"

definition find_line :: "string \<Rightarrow> (nat \<times> nat) option" where
  "find_line s = (case find_str [CR, LF] s of
       Some i \<Rightarrow> Some (i, 2)
     | None \<Rightarrow> (case find_str [LF] s of Some i \<Rightarrow> Some (i, 1) | None \<Rightarrow> None))"

text \<open>
  The new buffer of \<open>n\<close> bytes after \<open>from_hexstring\<close>, whose result is not looked at: the bytes
  after a failing digit keep the arbitrary content of fresh memory.
\<close>

definition decode_into :: "(nat \<Rightarrow> byte) \<Rightarrow> string \<Rightarrow> nat \<Rightarrow> bytes" where
  "decode_into junk src n =
     (let ds = snd (from_hexstring junk src n) in ds @ map junk [length ds..<n])"

definition take_line ::
    "(nat \<Rightarrow> byte) \<Rightarrow> nat \<Rightarrow> nat \<Rightarrow> msgio \<Rightarrow> world \<Rightarrow> read_result \<times> msgio \<times> world" where
  "take_line junk idx ws io w =
     (if idx = 0 then (Returned 1 None (Some 0), io, w)
      else if odd idx then (Returned 0 None (Some 0), io, w)
      else let (ok, w') = malloc w in
        if ok then
          (Returned 1 (Some (decode_into junk (rbuffer io) (idx div 2))) (Some idx),
           io\<lparr>rbuffer := drop (idx + ws) (rbuffer io)\<rparr>, w')
        else (Returned (-1) None (Some idx), io, w'))"

fun read_loop ::
    "(nat \<Rightarrow> byte) \<Rightarrow> recv_event list \<Rightarrow> msgio \<Rightarrow> world \<Rightarrow> read_result \<times> msgio \<times> world" where
  "read_loop junk [] io w = (Blocked, io, w\<lparr>recvs := []\<rparr>)"
| "read_loop junk (Rcv_eintr # evs) io w = read_loop junk evs io w"
| "read_loop junk (Rcv_err # evs) io w = (Returned (-1) None (Some 0), io, w\<lparr>recvs := evs\<rparr>)"
| "read_loop junk (Rcv_data d # evs) io w =
     (if d = [] then (Returned 0 None (Some 0), io, w\<lparr>recvs := evs\<rparr>)
      else let io' = io\<lparr>rbuffer := rbuffer io @ d\<rparr> in
        case find_line (rbuffer io') of
          None \<Rightarrow> read_loop junk evs io' w
        | Some (idx, ws) \<Rightarrow> take_line junk idx ws io' (w\<lparr>recvs := evs\<rparr>))"

text \<open>
  Reading from standard input. \<open>fgets_take n s\<close> is what \<open>fgets\<close> stores with room for \<open>n\<close>
  characters. The text in the static buffer is cut at a NUL by \<open>strlen\<close>.
\<close>

definition fgets_take :: "nat \<Rightarrow> string \<Rightarrow> string" where
  "fgets_take n s =
     (let t = takeWhile (\<lambda>c. c \<noteq> LF) s in take n (if length t < length s then t @ [LF] else t))"

lemma fgets_take_le: "length (fgets_take n s) \<le> length s"
  using length_takeWhile_le [of "\<lambda>c. c \<noteq> LF" s] by (auto simp: fgets_take_def Let_def)

function read_msg_loop :: "string \<Rightarrow> world \<Rightarrow> (int + string) \<times> world" where
  "read_msg_loop buf w =
     (let got = fgets_take (buffer_size w - length buf - 1) (stdin w) in
      if got = [] then (if stdin_err w then (Inl (-1), w) else (Inl 0, w))
      else let w1 = w\<lparr>stdin := drop (length got) (stdin w)\<rparr>; b = cstr (buf @ got) in
        if b = [] then (Inl 0, w1)
        else if last b = LF then (Inr b, w1)
        else let (ok, w2) = malloc (w1\<lparr>buffer_size := buffer_size w1 + MSGIO_BUFFER_SZ\<rparr>) in
          if ok then read_msg_loop b w2 else (Inl (-1), w2\<lparr>line_buf := False\<rparr>))"
  by pat_completeness auto
termination
proof (relation "measure (\<lambda>(buf, w). length (stdin w))", simp)
  fix buf :: string and w :: world and got w1 b ok w2 and p :: "bool \<times> world"
  assume g: "got = fgets_take (buffer_size w - length buf - 1) (stdin w)" "got \<noteq> []"
    and w1: "w1 = w\<lparr>stdin := drop (length got) (stdin w)\<rparr>"
    and p: "p = malloc (w1\<lparr>buffer_size := buffer_size w1 + MSGIO_BUFFER_SZ\<rparr>)" "(ok, w2) = p"
  have "length got \<le> length (stdin w)" using g(1) fgets_take_le by simp
  moreover have "stdin w2 = drop (length got) (stdin w)"
    using p by (auto simp: malloc_def w1 split: list.splits)
  ultimately show "((b, w2), (buf, w)) \<in> measure (\<lambda>(buf, w). length (stdin w))"
    using g(2) by (cases got) auto
qed

declare read_msg_loop.simps [simp del]

definition read_msg :: "(nat \<Rightarrow> byte) \<Rightarrow> world \<Rightarrow> read_result \<times> world" where
  "read_msg junk w =
     (let (ok, w0) = (if line_buf w then (True, w) else malloc w) in
      if \<not> ok then (Returned (-1) None None, w0)
      else case read_msg_loop [] (w0\<lparr>line_buf := True\<rparr>) of
        (Inl r, w1) \<Rightarrow> (Returned r None None, w1)
      | (Inr b, w1) \<Rightarrow>
          (let t = butlast b; bread = (if t \<noteq> [] \<and> last t = CR then length t - 1 else length t) in
           if odd bread then (Returned 0 None None, w1)
           else let (ok', w2) = malloc w1 in
             if ok' then (Returned 1 (Some (decode_into junk b (bread div 2))) (Some bread), w2)
             else (Returned (-1) None None, w2)))"

definition read :: "(nat \<Rightarrow> byte) \<Rightarrow> msgio \<Rightarrow> world \<Rightarrow> read_result \<times> msgio \<times> world" where
  "read junk io w =
     (if use_stdio io then (let (r, w') = read_msg junk w in (r, io, w'))
      else read_loop junk (recvs w) io w)"

section \<open>The line interface\<close>

text \<open>
  What the framing needs of a codec: the laws of \<open>text_codec\<close>, and that no text contains the
  characters that end a line.
\<close>

lemma find_str_CRLF_None: "CR \<notin> set s \<Longrightarrow> find_str [CR, LF] s = None"
  by (induction s) (auto simp: take_Suc_conv_app_nth split: if_splits)

lemma find_str_LF_None: "LF \<notin> set s \<Longrightarrow> find_str [LF] s = None"
  by (induction s) auto

lemma find_str_LF: "LF \<notin> set s \<Longrightarrow> find_str [LF] (s @ LF # t) = Some (length s)"
  by (induction s) auto

lemma find_str_CRLF: "CR \<notin> set s \<Longrightarrow> find_str [CR, LF] (s @ CR # LF # t) = Some (length s)"
  by (induction s) auto

locale line_codec = text_codec +
  assumes line_free: "\<not> text_char LF" "\<not> text_char CR"
begin

lemma no_newline: "LF \<notin> set (enc m)" "CR \<notin> set (enc m)"
  using enc_free_of line_free by blast+

lemma find_line_enc:
  "CR \<notin> set rest \<Longrightarrow> find_line (enc m @ LF # rest) = Some (2 * length m, 1)"
  using find_str_CRLF_None [of "enc m @ LF # rest"] no_newline [of m]
  by (simp add: find_line_def find_str_LF enc_length)

lemma find_line_enc_CRLF:
  "find_line (enc m @ CR # LF # rest) = Some (2 * length m, 2)"
  using no_newline [of m] by (simp add: find_line_def find_str_CRLF enc_length)

lemma find_line_prefix:
  assumes "p @ q = enc m @ [LF]" "q \<noteq> []"
  shows "find_line p = None"
proof -
  obtain q' x where "q = q' @ [x]" using assms(2) by (cases q rule: rev_exhaust) auto
  then have "p @ q' = enc m" using assms(1) by simp
  then have "set p \<subseteq> set (enc m)" by (metis Un_upper1 set_append)
  then have "LF \<notin> set p" "CR \<notin> set p" using no_newline [of m] by blast+
  then show ?thesis by (simp add: find_line_def find_str_CRLF_None find_str_LF_None)
qed

end

lemma hex_char_line_free: "\<not> hex_char LF" "\<not> hex_char CR"
  using hex_char_facts [of LF] hex_char_facts [of CR] by (auto simp: char_class)

interpretation hexl: line_codec print_hexstring "from_hexstring junk" hex_char for junk
  by unfold_locales (rule hex_char_line_free)+

section \<open>Lemmas\<close>

lemma put_wire_put_wire [simp]: "put_wire t (put_wire s w) = put_wire (s @ t) w"
  by (simp add: put_wire_def)

lemma put_wire_Nil [simp]: "put_wire [] w = w"
  by (simp add: put_wire_def)

lemma put_wire_sends: "put_wire s (w\<lparr>sends := e\<rparr>) = (put_wire s w)\<lparr>sends := e\<rparr>"
  by (simp add: put_wire_def)

lemma put_wire_wire [simp]: "wire (put_wire s w) = wire w @ s"
  by (simp add: put_wire_def)

text \<open>Whatever pieces the socket takes, the text goes out whole unless \<open>send\<close> fails.\<close>

lemma send_loop_all:
  "Snd_err \<notin> set evs \<Longrightarrow>
   \<exists>evs'. send_loop evs buf w = ([], (put_wire buf w)\<lparr>sends := evs'\<rparr>)"
proof (induction evs buf w rule: send_loop.induct)
  case (5 n evs c buf w)
  show ?case
  proof (cases "n \<ge> length (c # buf)")
    case True
    then show ?thesis by auto
  next
    case False
    with 5 obtain evs' where "send_loop evs (drop n (c # buf)) (put_wire (take n (c # buf)) w) =
        ([], (put_wire (drop n (c # buf)) (put_wire (take n (c # buf)) w))\<lparr>sends := evs'\<rparr>)"
      by auto
    with False show ?thesis by (auto simp del: drop_Suc_Cons take_Suc_Cons)
  qed
qed (auto simp: put_wire_sends intro: exI [of _ "[]"])

text \<open>A failed \<open>send\<close> keeps the unsent rest for the next message.\<close>

lemma send_loop_split:
  "send_loop evs buf w = (rest, w') \<Longrightarrow> \<exists>s. buf = s @ rest \<and> wire w' = wire w @ s"
proof (induction evs buf w arbitrary: rest w' rule: send_loop.induct)
  case (5 n evs c buf w)
  show ?case
  proof (cases "n \<ge> length (c # buf)")
    case True
    with 5 show ?thesis by auto
  next
    case False
    with 5 obtain s where "drop n (c # buf) = s @ rest"
        "wire w' = wire (put_wire (take n (c # buf)) w) @ s"
      by (auto simp del: drop_Suc_Cons take_Suc_Cons)
    then have "c # buf = (take n (c # buf) @ s) @ rest \<and> wire w' = wire w @ (take n (c # buf) @ s)"
      using append_take_drop_id [of n "c # buf"] by (metis append.assoc put_wire_wire)
    then show ?thesis by blast
  qed
qed auto

fun send_parts :: "bytes list \<Rightarrow> msgio \<Rightarrow> world \<Rightarrow> msgio \<times> world" where
  "send_parts [] io w = (io, w)"
| "send_parts (p # ps) io w = (let (io', w') = send_partial p io w in send_parts ps io' w')"

lemma send_parts_socket:
  "\<not> use_stdio io \<Longrightarrow>
   send_parts ps io w = (io\<lparr>wbuffer := wbuffer io @ print_hexstring (concat ps)\<rparr>, w)"
  by (induction ps arbitrary: io) (auto simp: send_partial_def print_hexstring_append)

text \<open>The data of a list of \<open>recv\<close> results.\<close>

fun received :: "recv_event list \<Rightarrow> string" where
  "received [] = []"
| "received (Rcv_data d # evs) = d @ received evs"
| "received (_ # evs) = received evs"

definition live :: "recv_event list \<Rightarrow> bool" where
  "live evs \<longleftrightarrow> Rcv_err \<notin> set evs \<and> Rcv_data [] \<notin> set evs"

lemma decode_into_enc: "decode_into junk (print_hexstring m @ rest) (length m) = m"
  by (simp add: decode_into_def hexc.dec_enc)

lemma malloc_True: "mallocs w = [] \<Longrightarrow> malloc w = (True, w)"
  by (simp add: malloc_def)

lemma take_line_enc:
  assumes "m \<noteq> []" "mallocs w = []" "rbuffer io = print_hexstring m @ LF # rest"
  shows "take_line junk (2 * length m) 1 io w =
     (Returned 1 (Some m) (Some (2 * length m)), io\<lparr>rbuffer := rest\<rparr>, w)"
  using assms
  by (simp add: take_line_def malloc_True decode_into_enc)

lemma read_loop_frame:
  "live evs \<Longrightarrow> m \<noteq> [] \<Longrightarrow> mallocs w = [] \<Longrightarrow> received evs \<noteq> [] \<Longrightarrow>
   rbuffer io @ received evs = print_hexstring m @ [LF] \<Longrightarrow>
   \<exists>evs'. received evs' = [] \<and> read_loop junk evs io w =
     (Returned 1 (Some m) (Some (2 * length m)), io\<lparr>rbuffer := []\<rparr>, w\<lparr>recvs := evs'\<rparr>)"
proof (induction junk evs io w rule: read_loop.induct)
  case (4 junk d evs io w)
  have d: "d \<noteq> []" using 4(2) by (auto simp: live_def)
  let ?io = "io\<lparr>rbuffer := rbuffer io @ d\<rparr>"
  have cat: "rbuffer ?io @ received evs = print_hexstring m @ [LF]" using 4(6) by simp
  show ?case
  proof (cases "received evs = []")
    case True
    with cat have buf: "rbuffer ?io = print_hexstring m @ LF # []" by simp
    then have "find_line (rbuffer ?io) = Some (2 * length m, 1)"
      by (simp only: hexl.find_line_enc [of "[]" m] list.set empty_iff not_False_eq_True)
    then have "read_loop junk (Rcv_data d # evs) io w =
        take_line junk (2 * length m) 1 ?io (w\<lparr>recvs := evs\<rparr>)"
      using d by simp
    with True show ?thesis
      using take_line_enc [of m "w\<lparr>recvs := evs\<rparr>" ?io "[]" junk] 4(3,4) buf by auto
  next
    case False
    with cat have none: "find_line (rbuffer ?io) = None" by (rule hexl.find_line_prefix)
    then have "read_loop junk (Rcv_data d # evs) io w = read_loop junk evs ?io w" using d by simp
    moreover have "live evs" using 4(2) by (simp add: live_def)
    ultimately show ?thesis
      using 4(1) [OF d refl none] 4(3,4) False cat by simp
  qed
qed (auto simp: live_def)

text \<open>The line of a message and its reading from standard input.\<close>

lemma takeWhile_not_LF: "LF \<notin> set t \<Longrightarrow> takeWhile (\<lambda>c. c \<noteq> LF) (t @ LF # rest) = t"
  by (induction t) auto

lemma fgets_take_line:
  "LF \<notin> set t \<Longrightarrow> fgets_take n (t @ LF # rest) = take n (t @ [LF])"
  by (simp add: fgets_take_def takeWhile_not_LF)

lemma drop_line:
  "n \<le> length u \<Longrightarrow> drop n (u @ LF # rest) = drop n u @ LF # rest"
  by simp

lemma read_msg_loop_line:
  "stdin w = u @ LF # rest \<Longrightarrow> LF \<notin> set (buf @ u) \<Longrightarrow> NUL \<notin> set (buf @ u) \<Longrightarrow>
   length buf + 1 < buffer_size w \<Longrightarrow> mallocs w = [] \<Longrightarrow>
   \<exists>bs. read_msg_loop buf w = (Inr (buf @ u @ [LF]), w\<lparr>stdin := rest, buffer_size := bs\<rparr>)"
proof (induction buf w arbitrary: u rule: read_msg_loop.induct)
  case (1 buf w)
  let ?n = "buffer_size w - length buf - 1"
  define got where "got = fgets_take ?n (stdin w)"
  have loop: "read_msg_loop buf w =
     (if got = [] then (if stdin_err w then (Inl (-1), w) else (Inl 0, w))
      else let w1 = w\<lparr>stdin := drop (length got) (stdin w)\<rparr>; b = cstr (buf @ got) in
        if b = [] then (Inl 0, w1)
        else if last b = LF then (Inr b, w1)
        else let (ok, w2) = malloc (w1\<lparr>buffer_size := buffer_size w1 + MSGIO_BUFFER_SZ\<rparr>) in
          if ok then read_msg_loop b w2 else (Inl (-1), w2\<lparr>line_buf := False\<rparr>))"
    unfolding got_def by (subst read_msg_loop.simps) (simp only: Let_def)
  have n: "?n > 0" using 1(5) by simp
  have got: "got = take ?n (u @ [LF])"
    using 1(2,3) by (simp add: got_def fgets_take_line)
  then have gotne: "got \<noteq> []" using n by (cases u; cases ?n) auto
  have sg: "set got \<subseteq> set u \<union> {LF}"
    using set_take_subset [of ?n "u @ [LF]"] got by auto
  then have cs: "cstr (buf @ got) = buf @ got" using 1(4) by (intro cstr_no_nul) auto
  show ?case
  proof (cases "?n \<ge> length u + 1")
    case True
    then have g: "got = u @ [LF]" using got by simp
    have "read_msg_loop buf w = (Inr (buf @ got), w\<lparr>stdin := drop (length got) (stdin w)\<rparr>)"
      using gotne cs g by (simp add: loop)
    then have "read_msg_loop buf w =
        (Inr (buf @ u @ [LF]), w\<lparr>stdin := rest, buffer_size := buffer_size w\<rparr>)"
      using 1(2) g by simp
    then show ?thesis by (rule exI)
  next
    case False
    then have g: "got = take ?n u" and len: "length got = ?n" using got by auto
    let ?w1 = "w\<lparr>stdin := drop (length got) (stdin w)\<rparr>"
    let ?w2 = "?w1\<lparr>buffer_size := buffer_size ?w1 + MSGIO_BUFFER_SZ\<rparr>"
    have lst: "last (buf @ got) \<noteq> LF"
      using gotne 1(3) g set_take_subset [of ?n u] last_in_set [of got] by (metis UnI2 last_appendR
          set_append subset_iff)
    have m: "malloc ?w2 = (True, ?w2)" using 1(6) by (simp add: malloc_True)
    have step: "read_msg_loop buf w = read_msg_loop (buf @ got) ?w2"
      using gotne cs lst m by (simp add: loop)
    have u: "u = got @ drop ?n u" using g by simp
    have "\<exists>bs. read_msg_loop (buf @ got) ?w2 =
        (Inr ((buf @ got) @ drop ?n u @ [LF]), ?w2\<lparr>stdin := rest, buffer_size := bs\<rparr>)"
    proof (rule 1(1) [OF got_def _ refl cs [symmetric] _ _ m [symmetric] refl])
      show "got \<noteq> []" "buf @ got \<noteq> []" "last (buf @ got) \<noteq> LF" using gotne lst by simp_all
      show "stdin ?w2 = drop ?n u @ LF # rest" using 1(2) len False by simp
      show "LF \<notin> set ((buf @ got) @ drop ?n u)" "NUL \<notin> set ((buf @ got) @ drop ?n u)"
        using 1(3,4) u by (simp_all add: g)
      show "length (buf @ got) + 1 < buffer_size ?w2" "mallocs ?w2 = []" "True"
        using 1(5,6) len by (simp_all add: MSGIO_BUFFER_SZ_def)
    qed
    then show ?thesis using step u by auto
  qed
qed

text \<open>A line on standard input, with or without a carriage return before its end.\<close>

lemma read_msg_line:
  assumes "stdin w = print_hexstring m @ cr @ LF # rest" "cr = [] \<or> cr = [CR]"
    and "mallocs w = []" "buffer_size w > 1"
  shows "\<exists>bs. read_msg junk w = (Returned 1 (Some m) (Some (2 * length m)),
     w\<lparr>line_buf := True, stdin := rest, buffer_size := bs\<rparr>)"
proof -
  let ?t = "print_hexstring m @ cr"
  let ?w0 = "w\<lparr>line_buf := True\<rparr>"
  have "LF \<notin> set ?t" "NUL \<notin> set ?t"
    using hexl.no_newline [of m] nul_not_hex [of m] assms(2) by auto
  then obtain bs where l: "read_msg_loop [] ?w0 = (Inr (?t @ [LF]), ?w0\<lparr>stdin := rest, buffer_size := bs\<rparr>)"
    using read_msg_loop_line [of ?w0 ?t rest "[]"] assms by auto
  have cr: "last (print_hexstring m) \<noteq> CR" if "m \<noteq> []"
    using hexl.no_newline(2) [of m] hexc.enc_eq_Nil [of m] that by (metis last_in_set)
  let ?n = "if ?t \<noteq> [] \<and> last ?t = CR then length ?t - 1 else length ?t"
  have n: "?n = 2 * length m"
    using assms(2) cr hexc.enc_eq_Nil [of m] by (auto simp: hexc.enc_length)
  have d: "decode_into junk (?t @ [LF]) (length m) = m"
    using decode_into_enc [of junk m "cr @ [LF]"] by simp
  have m0: "(if line_buf w then (True, w) else malloc w) = (True, w)"
    using assms(3) by (simp add: malloc_True)
  have m1: "malloc (?w0\<lparr>stdin := rest, buffer_size := bs\<rparr>) = (True, ?w0\<lparr>stdin := rest, buffer_size := bs\<rparr>)"
    using assms(3) by (simp add: malloc_True)
  show ?thesis
    unfolding read_msg_def Let_def m0 prod.case l sum.case butlast_snoc n
    using m1 d by auto
qed

text \<open>Reading and sending leave the descriptors alone.\<close>

definition same_fds :: "msgio \<Rightarrow> world \<Rightarrow> msgio \<Rightarrow> world \<Rightarrow> bool" where
  "same_fds io w io' w' \<longleftrightarrow>
     use_stdio io' = use_stdio io \<and> sock io' = sock io \<and> lsock io' = lsock io \<and> closed w' = closed w"

lemma same_fds_trans: "same_fds a u b v \<Longrightarrow> same_fds b v c w \<Longrightarrow> same_fds a u c w"
  by (simp add: same_fds_def)

lemma closed_malloc: "malloc w = (ok, w') \<Longrightarrow> closed w' = closed w"
  by (auto simp: malloc_def split: list.splits)

lemma same_fds_read: "read junk io w = (r, io', w') \<Longrightarrow> same_fds io w io' w'"
proof -
  have tl: "take_line junk i ws io w = (r, io', w') \<Longrightarrow> same_fds io w io' w'" for junk i ws io w r io' w'
    by (auto simp: take_line_def same_fds_def Let_def dest: closed_malloc split: if_splits prod.splits)
  have socket: "read_loop junk evs io w = (r, io', w') \<Longrightarrow> same_fds io w io' w'" for junk evs io w r io' w'
  proof (induction junk evs io w rule: read_loop.induct)
    case (4 junk d evs io w)
    then show ?case
      by (auto dest!: tl simp: Let_def same_fds_def split: if_splits option.splits prod.splits)
  qed (auto simp: same_fds_def)
  have line: "read_msg_loop b w = (r, w') \<Longrightarrow> closed w' = closed w" for b w r w'
  proof (induction b w arbitrary: r w' rule: read_msg_loop.induct)
    case (1 b w)
    let ?got = "fgets_take (buffer_size w - length b - 1) (stdin w)"
    let ?w1 = "w\<lparr>stdin := drop (length ?got) (stdin w)\<rparr>"
    obtain ok w2 where m: "malloc (?w1\<lparr>buffer_size := buffer_size ?w1 + MSGIO_BUFFER_SZ\<rparr>) = (ok, w2)"
      by (rule prod.exhaust)
    note c = closed_malloc [OF m]
    show ?case
    proof (cases "?got = [] \<or> cstr (b @ ?got) = [] \<or> last (cstr (b @ ?got)) = LF \<or> \<not> ok")
      case True
      with 1(2) [unfolded read_msg_loop.simps [of b w]] c m show ?thesis
        by (auto simp: Let_def split: if_splits)
    next
      case False
      then have "read_msg_loop (cstr (b @ ?got)) w2 = (r, w')"
        using 1(2) [unfolded read_msg_loop.simps [of b w]] m by (simp add: Let_def)
      from 1(1) [OF refl _ refl refl _ _ m [symmetric] refl _ this] False c show ?thesis by simp
    qed
  qed
  have "read_msg junk w = (r, w') \<Longrightarrow> closed w' = closed w" for w r w'
    by (auto simp: read_msg_def Let_def dest!: closed_malloc line split: if_splits prod.splits sum.splits)
  then show "read junk io w = (r, io', w') \<Longrightarrow> same_fds io w io' w'"
    using socket by (auto simp: read_def same_fds_def split: if_splits prod.splits)
qed

lemma closed_send_loop: "send_loop evs buf w = (rest, w') \<Longrightarrow> closed w' = closed w"
  by (induction evs buf w arbitrary: rest w' rule: send_loop.induct)
    (auto simp: put_wire_def Let_def split: if_splits)

lemma same_fds_send:
  "send m io w = (io', w') \<Longrightarrow> same_fds io w io' w'"
  "send_partial m io w = (io', w') \<Longrightarrow> same_fds io w io' w'"
  by (auto simp: send_def send_partial_def send_msg_def send_msg_partial_def same_fds_def Let_def
      dest: closed_send_loop split: if_splits prod.splits)

section \<open>Transports\<close>

text \<open>
  What the two programs need of a transport: a message that a ready sender puts out in parts
  reaches a reader for whom the text in between is next. There are two, sockets and the standard
  streams.
\<close>

definition send_message :: "bytes list \<Rightarrow> bytes \<Rightarrow> msgio \<Rightarrow> world \<Rightarrow> msgio \<times> world" where
  "send_message parts final io w = (let (io, w) = send_parts parts io w in send final io w)"

locale transport =
  fixes ready :: "msgio \<Rightarrow> world \<Rightarrow> bool"
    and sent :: "world \<Rightarrow> world \<Rightarrow> string"
    and arrives :: "string \<Rightarrow> msgio \<Rightarrow> world \<Rightarrow> bool"
  assumes delivered: "ready io w \<Longrightarrow> send_message parts final io w = (io', w') \<Longrightarrow>
      concat parts @ final \<noteq> [] \<Longrightarrow> arrives (sent w w') rio rw \<Longrightarrow>
      \<exists>rio' rw'. read junk rio rw =
        (Returned 1 (Some (concat parts @ final)) (Some (2 * length (concat parts @ final))), rio', rw')"

definition socket_ready :: "msgio \<Rightarrow> world \<Rightarrow> bool" where
  "socket_ready io w \<longleftrightarrow> \<not> use_stdio io \<and> wbuffer io = [] \<and> Snd_err \<notin> set (sends w)"

definition socket_sent :: "world \<Rightarrow> world \<Rightarrow> string" where
  "socket_sent w w' = drop (length (wire w)) (wire w')"

definition socket_arrives :: "string \<Rightarrow> msgio \<Rightarrow> world \<Rightarrow> bool" where
  "socket_arrives t io w \<longleftrightarrow>
     \<not> use_stdio io \<and> rbuffer io = [] \<and> mallocs w = [] \<and> live (recvs w) \<and> received (recvs w) = t"

definition stdio_ready :: "msgio \<Rightarrow> world \<Rightarrow> bool" where
  "stdio_ready io w \<longleftrightarrow> use_stdio io \<and> tty w"

definition stdio_sent :: "world \<Rightarrow> world \<Rightarrow> string" where
  "stdio_sent w w' = drop (length (out w)) (out w')"

definition stdio_arrives :: "string \<Rightarrow> msgio \<Rightarrow> world \<Rightarrow> bool" where
  "stdio_arrives t io w \<longleftrightarrow>
     use_stdio io \<and> mallocs w = [] \<and> 1 < buffer_size w \<and> take (length t) (stdin w) = t"

lemma send_message_socket:
  assumes "socket_ready io w"
  shows "\<exists>evs. send_message parts final io w =
    (io, (put_wire (print_hexstring (concat parts @ final) @ [LF]) w)\<lparr>sends := evs\<rparr>)"
proof -
  let ?s = "print_hexstring (concat parts @ final) @ [LF]"
  have io: "io\<lparr>wbuffer := []\<rparr> = io" using assms by (cases io) (simp add: socket_ready_def)
  obtain evs where "send_loop (sends w) ?s w = ([], (put_wire ?s w)\<lparr>sends := evs\<rparr>)"
    using send_loop_all [of "sends w" ?s w] assms unfolding socket_ready_def by blast
  then have "send_message parts final io w = (io, (put_wire ?s w)\<lparr>sends := evs\<rparr>)"
    using assms io
    by (simp add: send_message_def socket_ready_def send_parts_socket send_def print_hexstring_append)
  then show ?thesis ..
qed

lemma read_socket:
  assumes "socket_arrives (print_hexstring msg @ [LF]) io w" and "msg \<noteq> []"
  shows "\<exists>evs. received evs = [] \<and>
    read junk io w = (Returned 1 (Some msg) (Some (2 * length msg)), io, w\<lparr>recvs := evs\<rparr>)"
proof -
  have io: "io\<lparr>rbuffer := []\<rparr> = io" using assms(1) by (cases io) (simp add: socket_arrives_def)
  show ?thesis
    using read_loop_frame [of "recvs w" msg w io junk] assms io by (auto simp: socket_arrives_def read_def)
qed

lemma send_parts_stdio:
  "stdio_ready io w \<Longrightarrow> send_parts ps io w = (io, w\<lparr>out := out w @ print_hexstring (concat ps)\<rparr>)"
proof (induction ps arbitrary: w)
  case (Cons p ps)
  then show ?case
    by (simp add: stdio_ready_def send_partial_def send_msg_partial_def print_hexstring_append Let_def)
qed simp

lemma send_message_stdio:
  "stdio_ready io w \<Longrightarrow> send_message parts final io w =
     (io, w\<lparr>out := out w @ print_hexstring (concat parts @ final) @ [LF]\<rparr>)"
  by (simp add: send_message_def send_parts_stdio print_hexstring_append)
    (simp add: stdio_ready_def send_def send_msg_def Let_def)

lemma read_stdio:
  assumes "stdio_arrives (print_hexstring msg @ [LF]) io w"
  shows "\<exists>w'. read junk io w = (Returned 1 (Some msg) (Some (2 * length msg)), io, w')"
proof -
  have "stdin w = (print_hexstring msg @ [LF]) @ drop (length (print_hexstring msg @ [LF])) (stdin w)"
    using assms unfolding stdio_arrives_def by (metis append_take_drop_id)
  then have "\<exists>bs. read_msg junk w = (Returned 1 (Some msg) (Some (2 * length msg)),
      w\<lparr>line_buf := True, stdin := drop (length (print_hexstring msg @ [LF])) (stdin w), buffer_size := bs\<rparr>)"
    using assms read_msg_line [of w msg "[]" _ junk] by (simp add: stdio_arrives_def)
  then show ?thesis using assms by (auto simp: read_def stdio_arrives_def)
qed

interpretation sockets: transport socket_ready socket_sent socket_arrives
proof
  fix io w parts final io' w' rio rw and junk :: "nat \<Rightarrow> byte"
  assume "socket_ready io w" "send_message parts final io w = (io', w')" "concat parts @ final \<noteq> []"
    and a: "socket_arrives (socket_sent w w') rio rw"
  then have "socket_sent w w' = print_hexstring (concat parts @ final) @ [LF]"
    using send_message_socket [of io w parts final] by (auto simp: socket_sent_def)
  with a \<open>concat parts @ final \<noteq> []\<close> show "\<exists>rio' rw'. read junk rio rw =
      (Returned 1 (Some (concat parts @ final)) (Some (2 * length (concat parts @ final))), rio', rw')"
    using read_socket by metis
qed

interpretation streams: transport stdio_ready stdio_sent stdio_arrives
proof
  fix io w parts final io' w' rio rw and junk :: "nat \<Rightarrow> byte"
  assume "stdio_ready io w" "send_message parts final io w = (io', w')"
    and a: "stdio_arrives (stdio_sent w w') rio rw"
  then have "stdio_sent w w' = print_hexstring (concat parts @ final) @ [LF]"
    using send_message_stdio [of io w parts final] by (auto simp: stdio_sent_def)
  with a show "\<exists>rio' rw'. read junk rio rw =
      (Returned 1 (Some (concat parts @ final)) (Some (2 * length (concat parts @ final))), rio', rw')"
    using read_stdio by metis
qed

section \<open>Properties\<close>

text \<open>
  C22. A message sent in parts goes over a socket as one line whatever pieces \<open>send\<close> takes and
  however often it is interrupted, and the reader gets the bytes of all the parts back from
  that line whatever pieces it arrives in.
\<close>

theorem msgio_frame_roundtrip:
  assumes "\<not> use_stdio snd_io" "wbuffer snd_io = []" "Snd_err \<notin> set (sends w)"
    and "msg = concat parts @ final" "msg \<noteq> []"
    and "\<not> use_stdio rcv_io" "rbuffer rcv_io = []" "mallocs v = []" "live (recvs v)"
    and "received (recvs v) = print_hexstring msg @ [LF]"
  shows "\<exists>evs evs'. (let (io, w1) = send_parts parts snd_io w in send final io w1) =
             (snd_io, (put_wire (print_hexstring msg @ [LF]) w)\<lparr>sends := evs\<rparr>) \<and>
           received evs' = [] \<and> read junk rcv_io v =
             (Returned 1 (Some msg) (Some (2 * length msg)), rcv_io, v\<lparr>recvs := evs'\<rparr>)"
proof -
  have "send_message parts final snd_io w = (let (io, w1) = send_parts parts snd_io w in send final io w1)"
    by (simp add: send_message_def)
  then show ?thesis
    using send_message_socket [of snd_io w parts final] read_socket [of msg rcv_io v junk] assms
    by (auto simp: socket_ready_def socket_arrives_def)
qed

definition sample_io :: msgio where
  "sample_io = \<lparr>wbuffer = [], rbuffer = [], use_stdio = False, lsock = 3, sock = 4\<rparr>"

definition sample_world :: "recv_event list \<Rightarrow> send_event list \<Rightarrow> string \<Rightarrow> world" where
  "sample_world rs ss inp = \<lparr>recvs = rs, sends = ss, mallocs = [], wire = [], out = [],
     errout = [], stdin = inp, stdin_err = False, tty = True, closed = [], line_buf = False,
     buffer_size = MSGIO_BUFFER_SZ\<rparr>"

theorem msgio_frame_roundtrip_witness:
  "\<exists>evs evs'. (let (io, w1) = send_parts [[1, 255]] sample_io (sample_world [] [Snt 3, Snd_eintr, Snt 1] [])
       in send [42] io w1) =
       (sample_io, (put_wire (print_hexstring [1, 255, 42] @ [LF])
          (sample_world [] [Snt 3, Snd_eintr, Snt 1] []))\<lparr>sends := evs\<rparr>) \<and>
     received evs' = [] \<and>
     read (\<lambda>_. 0) sample_io (sample_world [Rcv_data ''01'', Rcv_eintr, Rcv_data (''ff2a'' @ [LF])] [] []) =
       (Returned 1 (Some [1, 255, 42]) (Some (2 * length [1, 255, 42 :: byte])), sample_io,
        (sample_world [Rcv_data ''01'', Rcv_eintr, Rcv_data (''ff2a'' @ [LF])] [] [])\<lparr>recvs := evs'\<rparr>)"
proof (rule msgio_frame_roundtrip)
  have "print_hexstring [1, 255, 42] = ''01ff2a''" by code_simp
  then show "received (recvs (sample_world [Rcv_data ''01'', Rcv_eintr, Rcv_data (''ff2a'' @ [LF])] [] [])) =
      print_hexstring [1, 255, 42] @ [LF]"
    by (simp add: sample_world_def del: print_hexstring.simps)
qed (simp_all add: sample_io_def sample_world_def live_def)



text \<open>
  An empty line is answered with the return value 1, without a message and without being
  removed from the buffer, so that from then on every read returns 1 without a message,
  whatever (newline-terminated) lines arrive.
\<close>

theorem read_stuck_after_empty_line:
  assumes "\<not> use_stdio io" and "rbuffer io = LF # x" and "CR \<notin> set (x @ d)" and "d \<noteq> []"
    and "recvs w = Rcv_data d # evs"
  shows "read junk io w = (Returned 1 None (Some 0), io\<lparr>rbuffer := LF # x @ d\<rparr>, w\<lparr>recvs := evs\<rparr>)"
proof -
  have "find_line (LF # x @ d) = Some (0, 1)"
    using assms(3) find_str_CRLF_None [of "LF # x @ d"] by (simp add: find_line_def)
  then show ?thesis using assms(1,2,4,5) by (simp add: read_def take_line_def)
qed

theorem read_stuck_after_empty_line_witness:
  "read (\<lambda>_. 0) (sample_io\<lparr>rbuffer := [LF]\<rparr>) (sample_world [Rcv_data (''01ff'' @ [LF])] [] []) =
     (Returned 1 None (Some 0), (sample_io\<lparr>rbuffer := [LF]\<rparr>)\<lparr>rbuffer := LF # [] @ ''01ff'' @ [LF]\<rparr>,
      (sample_world [Rcv_data (''01ff'' @ [LF])] [] [])\<lparr>recvs := []\<rparr>)"
  by (rule read_stuck_after_empty_line) (simp_all add: sample_io_def sample_world_def)

text \<open>
  A read waits for new data before it looks at its buffer: a complete line that arrived
  together with the previous one is not delivered while the peer is silent.
\<close>

theorem read_waits_with_line_buffered:
  assumes "\<not> use_stdio io" and "m \<noteq> []" and "n \<noteq> []" and "mallocs w = []" and "rbuffer io = []"
    and "recvs w = [Rcv_data (print_hexstring m @ [LF] @ print_hexstring n @ [LF])]"
  shows "case read junk io w of (r, io', w') \<Rightarrow>
     r = Returned 1 (Some m) (Some (2 * length m)) \<and>
     rbuffer io' = print_hexstring n @ [LF] \<and> fst (read junk io' w') = Blocked"
proof -
  let ?rest = "print_hexstring n @ [LF]"
  have "CR \<notin> set ?rest" using hexl.no_newline [of n] by simp
  then have "find_line (print_hexstring m @ LF # ?rest) = Some (2 * length m, 1)"
    by (rule hexl.find_line_enc)
  then have "read junk io w = (Returned 1 (Some m) (Some (2 * length m)),
      io\<lparr>rbuffer := ?rest\<rparr>, w\<lparr>recvs := []\<rparr>)"
    using assms take_line_enc [of m "w\<lparr>recvs := []\<rparr>" "io\<lparr>rbuffer := print_hexstring m @ LF # ?rest\<rparr>" ?rest junk]
    by (simp add: read_def)
  then show ?thesis using assms(1) by (simp add: read_def)
qed

theorem read_waits_with_line_buffered_witness:
  "case read (\<lambda>_. 0) sample_io (sample_world
        [Rcv_data (print_hexstring [1] @ [LF] @ print_hexstring [2] @ [LF])] [] []) of (r, io', w') \<Rightarrow>
     r = Returned 1 (Some [1]) (Some (2 * length [1 :: byte])) \<and>
     rbuffer io' = print_hexstring [2] @ [LF] \<and> fst (read (\<lambda>_. 0) io' w') = Blocked"
  by (rule read_waits_with_line_buffered) (simp_all add: sample_io_def sample_world_def)

end
