(* ===== verification/Crypto.thy ===== *)
theory Crypto
  imports Hexutil
begin

text \<open>
  The model of \<open>service-provider/crypto.c\<close>: the wrappers around OpenSSL.

  OpenSSL itself is not part of the repository: it is the record \<open>openssl\<close>, a parameter of
  every definition. Its field \<open>ret\<close> gives the return code of the \<open>n\<close>-th library call of the run
  (0 is failure or a null pointer, anything else is what the code takes for success), so that
  every call may fail at any time; the other fields are the values the calls compute. The
  static variable \<open>error_type\<close>, the number of calls made, and the objects the code owns are the
  state \<open>cstate\<close>. Objects are tracked to state what the cleanup sections do: \<open>held\<close> is the
  multiset of objects acquired and not yet released, and \<open>bad_free\<close> is set when one is released
  that is not held.
\<close>

section \<open>The library\<close>

text \<open>
  An \<open>EVP_PKEY\<close> with an EC key: private number and public point, when they are set. Its use
  with \<open>EVP_PKEY_get1_EC_KEY\<close> fails when it holds no EC key at all.
\<close>

record pkey =
  has_ec :: bool
  prv :: "nat option"
  pub :: "(nat \<times> nat) option"

definition new_pkey :: pkey where
  "new_pkey = \<lparr>has_ec = False, prv = None, pub = None\<rparr>"

type_synonym cert = nat

record openssl =
  ret :: "nat \<Rightarrow> int"
  hex2bn :: "string \<Rightarrow> int \<times> nat"
  lebin2bn :: "bytes \<Rightarrow> nat"
  bn2lebinpad :: "nat \<Rightarrow> nat \<Rightarrow> bytes"
  bn2binpad :: "nat \<Rightarrow> nat \<Rightarrow> bytes"
  base_mul :: "nat \<Rightarrow> nat \<times> nat"
  on_curve :: "nat \<times> nat \<Rightarrow> bool"
  keygen :: "nat \<Rightarrow> pkey"
  ecdh :: "pkey \<Rightarrow> pkey \<Rightarrow> bytes"
  cmac_aes :: "bytes \<Rightarrow> bytes \<Rightarrow> bytes"
  sha256 :: "bytes \<Rightarrow> bytes"
  ecdsa :: "bytes \<Rightarrow> pkey \<Rightarrow> nat \<times> nat"
  rsa_verifies :: "bytes \<Rightarrow> bytes \<Rightarrow> cert \<Rightarrow> bool"
  pem_key :: "string \<Rightarrow> pkey option"
  pem_cert :: "string \<Rightarrow> cert option"
  chain_valid :: "cert list \<Rightarrow> cert list \<Rightarrow> bool"

datatype error_type = E_none | E_crypto | E_system | E_api

datatype object = Ob_eckey | Ob_bn | Ob_point | Ob_bnctx | Ob_group | Ob_pkey | Ob_pkeyctx
  | Ob_params | Ob_secret | Ob_cmac | Ob_mdctx | Ob_sig | Ob_bio | Ob_storectx | Ob_store

record cstate =
  err_type :: error_type
  ep :: "string option"
  calls :: nat
  held :: "object list"
  bad_free :: bool

definition crypto_init :: cstate where
  "crypto_init = \<lparr>err_type = E_none, ep = None, calls = 0, held = [], bad_free = False\<rparr>"

definition set_error :: "error_type \<Rightarrow> cstate \<Rightarrow> cstate" where
  "set_error e s = s\<lparr>err_type := e\<rparr>"

definition acquire :: "object \<Rightarrow> cstate \<Rightarrow> cstate" where
  "acquire x s = s\<lparr>held := x # held s\<rparr>"

definition release :: "object \<Rightarrow> cstate \<Rightarrow> cstate" where
  "release x s = (if x \<in> set (held s) then s\<lparr>held := remove1 x (held s)\<rparr> else s\<lparr>bad_free := True\<rparr>)"

definition release_if :: "bool \<Rightarrow> object \<Rightarrow> cstate \<Rightarrow> cstate" where
  "release_if b x s = (if b then release x s else s)"

text \<open>
  A library call: \<open>if ( ! f(..) ) { error_type= e_crypto; goto cleanup; }\<close>, where \<open>sem\<close> says
  whether the arguments allow success.
\<close>

definition call :: "openssl \<Rightarrow> bool \<Rightarrow> cstate \<Rightarrow> int \<times> cstate" where
  "call L sem s = (if sem then ret L (calls s) else 0, s\<lparr>calls := Suc (calls s)\<rparr>)"

definition must :: "openssl \<Rightarrow> bool \<Rightarrow> cstate \<Rightarrow> (cstate \<Rightarrow> 'a) \<Rightarrow> (cstate \<Rightarrow> 'a) \<Rightarrow> 'a" where
  "must L sem s cleanup next =
     (let (r, s') = call L sem s
      in if r = 0 then cleanup (set_error E_crypto s') else next s')"

text \<open>The form \<open>if ( f(..) != 1 )\<close>.\<close>

definition must_be_1 :: "openssl \<Rightarrow> bool \<Rightarrow> cstate \<Rightarrow> (cstate \<Rightarrow> 'a) \<Rightarrow> (cstate \<Rightarrow> 'a) \<Rightarrow> 'a" where
  "must_be_1 L sem s cleanup next =
     (let (r, s') = call L sem s
      in if r \<noteq> 1 then cleanup (set_error E_crypto s') else next s')"

definition no_error :: "cstate \<Rightarrow> bool" where
  "no_error s \<longleftrightarrow> err_type s = E_none"

section \<open>Messages, digests and signatures\<close>

text \<open>\<open>mac\<close> is the content of the caller's array before the call.\<close>

definition cmac128 ::
    "openssl \<Rightarrow> bytes \<Rightarrow> bytes \<Rightarrow> bytes \<Rightarrow> cstate \<Rightarrow> bool \<times> bytes \<times> cstate" where
  "cmac128 L key msg mac s0 =
     (let s = set_error E_none s0;
          cleanup = (\<lambda>ctx mac s. (no_error s, mac, release_if ctx Ob_cmac s)) in
      must L True s (cleanup False mac) (\<lambda>s.
      must L True (acquire Ob_cmac s) (cleanup True mac) (\<lambda>s.
      must L True s (cleanup True mac) (\<lambda>s.
      must L True s (cleanup True mac) (cleanup True (cmac_aes L key msg))))))"

definition sha256_digest ::
    "openssl \<Rightarrow> bytes \<Rightarrow> cstate \<Rightarrow> bool \<times> bytes \<times> cstate" where
  "sha256_digest L msg s0 =
     (let s = set_error E_none s0; zero = replicate 32 0;
          cleanup = (\<lambda>ctx d s. (no_error s, d, release_if ctx Ob_mdctx s)) in
      must L True s (cleanup False zero) (\<lambda>s.
      must_be_1 L True (acquire Ob_mdctx s) (cleanup True zero) (\<lambda>s.
      must_be_1 L True s (cleanup True zero) (\<lambda>s.
      must_be_1 L True s (cleanup True zero) (cleanup True (sha256 L msg))))))"

definition sha256_verify ::
    "openssl \<Rightarrow> bytes \<Rightarrow> bytes \<Rightarrow> cert \<Rightarrow> cstate \<Rightarrow> bool \<times> cstate" where
  "sha256_verify L msg sig crt s0 =
     (let s = set_error E_none s0;
          cleanup = (\<lambda>ctx s. (no_error s, release_if ctx Ob_mdctx s)) in
      must L True s (cleanup False) (\<lambda>s.
      must_be_1 L True (acquire Ob_mdctx s) (cleanup True) (\<lambda>s.
      must_be_1 L True s (cleanup True) (\<lambda>s.
      must_be_1 L (rsa_verifies L msg sig crt) s (cleanup True) (cleanup True)))))"

text \<open>The caller's arrays \<open>r\<close>, \<open>s\<close> and \<open>digest\<close> are threaded like the state.\<close>

definition ecdsa_sign ::
    "openssl \<Rightarrow> bytes \<Rightarrow> pkey \<Rightarrow> bytes \<times> bytes \<times> bytes \<Rightarrow> cstate
      \<Rightarrow> bool \<times> (bytes \<times> bytes \<times> bytes) \<times> cstate" where
  "ecdsa_sign L msg key out0 s0 =
     (let (r0, sg0, d0) = out0; s = set_error E_none s0;
          cleanup = (\<lambda>sig eckey outs s.
            (no_error s, outs, release_if eckey Ob_eckey (release_if sig Ob_sig s))) in
      must L (has_ec key) s (cleanup False False out0) (\<lambda>s.
      let (ok, d, s) = sha256_digest L msg (acquire Ob_eckey s) in
      if \<not> ok then cleanup False True (r0, sg0, d) (set_error E_crypto s) else
      must L True s (cleanup False True (r0, sg0, d)) (\<lambda>s.
      let (bnr, bns) = ecdsa L d key; s = acquire Ob_sig s in
      must L True s (cleanup True True (r0, sg0, d)) (\<lambda>s.
      let r = bn2binpad L bnr 32 in
      must L True s (cleanup True True (r, sg0, d))
        (cleanup True True (r, bn2binpad L bns 32, d))))))"

section \<open>Keys\<close>

datatype keytype = KEY_PUBLIC | KEY_PRIVATE | Other_keytype

definition key_load ::
    "openssl \<Rightarrow> string option \<Rightarrow> keytype \<Rightarrow> pkey option \<Rightarrow> cstate \<Rightarrow> bool \<times> pkey option \<times> cstate" where
  "key_load L hexs kt key0 s0 =
     (let s = set_error E_none s0;
          reqlen = (case kt of KEY_PRIVATE \<Rightarrow> 64 | _ \<Rightarrow> 128);
          cleanup = (\<lambda>gy gx k s. let s = release_if gx Ob_bn (release_if gy Ob_bn s) in (no_error s, k, s));
          finish = (\<lambda>gy prv pub s.
            must L True s (cleanup gy True None) (\<lambda>s.
            must L True (acquire Ob_pkey s) (cleanup gy True None)
              (cleanup gy True (Some \<lparr>has_ec = True, prv = prv, pub = pub\<rparr>)))) in
      case hexs of None \<Rightarrow> (False, key0, set_error E_api s)
      | Some hs \<Rightarrow>
        if kt = Other_keytype \<or> length hs \<noteq> reqlen then (False, key0, set_error E_api s)
        else must L True s (cleanup False False key0) (\<lambda>s.
          let s = acquire Ob_eckey s in
          if kt = KEY_PRIVATE then
            (let (n, gx) = hex2bn L hs; (_, s) = call L True s; s = acquire Ob_bnctx s in
             must L (n \<noteq> 0) s (cleanup False False key0) (\<lambda>s.
             must L True (acquire Ob_bn s) (cleanup False True key0) (\<lambda>s.
             must L True s (\<lambda>s. cleanup False True key0 (release Ob_bnctx s)) (\<lambda>s.
             must L True (acquire Ob_point s)
               (\<lambda>s. cleanup False True key0 (release Ob_point (release Ob_bnctx s))) (\<lambda>s.
             must L True (release Ob_bnctx s)
               (\<lambda>s. cleanup False True key0 (release Ob_point (release Ob_point s))) (\<lambda>s.
             finish False (Some gx) (Some (base_mul L gx)) (release Ob_point s)))))))
          else
            (let (n, gx) = hex2bn L (take 64 hs); (m, gy) = hex2bn L (drop 64 hs) in
             must L (n \<noteq> 0) s (cleanup False False key0) (\<lambda>s.
             must L (m \<noteq> 0) (acquire Ob_bn s) (cleanup False True key0) (\<lambda>s.
             must L (on_curve L (gx, gy)) (acquire Ob_bn s) (cleanup True True key0)
               (finish True None (Some (gx, gy))))))))"

text \<open>
  \<open>file\<close> is the text of the named file, when it can be opened. A PEM text that does not
  parse leaves the empty key and no error. \<open>EVP_PKEY_new\<close> is not checked; with a null pointer
  the PEM reader makes its own object.
\<close>

definition key_load_file ::
    "openssl \<Rightarrow> string \<Rightarrow> string option \<Rightarrow> keytype \<Rightarrow> cstate \<Rightarrow> bool \<times> pkey option \<times> cstate" where
  "key_load_file L name file kt s0 =
     (let (r, s) = call L True (set_error E_none s0);
          k = (if r = 0 then None else Some new_pkey) in
      case file of None \<Rightarrow> (False, k, (set_error E_system s)\<lparr>ep := Some name\<rparr>)
      | Some text \<Rightarrow>
          if kt = Other_keytype then (False, k, set_error E_api s)
          else (True, (case pem_key L text of Some p \<Rightarrow> Some p | None \<Rightarrow> k), s))"

text \<open>\<open>k0\<close> is the content of the caller's structure (\<open>gx\<close>, \<open>gy\<close>) before the call.\<close>

definition key_to_sgx_ec256 ::
    "openssl \<Rightarrow> bytes \<times> bytes \<Rightarrow> pkey \<Rightarrow> cstate \<Rightarrow> bool \<times> (bytes \<times> bytes) \<times> cstate" where
  "key_to_sgx_ec256 L k0 key s0 =
     (let s = set_error E_none s0;
          cleanup = (\<lambda>gy gx grp k s. let s = release_if grp Ob_group
              (release_if gx Ob_bn (release_if gy Ob_bn s)) in (no_error s, k, s)) in
      must L (has_ec key) s (cleanup False False False k0) (\<lambda>s.
      must L True (acquire Ob_eckey s) (cleanup False False False k0) (\<lambda>s.
      must L True (acquire Ob_group s) (cleanup False False True k0) (\<lambda>s.
      must L True (acquire Ob_bn s) (cleanup False True True k0) (\<lambda>s.
      must L (pub key \<noteq> None) (acquire Ob_bn s) (cleanup True True True k0) (\<lambda>s.
      let (gx, gy) = the (pub key) in
      must L True s (cleanup True True True k0) (\<lambda>s.
      must L True s (cleanup True True True (bn2lebinpad L gx 32, snd k0))
        (cleanup True True True (bn2lebinpad L gx 32, bn2lebinpad L gy 32)))))))))"

definition key_private_from_bytes ::
    "openssl \<Rightarrow> bytes \<Rightarrow> cstate \<Rightarrow> pkey option \<times> cstate" where
  "key_private_from_bytes L buf s0 =
     (let s = set_error E_none s0;
          cleanup = (\<lambda>p key k s. (k, release_if key Ob_eckey (release_if p Ob_bn s))) in
      must L True s (cleanup False False None) (\<lambda>s.
      must L True (acquire Ob_eckey s) (cleanup False True None) (\<lambda>s.
      must L True (acquire Ob_bn s) (cleanup True True None) (\<lambda>s.
      must L True s (cleanup True True None) (\<lambda>s.
      must L True (acquire Ob_pkey s) (\<lambda>s. cleanup True True None (release Ob_pkey s))
        (cleanup True True (Some \<lparr>has_ec = True, prv = Some (lebin2bn L buf), pub = None\<rparr>)))))))"

definition key_from_sgx_ec256 ::
    "openssl \<Rightarrow> bytes \<times> bytes \<Rightarrow> cstate \<Rightarrow> pkey option \<times> cstate" where
  "key_from_sgx_ec256 L k s0 =
     (let s = set_error E_none s0; p = (lebin2bn L (fst k), lebin2bn L (snd k));
          cleanup = (\<lambda>gy gx k s. (k, release_if gx Ob_bn (release_if gy Ob_bn s))) in
      must L True s (cleanup False False None) (\<lambda>s.
      must L True (acquire Ob_bn s) (cleanup False True None) (\<lambda>s.
      must L True (acquire Ob_bn s) (cleanup True True None) (\<lambda>s.
      must L (on_curve L p) (acquire Ob_eckey s)
        (\<lambda>s. cleanup True True None (release Ob_eckey s)) (\<lambda>s.
      must L True s (cleanup True True None) (\<lambda>s.
      must L True (acquire Ob_pkey s) (\<lambda>s. cleanup True True None (release Ob_pkey s))
        (cleanup True True (Some \<lparr>has_ec = True, prv = None, pub = Some p\<rparr>))))))))"

definition key_generate :: "openssl \<Rightarrow> cstate \<Rightarrow> pkey option \<times> cstate" where
  "key_generate L s0 =
     (let s = set_error E_none s0;
          cleanup = (\<lambda>kctx params pctx k s. (k, release_if pctx Ob_pkeyctx
              (release_if params Ob_params (release_if kctx Ob_pkeyctx s)))) in
      must L True s (cleanup False False False None) (\<lambda>s.
      must L True (acquire Ob_pkeyctx s) (cleanup False False True None) (\<lambda>s.
      must L True s (cleanup False False True None) (\<lambda>s.
      must L True s (cleanup False False True None) (\<lambda>s.
      must L True (acquire Ob_params s) (cleanup False True True None) (\<lambda>s.
      must L True (acquire Ob_pkeyctx s) (cleanup True True True None) (\<lambda>s.
      must L True s (cleanup True True True None)
        (\<lambda>s. cleanup True True True (Some (keygen L (calls s))) (acquire Ob_pkey s)))))))))"

definition key_shared_secret ::
    "openssl \<Rightarrow> pkey \<Rightarrow> pkey \<Rightarrow> cstate \<Rightarrow> bytes option \<times> cstate" where
  "key_shared_secret L key peer s0 =
     (let s = set_error E_none s0;
          cleanup = (\<lambda>ctx k s. (k, release_if ctx Ob_pkeyctx s)) in
      must L True s (cleanup False None) (\<lambda>s.
      must L True (acquire Ob_pkeyctx s) (cleanup True None) (\<lambda>s.
      must L True s (cleanup True None) (\<lambda>s.
      must L True s (cleanup True None) (\<lambda>s.
      must L True s (cleanup True None) (\<lambda>s.
      must L True (acquire Ob_secret s) (\<lambda>s. cleanup True None (release Ob_secret s))
        (cleanup True (Some (ecdh L key peer)))))))))"

section \<open>Certificates\<close>

text \<open>A certificate is a number, a store the list of its trusted certificates.\<close>

definition cert_load_file ::
    "openssl \<Rightarrow> string \<Rightarrow> string option \<Rightarrow> cstate \<Rightarrow> bool \<times> cert option \<times> cstate" where
  "cert_load_file L name file s0 =
     (let s = set_error E_none s0 in
      case file of None \<Rightarrow> (False, None, (set_error E_system s)\<lparr>ep := Some name\<rparr>)
      | Some text \<Rightarrow>
          must L (pem_cert L text \<noteq> None) s (\<lambda>s. (no_error s, None, s))
            (\<lambda>s. (no_error s, pem_cert L text, s)))"

definition cert_load_size ::
    "openssl \<Rightarrow> string \<Rightarrow> nat \<Rightarrow> cert option \<Rightarrow> cstate \<Rightarrow> bool \<times> cert option \<times> cstate" where
  "cert_load_size L text sz c0 s0 =
     (let s = set_error E_none s0; pem = take sz text;
          cleanup = (\<lambda>b c s. (no_error s, c, release_if b Ob_bio s)) in
      must L True s (cleanup False c0) (\<lambda>s.
      must L True (acquire Ob_bio s) (cleanup True c0) (\<lambda>s.
      must L (pem_cert L pem \<noteq> None) s (cleanup True None) (cleanup True (pem_cert L pem)))))"

definition cert_load ::
    "openssl \<Rightarrow> string \<Rightarrow> cert option \<Rightarrow> cstate \<Rightarrow> bool \<times> cert option \<times> cstate" where
  "cert_load L text c0 s = cert_load_size L text (length (cstr text)) c0 s"

definition cert_init_ca :: "openssl \<Rightarrow> cert \<Rightarrow> cstate \<Rightarrow> cert list option \<times> cstate" where
  "cert_init_ca L c s0 =
     must L True (set_error E_none s0) (\<lambda>s. (None, s)) (\<lambda>s.
     must_be_1 L True (acquire Ob_store s)
       (\<lambda>s. (None, release Ob_store s)) (\<lambda>s. (Some [c], s)))"

definition cert_verify :: "openssl \<Rightarrow> cert list \<Rightarrow> cert list \<Rightarrow> cstate \<Rightarrow> bool \<times> cstate" where
  "cert_verify L store chain s0 =
     (let s = set_error E_none s0;
          cleanup = (\<lambda>s. (no_error s, release Ob_storectx s)) in
      must L True s (\<lambda>s. (False, s)) (\<lambda>s.
      must_be_1 L True (acquire Ob_storectx s) cleanup (\<lambda>s.
      must_be_1 L (chain_valid L store chain) s cleanup cleanup)))"

definition cert_stack_build :: "openssl \<Rightarrow> cert list \<Rightarrow> cstate \<Rightarrow> cert list option \<times> cstate" where
  "cert_stack_build L certs s0 =
     must L True (set_error E_none s0) (\<lambda>s. (None, s)) (\<lambda>s. (Some certs, s))"

section \<open>Lemmas\<close>

lemmas crypto_simps = must_def must_be_1_def call_def set_error_def acquire_def release_def
  release_if_def no_error_def Let_def

lemma call_simp: "call L sem s = (if sem then ret L (calls s) else 0, s\<lparr>calls := Suc (calls s)\<rparr>)"
  by (simp add: call_def)

lemma must_split:
  "P (must L sem s cleanup next) \<longleftrightarrow>
     (sem \<and> ret L (calls s) \<noteq> 0 \<longrightarrow> P (next (s\<lparr>calls := Suc (calls s)\<rparr>))) \<and>
     (\<not> (sem \<and> ret L (calls s) \<noteq> 0) \<longrightarrow>
        P (cleanup (set_error E_crypto (s\<lparr>calls := Suc (calls s)\<rparr>))))"
  by (simp add: must_def call_def)

lemma must_be_1_split:
  "P (must_be_1 L sem s cleanup next) \<longleftrightarrow>
     (sem \<and> ret L (calls s) = 1 \<longrightarrow> P (next (s\<lparr>calls := Suc (calls s)\<rparr>))) \<and>
     (\<not> (sem \<and> ret L (calls s) = 1) \<longrightarrow>
        P (cleanup (set_error E_crypto (s\<lparr>calls := Suc (calls s)\<rparr>))))"
  by (simp add: must_be_1_def call_def)

lemma must_ok:
  "sem \<Longrightarrow> ret L (calls s) \<noteq> 0 \<Longrightarrow> must L sem s cleanup next = next (s\<lparr>calls := Suc (calls s)\<rparr>)"
  by (simp add: must_def call_def)

lemma must_fail:
  "\<not> sem \<or> ret L (calls s) = 0 \<Longrightarrow>
   must L sem s cleanup next = cleanup (set_error E_crypto (s\<lparr>calls := Suc (calls s)\<rparr>))"
  by (auto simp: must_def call_def)

lemma crypto_frame [simp]:
  "calls (acquire x s) = calls s" "calls (release x s) = calls s"
  "calls (release_if b x s) = calls s" "calls (set_error e s) = calls s"
  by (simp_all add: acquire_def release_def release_if_def set_error_def)

text \<open>Evaluate a run outside in: neither continuation is looked at before it is chosen.\<close>

lemma must_outer:
  "sem = sem' \<Longrightarrow> s = s' \<Longrightarrow> must L sem s cleanup next = must L sem' s' cleanup next"
  by simp

text \<open>What is owned after a call, relative to the state before it.\<close>

definition owns :: "object list \<Rightarrow> cstate \<Rightarrow> cstate \<Rightarrow> bool" where
  "owns obs s s' \<longleftrightarrow> held s' = obs @ held s \<and> bad_free s' = bad_free s"

lemma cmac128_owns: "owns [] s (snd (snd (cmac128 L key msg mac s)))"
  by (simp add: cmac128_def crypto_simps owns_def split: if_splits)

lemma sha256_digest_owns: "owns [] s (snd (snd (sha256_digest L msg s)))"
  by (simp add: sha256_digest_def crypto_simps owns_def split: if_splits)

lemma sha256_verify_owns: "owns [] s (snd (sha256_verify L msg sig crt s))"
  by (simp add: sha256_verify_def crypto_simps owns_def split: if_splits)

lemma cert_load_size_owns: "owns [] s (snd (snd (cert_load_size L text sz c s)))"
  by (simp add: cert_load_size_def crypto_simps owns_def split: if_splits)

lemma cert_verify_owns: "owns [] s (snd (cert_verify L store chain s))"
  by (simp add: cert_verify_def crypto_simps owns_def split: if_splits)

lemma cert_init_ca_owns:
  "owns (if fst (cert_init_ca L c s) = None then [] else [Ob_store]) s (snd (cert_init_ca L c s))"
proof -
  have "case cert_init_ca L c s of (k, s') \<Rightarrow> owns (if k = None then [] else [Ob_store]) s s'"
    unfolding cert_init_ca_def Let_def
    by (simp only: must_split must_be_1_split prod.case option.simps if_True if_False,
        simp add: crypto_simps owns_def)
  then show ?thesis by (simp add: split_beta)
qed

lemma key_private_from_bytes_owns:
  "owns (if fst (key_private_from_bytes L buf s) = None then [] else [Ob_pkey]) s (snd (key_private_from_bytes L buf s))"
proof -
  have "case key_private_from_bytes L buf s of (k, s') \<Rightarrow> owns (if k = None then [] else [Ob_pkey]) s s'"
    unfolding key_private_from_bytes_def Let_def
    by (simp only: must_split must_be_1_split prod.case option.simps if_True if_False,
        simp add: crypto_simps owns_def)
  then show ?thesis by (simp add: split_beta)
qed

lemma key_generate_owns:
  "owns (if fst (key_generate L s) = None then [] else [Ob_pkey]) s (snd (key_generate L s))"
proof -
  have "case key_generate L s of (k, s') \<Rightarrow> owns (if k = None then [] else [Ob_pkey]) s s'"
    unfolding key_generate_def Let_def
    by (simp only: must_split must_be_1_split prod.case option.simps if_True if_False,
        simp add: crypto_simps owns_def)
  then show ?thesis by (simp add: split_beta)
qed

lemma key_shared_secret_owns:
  "owns (if fst (key_shared_secret L key peer s) = None then [] else [Ob_secret]) s (snd (key_shared_secret L key peer s))"
proof -
  have "case key_shared_secret L key peer s of (k, s') \<Rightarrow> owns (if k = None then [] else [Ob_secret]) s s'"
    unfolding key_shared_secret_def Let_def
    by (simp only: must_split must_be_1_split prod.case option.simps if_True if_False,
        simp add: crypto_simps owns_def)
  then show ?thesis by (simp add: split_beta)
qed

lemma ecdsa_sign_owns: "owns [] s (snd (snd (ecdsa_sign L msg key outs s)))"
proof -
  obtain ok d s1 where dg: "sha256_digest L msg (acquire Ob_eckey
      (s\<lparr>err_type := E_none, calls := Suc (calls s)\<rparr>)) = (ok, d, s1)"
    by (cases "sha256_digest L msg (acquire Ob_eckey (s\<lparr>err_type := E_none, calls := Suc (calls s)\<rparr>))") auto
  have "held s1 = Ob_eckey # held s" "bad_free s1 = bad_free s"
    using sha256_digest_owns [of "acquire Ob_eckey (s\<lparr>err_type := E_none, calls := Suc (calls s)\<rparr>)" L msg]
    unfolding dg by (simp_all add: owns_def acquire_def)
  with dg show ?thesis
    by (simp add: ecdsa_sign_def crypto_simps owns_def split: prod.splits if_splits)
qed

lemma cmac128_cases:
  "(case cmac128 L key msg mac s of (ok, mac', s') \<Rightarrow>
      mac' = (if ok then cmac_aes L key msg else mac))"
  by (simp add: cmac128_def crypto_simps split: if_splits)

lemma cmac128_ok: "\<forall>n. ret L n = 1 \<Longrightarrow> fst (cmac128 L key msg mac s) \<and> fst (snd (cmac128 L key msg mac s)) = cmac_aes L key msg"
  by (simp add: cmac128_def crypto_simps)

section \<open>Properties\<close>

text \<open>
  C28. Whatever the library returns at each call, the cleanup sections of the MAC, digest,
  signature, certificate and key-exchange functions release every object the function
  acquired exactly once: what is owned afterwards is what was owned before and the returned
  object.
\<close>

theorem crypto_cleanup_balanced:
  "owns [] s (snd (snd (cmac128 L key msg mac s))) \<and>
   owns [] s (snd (snd (sha256_digest L msg s))) \<and>
   owns [] s (snd (sha256_verify L msg sig crt s)) \<and>
   owns [] s (snd (snd (ecdsa_sign L msg skey outs s))) \<and>
   owns [] s (snd (snd (cert_load_size L text sz c0 s))) \<and>
   owns [] s (snd (cert_verify L store chain s)) \<and>
   owns (if fst (key_private_from_bytes L buf s) = None then [] else [Ob_pkey]) s
     (snd (key_private_from_bytes L buf s)) \<and>
   owns (if fst (key_generate L s) = None then [] else [Ob_pkey]) s (snd (key_generate L s)) \<and>
   owns (if fst (key_shared_secret L skey peer s) = None then [] else [Ob_secret]) s
     (snd (key_shared_secret L skey peer s))"
  by (intro conjI cmac128_owns sha256_digest_owns sha256_verify_owns ecdsa_sign_owns
      cert_load_size_owns cert_verify_owns key_private_from_bytes_owns key_generate_owns
      key_shared_secret_owns)


definition sample_lib :: "(nat \<Rightarrow> int) \<Rightarrow> openssl" where
  "sample_lib rc = \<lparr>ret = rc, hex2bn = (\<lambda>t. (int (length t), 5)), lebin2bn = (\<lambda>b. unat (hd b)),
     bn2lebinpad = (\<lambda>n k. of_nat n # replicate (k - 1) 0), bn2binpad = (\<lambda>n k. replicate (k - 1) 0 @ [of_nat n]),
     base_mul = (\<lambda>n. (n, n + 1)), on_curve = (\<lambda>p. True),
     keygen = (\<lambda>n. \<lparr>has_ec = True, prv = Some 7, pub = Some (7, 8)\<rparr>), ecdh = (\<lambda>a b. [1, 2, 3]),
     cmac_aes = (\<lambda>k m. replicate 16 (of_nat (length m))), sha256 = (\<lambda>m. replicate 32 (of_nat (length m))),
     ecdsa = (\<lambda>d k. (3, 4)), rsa_verifies = (\<lambda>m s c. s = [1]), pem_key = (\<lambda>t. None),
     pem_cert = (\<lambda>t. Some 1), chain_valid = (\<lambda>st ch. True)\<rparr>"


text \<open>
  A public key written into the little-endian SGX structure and read back is the same
  point, when the library's conversions of numbers are inverse to each other and no call
  fails.
\<close>

theorem sgx_key_roundtrip:
  assumes "\<forall>n. ret L n = 1" and "has_ec key" and "pub key = Some p" and "on_curve L p"
    and "\<forall>n. n = fst p \<or> n = snd p \<longrightarrow> lebin2bn L (bn2lebinpad L n 32) = n"
  shows "\<exists>k s1 s2. key_to_sgx_ec256 L k0 key s = (True, k, s1) \<and>
     key_from_sgx_ec256 L k s1 = (Some \<lparr>has_ec = True, prv = None, pub = Some p\<rparr>, s2)"
  using assms
  by (cases p) (simp add: key_to_sgx_ec256_def key_from_sgx_ec256_def crypto_simps)

theorem sgx_key_roundtrip_witness:
  "\<exists>k s1 s2. key_to_sgx_ec256 (sample_lib (\<lambda>_. 1)) ([], []) \<lparr>has_ec = True, prv = None, pub = Some (7, 8)\<rparr>
        crypto_init = (True, k, s1) \<and>
     key_from_sgx_ec256 (sample_lib (\<lambda>_. 1)) k s1 =
       (Some \<lparr>has_ec = True, prv = None, pub = Some (7, 8)\<rparr>, s2)"
  by (rule sgx_key_roundtrip) (auto simp: sample_lib_def)

text \<open>
  When \<open>EC_KEY_set_public_key\<close> fails while a private key is loaded from hex text, the
  temporary point is released twice; the sixth library call (counting from 0) is that one.
\<close>

theorem key_load_double_free:
  assumes "length hs = 64" and "fst (hex2bn L hs) \<noteq> 0" and "calls s = 0" and "bad_free s = False"
    and "Ob_point \<notin> set (held s)" and "\<forall>n. ret L n = (if n = 6 then 0 else 1)"
  shows "case key_load L (Some hs) KEY_PRIVATE k s of (ok, k', s') \<Rightarrow> \<not> ok \<and> bad_free s'"
proof -
  obtain n gx where h: "hex2bn L hs = (n, gx)" "n \<noteq> 0" using assms(2) by (cases "hex2bn L hs") auto
  have r: "ret L n = (if n = 6 then 0 else 1)" for n using assms(6) by blast
  show ?thesis
    using assms(1,3-5)
    by (simp add: key_load_def h r must_ok must_fail call_def Let_def cong: must_outer)
      (simp add: acquire_def release_def release_if_def set_error_def no_error_def)
qed

theorem key_load_double_free_witness:
  "case key_load (sample_lib (\<lambda>n. if n = 6 then 0 else 1)) (Some (replicate 64 CHR ''a'')) KEY_PRIVATE
      None crypto_init of (ok, k', s') \<Rightarrow> \<not> ok \<and> bad_free s'"
  by (rule key_load_double_free) (simp_all add: sample_lib_def crypto_init_def)

text \<open>
  Only a return code of 0 counts as a failure of the key exchange: a library call that
  reports an error by a negative code (as the \<open>EVP_PKEY\<close> functions do for unsupported
  operations) is taken for success and the secret is used.
\<close>

theorem negative_codes_accepted:
  assumes "\<forall>n. ret L n < 0"
  shows "fst (key_shared_secret L key peer s) = Some (ecdh L key peer)"
proof -
  have "ret L n \<noteq> 0" for n using assms by (metis less_irrefl)
  then show ?thesis by (simp add: key_shared_secret_def crypto_simps)
qed

theorem negative_codes_accepted_witness:
  "fst (key_shared_secret (sample_lib (\<lambda>_. - 2)) new_pkey new_pkey crypto_init) = Some [1, 2, 3]"
  using negative_codes_accepted [of "sample_lib (\<lambda>_. - 2)" new_pkey new_pkey crypto_init]
  by (simp add: sample_lib_def)

end
