(* ===== verification/Fileio.thy ===== *)
theory Fileio
  imports Hexutil
begin

text \<open>
  The model of \<open>service-provider/fileio.c\<close>, \<open>logfile.c\<close> and \<open>common.cpp\<close>: reading and writing
  whole files, the log file, and the divider lines and messages of the programs.

  The file system is a map from names to contents; a name without contents cannot be opened
  for reading. \<open>Exited n\<close> is a call of \<open>exit(n)\<close>. A file that is written is created.
\<close>

type_synonym files = "string \<rightharpoonup> string"

datatype 'a outcome = Exited nat | Value 'a

section \<open>\<open>fileio.c\<close>\<close>

text \<open>\<open>from_file\<close> without a destination asks for the size.\<close>

definition from_file_size :: "files \<Rightarrow> string \<Rightarrow> nat \<Rightarrow> bool \<times> nat" where
  "from_file_size fs file len =
     (case fs file of None \<Rightarrow> (False, len) | Some text \<Rightarrow> (True, length text))"

text \<open>
  With a destination, whose content before the call is \<open>dest\<close>, it reads \<open>len\<close> characters; a
  shorter file leaves what was read in the destination and gives 0.
\<close>

definition from_file :: "files \<Rightarrow> string \<Rightarrow> nat \<Rightarrow> string \<Rightarrow> (bool \<times> string) outcome" where
  "from_file fs file len dest =
     (case fs file of None \<Rightarrow> Exited 1
      | Some text \<Rightarrow>
          let got = take len text in
          Value (len \<noteq> 0 \<and> len \<le> length text, got @ drop (length got) dest))"

text \<open>
  \<open>heap\<close> is the memory that follows the buffer of \<open>len * 2\<close> characters. The decoder is called
  for 16 bytes, whatever \<open>len\<close> is.
\<close>

definition from_hexstring_file ::
    "(nat \<Rightarrow> byte) \<Rightarrow> bool \<Rightarrow> string \<Rightarrow> files \<Rightarrow> string \<Rightarrow> nat \<Rightarrow> bool \<times> bytes" where
  "from_hexstring_file junk malloc_ok heap fs file len =
     (if \<not> malloc_ok then (False, [])
      else case fs file of None \<Rightarrow> (False, [])
      | Some text \<Rightarrow>
          if len * 2 \<noteq> 0 \<and> len * 2 \<le> length text
          then from_hexstring junk (take (len * 2) text @ heap) 16
          else (False, []))"

definition to_hexstring_file :: "bool \<Rightarrow> bytes \<Rightarrow> string \<Rightarrow> files \<Rightarrow> bool \<times> files" where
  "to_hexstring_file can_open src file fs =
     (if can_open then (True, fs(file \<mapsto> print_hexstring src)) else (False, fs))"

section \<open>\<open>logfile.c\<close> and \<open>common.cpp\<close>\<close>

text \<open>What was written to standard error and to the log, when there is one.\<close>

record logs =
  errlog :: string
  fplog :: "string option"

definition create_logfile :: "bool \<Rightarrow> logs \<Rightarrow> logs outcome" where
  "create_logfile can_open g = (if can_open then Value (g\<lparr>fplog := Some []\<rparr>) else Exited 1)"

definition close_logfile :: "string option \<Rightarrow> string option" where
  "close_logfile fp = (case fp of None \<Rightarrow> None | Some text \<Rightarrow> Some text)"

definition put_err :: "string \<Rightarrow> logs \<Rightarrow> logs" where
  "put_err s g = g\<lparr>errlog := errlog g @ s\<rparr>"

definition put_log :: "string \<Rightarrow> logs \<Rightarrow> logs" where
  "put_log s g = g\<lparr>fplog := map_option (\<lambda>t. t @ s) (fplog g)\<rparr>"

definition LINE_MAX_LEN :: nat where "LINE_MAX_LEN = 76"
definition LINE_SHORT_LEN :: nat where "LINE_SHORT_LEN = 4"

text \<open>The length of the trailing dashes is computed in \<open>size_t\<close>.\<close>

definition line_trailing_len :: "string \<Rightarrow> 64 word" where
  "line_trailing_len header =
     of_nat LINE_MAX_LEN - of_nat (length header) - of_nat LINE_SHORT_LEN - 2"

datatype 'a throwing = Length_error | Formed 'a

text \<open>\<open>std::string(n, c)\<close>, which throws when \<open>n\<close> is above \<open>max_size()\<close>.\<close>

definition string_fill :: "64 word \<Rightarrow> char \<Rightarrow> string throwing" where
  "string_fill n c = (if n > 2 ^ 63 - 1 then Length_error else Formed (replicate (unat n) c))"

definition line_header :: "string \<Rightarrow> string throwing" where
  "line_header header =
     (case string_fill (line_trailing_len header) CHR ''-'' of
        Length_error \<Rightarrow> Length_error
      | Formed trail \<Rightarrow> Formed (replicate LINE_SHORT_LEN CHR ''-'' @ '' '' @ header @ '' '' @ trail))"

definition dividerWithText :: "string \<Rightarrow> string throwing" where
  "dividerWithText text =
     (case line_header (cstr text) of Length_error \<Rightarrow> Length_error
      | Formed line \<Rightarrow> Formed ([LF] @ line @ [LF]))"

definition edividerWithText :: "string \<Rightarrow> logs \<Rightarrow> logs throwing" where
  "edividerWithText text g =
     (case dividerWithText text of Length_error \<Rightarrow> Length_error
      | Formed line \<Rightarrow> Formed (put_log line (put_err line g)))"

definition divider :: string where
  "divider = replicate LINE_MAX_LEN CHR ''-'' @ [LF]"

definition edivider :: "logs \<Rightarrow> logs" where
  "edivider g = put_log divider (put_err divider g)"

text \<open>
  \<open>eprintf\<close> with the formatted \<open>text\<close>. \<open>clock\<close> is the time stamp, \<open>None\<close> when \<open>localtime\<close>
  fails; the result is the number of characters of the last \<open>vfprintf\<close>.
\<close>

definition eprintf :: "string option \<Rightarrow> string \<Rightarrow> string \<Rightarrow> logs \<Rightarrow> nat \<times> logs" where
  "eprintf clock format text g =
     (let g1 = put_err text g in
      if fplog g = None then (length text, g1)
      else if format = [LF] then (length text, put_log text g1)
      else case clock of None \<Rightarrow> (0, g1)
        | Some stamp \<Rightarrow> (length text, put_log text (put_log (stamp @ '' '') g1)))"

definition eputs :: "string \<Rightarrow> logs \<Rightarrow> logs" where
  "eputs text g = put_log text (put_err text g)"

section \<open>Lemmas\<close>

lemma line_trailing_len_fits:
  "length h \<le> 70 \<Longrightarrow> line_trailing_len h = of_nat (70 - length h)"
  by (simp add: line_trailing_len_def LINE_MAX_LEN_def LINE_SHORT_LEN_def of_nat_diff)

lemma unat_of_nat_64: "k < 2 ^ 64 \<Longrightarrow> unat (of_nat k :: 64 word) = k"
  by (simp add: unsigned_of_nat take_bit_nat_eq_self)

lemma line_trailing_len_wraps:
  assumes "70 < length h" "length h \<le> 2 ^ 63"
  shows "line_trailing_len h > 2 ^ 63 - 1"
proof -
  have "line_trailing_len h = 70 - of_nat (length h)"
    by (simp add: line_trailing_len_def LINE_MAX_LEN_def LINE_SHORT_LEN_def)
  also have "\<dots> = - of_nat (length h - 70)"
    using assms(1) by (simp add: of_nat_diff)
  also have "\<dots> = of_nat k" if "k = 2 ^ 64 - (length h - 70)" for k
    using assms that by (simp add: of_nat_diff)
  moreover have "unat (of_nat k :: 64 word) = k" if "k = 2 ^ 64 - (length h - 70)" for k
    by (rule unat_of_nat_64) (use assms that in simp)
  ultimately have "unat (line_trailing_len h) = 2 ^ 64 - (length h - 70)" by metis
  then show ?thesis using assms by (simp add: word_less_nat_alt)
qed

section \<open>Properties\<close>

text \<open>
  A divider line is 76 characters wide for every heading of at most 70 characters, and
  a longer heading makes the length of its trailing dashes wrap around, so that the
  \<open>std::string\<close> constructor throws.
\<close>

theorem divider_line_width:
  "(length h \<le> 70 \<longrightarrow> (\<exists>line. line_header h = Formed line \<and> length line = LINE_MAX_LEN)) \<and>
   (70 < length h \<and> length h \<le> 2 ^ 63 \<longrightarrow> line_header h = Length_error)"
proof (intro conjI impI)
  assume h: "length h \<le> 70"
  have u: "unat (of_nat (70 - length h) :: 64 word) = 70 - length h"
    by (simp add: unsigned_of_nat take_bit_nat_eq_self)
  have "\<not> (of_nat (70 - length h) :: 64 word) > 2 ^ 63 - 1"
    by (simp add: word_less_nat_alt u)
  then show "\<exists>line. line_header h = Formed line \<and> length line = LINE_MAX_LEN"
    using h u by (simp add: line_header_def string_fill_def line_trailing_len_fits
        LINE_MAX_LEN_def LINE_SHORT_LEN_def)
next
  assume "70 < length h \<and> length h \<le> 2 ^ 63"
  then show "line_header h = Length_error"
    using line_trailing_len_wraps [of h] by (simp add: line_header_def string_fill_def)
qed

theorem divider_line_width_witness:
  "(\<exists>line. line_header ''Msg2 Details'' = Formed line \<and> length line = LINE_MAX_LEN) \<and>
   line_header (replicate 71 CHR ''x'') = Length_error"
  using divider_line_width [of "''Msg2 Details''"] divider_line_width [of "replicate 71 CHR ''x''"]
  by simp

text \<open>
  Data of any length written as a hex file is read back by \<open>from_hexstring_file\<close> only up to
  its first 16 bytes: that is the whole of an SPID, the only use in the program, but not of
  longer data, although the length is a parameter.
\<close>

theorem hexfile_reads_16_bytes:
  assumes "16 \<le> length src" and "to_hexstring_file True src file fs = (True, fs')"
  shows "from_hexstring_file junk True heap fs' file (length src) = (True, take 16 src)"
proof -
  have fs: "fs' file = Some (print_hexstring src)" using assms(2) by (auto simp: to_hexstring_file_def)
  have "print_hexstring src = print_hexstring (take 16 src) @ print_hexstring (drop 16 src)"
    by (metis append_take_drop_id hexc.enc_append)
  then have "from_hexstring junk (print_hexstring src @ heap) 16 = (True, take 16 src)"
    using assms(1) hexc.dec_enc [of junk "take 16 src" "print_hexstring (drop 16 src) @ heap"] by simp
  moreover have "print_hexstring src \<noteq> []" using assms(1) by (auto simp: hexc.enc_eq_Nil)
  ultimately show ?thesis
    using fs assms(1) hexc.enc_length [of src] by (auto simp: from_hexstring_file_def mult.commute)
qed

theorem hexfile_reads_16_bytes_witness:
  "from_hexstring_file (\<lambda>_. 0) True [] (Map.empty(''spid'' \<mapsto> print_hexstring (replicate 20 7))) ''spid''
     (length (replicate 20 (7 :: byte))) = (True, take 16 (replicate 20 7))"
  by (rule hexfile_reads_16_bytes [where fs = Map.empty]) (simp_all add: to_hexstring_file_def)

end
