(* ===== verification/Enclave_Verify.thy ===== *)
theory Enclave_Verify
  imports Prelude
begin

text \<open>
  The model of \<open>service-provider/enclave_verify.c\<close>: the service provider's policy on the
  identity of an attested enclave. The report body is the record of the fields the policy
  reads (its layout is defined by the SGX SDK, as is the mask \<open>SGX_FLAGS_DEBUG\<close> of the debug
  flag, the parameter \<open>dbg\<close>); what is printed is left out.
\<close>

type_synonym measurement = bytes

record report_body =
  mr_enclave :: measurement
  mr_signer :: measurement
  isv_prod_id :: "16 word"
  isv_svn :: "16 word"
  flags :: "64 word"
  report_data :: bytes

text \<open>\<open>memcmp\<close> of two arrays of the same size: the difference at the first unequal byte.\<close>

fun memcmp :: "bytes \<Rightarrow> bytes \<Rightarrow> int" where
  "memcmp (a # as) (b # bs) = (if a = b then memcmp as bs else uint a - uint b)"
| "memcmp _ _ = 0"

definition verify_enclave_identity ::
    "64 word \<Rightarrow> measurement \<Rightarrow> 16 word \<Rightarrow> 16 word \<Rightarrow> bool \<Rightarrow> report_body \<Rightarrow> bool" where
  "verify_enclave_identity dbg req_mr_signer req_isv_product_id min_isvsvn allow_debug report =
     (if \<not> allow_debug \<and> flags report AND dbg \<noteq> 0 then False
      else if isv_prod_id report \<noteq> req_isv_product_id then False
      else if isv_svn report < min_isvsvn then False
      else if memcmp (mr_signer report) req_mr_signer \<noteq> 0 then False
      else True)"

lemma memcmp_eq_0: "length a = length b \<Longrightarrow> memcmp a b = 0 \<longleftrightarrow> a = b"
  by (induction a b rule: list_induct2) (auto simp: word_uint_eq_iff)

text \<open>
  The enclaves the policy accepts: signed by the required signer, with the required product
  id, a security version of at least the minimum (as unsigned numbers), and no debug enclave
  unless these are allowed.
\<close>

definition acceptable ::
    "64 word \<Rightarrow> measurement \<Rightarrow> 16 word \<Rightarrow> 16 word \<Rightarrow> bool \<Rightarrow> report_body \<Rightarrow> bool" where
  "acceptable dbg signer product svn debug r \<longleftrightarrow>
     (flags r AND dbg = 0 \<or> debug) \<and> isv_prod_id r = product \<and> uint svn \<le> uint (isv_svn r) \<and>
     mr_signer r = signer"

lemma identity_policy:
  "length (mr_signer r) = length signer \<Longrightarrow>
   verify_enclave_identity dbg signer product svn debug r \<longleftrightarrow> acceptable dbg signer product svn debug r"
  using memcmp_eq_0 [of "mr_signer r" signer]
  by (auto simp: verify_enclave_identity_def acceptable_def word_less_def not_less)

end
