(* ===== verification/Ordmap.thy ===== *)
theory Ordmap
  imports Main
begin

text \<open>
  The ordered map \<open>std::map\<close>, which holds the members of a JSON object and the payload of a
  report request: an association list sorted by key, with insertion in order. The interface
  \<open>ordered_map\<close> states what its users rely on; it is interpreted on the association lists.
\<close>

text \<open>\<open>m[key] = value\<close>, which replaces the value of a key that is present.\<close>

fun put :: "'k::linorder \<Rightarrow> 'v \<Rightarrow> ('k \<times> 'v) list \<Rightarrow> ('k \<times> 'v) list" where
  "put k v [] = [(k, v)]"
| "put k v ((k', v') # m) =
     (if k < k' then (k, v) # (k', v') # m
      else if k = k' then (k, v) # m
      else (k', v') # put k v m)"

definition ordered :: "('k::linorder \<times> 'v) list \<Rightarrow> bool" where
  "ordered m \<longleftrightarrow> sorted_wrt (<) (map fst m)"

locale ordered_map =
  fixes mt :: 'm
    and ins :: "'k::linorder \<Rightarrow> 'v \<Rightarrow> 'm \<Rightarrow> 'm"
    and look :: "'m \<Rightarrow> 'k \<Rightarrow> 'v option"
    and items :: "'m \<Rightarrow> ('k \<times> 'v) list"
    and inv :: "'m \<Rightarrow> bool"
  assumes inv_mt: "inv mt"
    and inv_ins: "inv m \<Longrightarrow> inv (ins k v m)"
    and look_mt: "look mt k = None"
    and look_ins: "inv m \<Longrightarrow> look (ins k v m) k' = (if k' = k then Some v else look m k')"
    and look_items: "inv m \<Longrightarrow> look m k = map_of (items m) k"
    and items_ordered: "inv m \<Longrightarrow> sorted_wrt (<) (map fst (items m))"
    and items_mt: "items mt = []"
    and ins_greatest: "inv m \<Longrightarrow> \<forall>k' \<in> fst ` set (items m). k' < k \<Longrightarrow> items (ins k v m) = items m @ [(k, v)]"
begin

definition ins_all :: "('k \<times> 'v) list \<Rightarrow> 'm \<Rightarrow> 'm" where
  "ins_all kvs m = fold (\<lambda>(k, v). ins k v) kvs m"

lemma inv_ins_all: "inv m \<Longrightarrow> inv (ins_all kvs m)"
  by (induction kvs arbitrary: m) (auto simp: ins_all_def inv_ins)

text \<open>The last insertion of a key wins.\<close>

lemma look_ins_all:
  "inv m \<Longrightarrow> look (ins_all kvs m) k = (case map_of (rev kvs) k of Some v \<Rightarrow> Some v | None \<Rightarrow> look m k)"
proof (induction kvs arbitrary: m)
  case Nil
  then show ?case by (simp add: ins_all_def)
next
  case (Cons kv kvs)
  obtain k' v where kv: "kv = (k', v)" by (cases kv)
  have "look (ins_all (kv # kvs) m) k = look (ins_all kvs (ins k' v m)) k"
    by (simp add: ins_all_def kv)
  then show ?case
    using Cons.IH [OF inv_ins [OF Cons.prems, of k' v]] look_ins [OF Cons.prems, of k' v k]
    by (auto simp: kv map_add_def split: option.splits)
qed

text \<open>Inserting the items of a map in their order builds the map again.\<close>

lemma items_ins_all:
  "inv m \<Longrightarrow> sorted_wrt (<) (map fst (items m @ kvs)) \<Longrightarrow> items (ins_all kvs m) = items m @ kvs"
proof (induction kvs arbitrary: m)
  case Nil
  then show ?case by (simp add: ins_all_def)
next
  case (Cons kv kvs)
  obtain k v where kv: "kv = (k, v)" by (cases kv)
  have "\<forall>k' \<in> fst ` set (items m). k' < k"
    using Cons.prems(2) by (auto simp: kv sorted_wrt_append)
  then have it: "items (ins k v m) = items m @ [(k, v)]" by (rule ins_greatest [OF Cons.prems(1)])
  have "items (ins_all kvs (ins k v m)) = items (ins k v m) @ kvs"
    using Cons.IH [OF inv_ins [OF Cons.prems(1)]] Cons.prems(2) by (simp add: it kv)
  then show ?case by (simp add: ins_all_def kv it)
qed

lemma items_ins_all_mt:
  "sorted_wrt (<) (map fst kvs) \<Longrightarrow> items (ins_all kvs mt) = kvs"
  using items_ins_all [OF inv_mt] by (simp add: items_mt)

end

lemma set_put: "fst ` set (put k v m) = insert k (fst ` set m)"
  by (induction k v m rule: put.induct) (simp_all add: insert_commute)

lemma ordered_put: "ordered m \<Longrightarrow> ordered (put k v m)"
proof (induction m)
  case (Cons kv m)
  obtain k' v' where kv: "kv = (k', v')" by (cases kv)
  have "\<forall>x \<in> fst ` set m. k' < x" "ordered m" using Cons.prems by (auto simp: ordered_def kv)
  then show ?case
    using Cons.IH set_put [of k v m] by (auto simp: ordered_def kv)
qed (simp add: ordered_def)

lemma map_of_put: "map_of (put k v m) k' = (if k' = k then Some v else map_of m k')"
  by (induction k v m rule: put.induct) auto

lemma put_greatest: "\<forall>k' \<in> fst ` set m. k' < k \<Longrightarrow> put k v m = m @ [(k, v)]"
  by (induction m) (auto simp: less_le)

interpretation om: ordered_map "[]" put map_of "\<lambda>m. m" ordered
  by unfold_locales (simp_all add: ordered_put map_of_put put_greatest, simp_all add: ordered_def)

end
