(* ===== verification/Json.thy ===== *)
theory Json
  imports Prelude Ordmap "HOL-Library.List_Lexorder" "HOL-Library.Char_ord"
begin

text \<open>
  The model of \<open>service-provider/json.hpp\<close>: JSON values, their access functions, printing and
  parsing.

  The parser works on a string and an offset. A position is \<open>Some rest\<close> with the text from the
  offset on, where reading at the end gives the terminating NUL, or \<open>None\<close> beyond the end,
  where reading is undefined (\<open>J_undefined\<close>). The exceptions of \<open>std::stol\<close> and \<open>std::stod\<close>,
  which nobody catches, are \<open>J_throw\<close>. The mutually recursive functions carry fuel; enough fuel
  is shown to be twice the length of the text and a bit. A floating-point value is kept as the
  text of its mantissa and its exponent: the program never uses its value. The messages on
  standard error are left out.
\<close>

section \<open>Values\<close>

datatype json =
    JNull
  | JObject "(string \<times> json) list"
  | JArray "json list"
  | JString string
  | JFloating string int
  | JIntegral int
  | JBoolean bool

datatype json_class = C_Null | C_Object | C_Array | C_String | C_Floating | C_Integral | C_Boolean

fun json_type :: "json \<Rightarrow> json_class" where
  "json_type JNull = C_Null"
| "json_type (JObject m) = C_Object"
| "json_type (JArray vs) = C_Array"
| "json_type (JString s) = C_String"
| "json_type (JFloating m e) = C_Floating"
| "json_type (JIntegral i) = C_Integral"
| "json_type (JBoolean b) = C_Boolean"

text \<open>\<open>SetType\<close>: a value of another type is replaced by the empty value of the type.\<close>

fun json_make :: "json_class \<Rightarrow> json" where
  "json_make C_Null = JNull"
| "json_make C_Object = JObject []"
| "json_make C_Array = JArray []"
| "json_make C_String = JString []"
| "json_make C_Floating = JFloating ''0.0'' 0"
| "json_make C_Integral = JIntegral 0"
| "json_make C_Boolean = JBoolean False"

definition set_type :: "json_class \<Rightarrow> json \<Rightarrow> json" where
  "set_type c j = (if json_type j = c then j else json_make c)"

text \<open>\<open>operator[]\<close> on a key and on an index: the changed value, and the member.\<close>

definition at_key :: "string \<Rightarrow> json \<Rightarrow> json \<times> json" where
  "at_key k j = (case set_type C_Object j of
       JObject m \<Rightarrow> (case map_of m k of
           Some v \<Rightarrow> (JObject m, v)
         | None \<Rightarrow> (JObject (put k JNull m), JNull))
     | j' \<Rightarrow> (j', JNull))"

definition at_index :: "nat \<Rightarrow> json \<Rightarrow> json \<times> json" where
  "at_index i j = (case set_type C_Array j of
       JArray vs \<Rightarrow>
         (let vs' = (if i \<ge> length vs then vs @ replicate (Suc i - length vs) JNull else vs)
          in (JArray vs', vs' ! i))
     | j' \<Rightarrow> (j', JNull))"

definition append_value :: "json \<Rightarrow> json \<Rightarrow> json" where
  "append_value v j = (case set_type C_Array j of JArray vs \<Rightarrow> JArray (vs @ [v]) | j' \<Rightarrow> j')"

definition set_key :: "string \<Rightarrow> json \<Rightarrow> json \<Rightarrow> json" where
  "set_key k v j = (case set_type C_Object j of JObject m \<Rightarrow> JObject (put k v m) | j' \<Rightarrow> j')"

definition json_length :: "json \<Rightarrow> int" where
  "json_length j = (case j of JArray vs \<Rightarrow> int (length vs) | _ \<Rightarrow> -1)"

definition has_key :: "string \<Rightarrow> json \<Rightarrow> bool" where
  "has_key k j = (case j of JObject m \<Rightarrow> map_of m k \<noteq> None | _ \<Rightarrow> False)"

definition json_size :: "json \<Rightarrow> int" where
  "json_size j = (case j of JObject m \<Rightarrow> int (length m) | JArray vs \<Rightarrow> int (length vs) | _ \<Rightarrow> -1)"

abbreviation BS :: char where "BS \<equiv> CHR 0x08"
abbreviation FF :: char where "FF \<equiv> CHR 0x0C"

definition escape_char :: "char \<Rightarrow> string" where
  "escape_char c =
     (if c = DQUOTE then [BACKSLASH, DQUOTE]
      else if c = BACKSLASH then [BACKSLASH, BACKSLASH]
      else if c = BS then [BACKSLASH, CHR ''b'']
      else if c = FF then [BACKSLASH, CHR ''f'']
      else if c = LF then [BACKSLASH, CHR ''n'']
      else if c = CR then [BACKSLASH, CHR ''r'']
      else if c = TAB then [BACKSLASH, CHR ''t'']
      else [c])"

definition json_escape :: "string \<Rightarrow> string" where
  "json_escape s = concat (map escape_char s)"

definition to_string :: "json \<Rightarrow> string" where
  "to_string j = (case j of JString s \<Rightarrow> json_escape s | _ \<Rightarrow> [])"

definition to_int :: "json \<Rightarrow> int" where
  "to_int j = (case j of JIntegral i \<Rightarrow> i | _ \<Rightarrow> 0)"

definition to_bool :: "json \<Rightarrow> bool" where
  "to_bool j = (case j of JBoolean b \<Rightarrow> b | _ \<Rightarrow> False)"

definition is_null :: "json \<Rightarrow> bool" where
  "is_null j \<longleftrightarrow> json_type j = C_Null"

section \<open>Printing\<close>

definition pad :: "nat \<Rightarrow> string" where
  "pad depth = concat (replicate depth ''  '')"

text \<open>The members of an object or array, with their separators between them.\<close>

fun joined :: "string \<Rightarrow> string list \<Rightarrow> string" where
  "joined sep [] = []"
| "joined sep (x # xs) = x @ concat (map (\<lambda>y. sep @ y) xs)"

text \<open>\<open>show_float\<close> is \<open>std::to_string(double)\<close> of a mantissa and exponent.\<close>

fun dump :: "(string \<Rightarrow> int \<Rightarrow> string) \<Rightarrow> nat \<Rightarrow> json \<Rightarrow> string" where
  "dump sf d JNull = ''null''"
| "dump sf d (JObject m) =
     ''{'' @ [LF]
     @ joined ([CHR '','', LF])
         (map (\<lambda>(k, v). pad d @ [DQUOTE] @ k @ [DQUOTE] @ '' : '' @ dump sf (Suc d) v) m)
     @ [LF] @ drop 2 (pad d) @ ''}''"
| "dump sf d (JArray vs) = ''['' @ joined '', '' (map (dump sf (Suc d)) vs) @ '']''"
| "dump sf d (JString s) = [DQUOTE] @ json_escape s @ [DQUOTE]"
| "dump sf d (JFloating m e) = sf m e"
| "dump sf d (JIntegral i) = show_int i"
| "dump sf d (JBoolean b) = (if b then ''true'' else ''false'')"

section \<open>Parsing\<close>

type_synonym pos = "string option"

datatype 'a jres = J_ok 'a | J_throw std_error | J_undefined | J_fuel

definition jbind :: "'a jres \<Rightarrow> ('a \<Rightarrow> 'b jres) \<Rightarrow> 'b jres" where
  "jbind r f = (case r of J_ok x \<Rightarrow> f x | J_throw e \<Rightarrow> J_throw e | J_undefined \<Rightarrow> J_undefined | J_fuel \<Rightarrow> J_fuel)"

definition consume_ws :: "pos \<Rightarrow> string jres" where
  "consume_ws p = (case p of None \<Rightarrow> J_undefined | Some r \<Rightarrow> J_ok (dropWhile isspace r))"

definition hex_digit :: "char \<Rightarrow> bool" where
  "hex_digit c \<longleftrightarrow> is_digit_of 16 c"

definition unescape :: "char \<Rightarrow> char option" where
  "unescape e =
     (if e = DQUOTE \<or> e = BACKSLASH \<or> e = CHR ''/'' then Some e
      else if e = CHR ''b'' then Some BS
      else if e = CHR ''f'' then Some FF
      else if e = CHR ''n'' then Some LF
      else if e = CHR ''r'' then Some CR
      else if e = CHR ''t'' then Some TAB
      else None)"

text \<open>After the opening quote; \<open>acc\<close> is \<open>val\<close>.\<close>

fun parse_string :: "string \<Rightarrow> string \<Rightarrow> (json \<times> pos) jres" where
  "parse_string acc [] = J_undefined"
| "parse_string acc (c # cs) =
     (if c = DQUOTE then J_ok (JString acc, Some cs)
      else if c = BACKSLASH then
        (case cs of [] \<Rightarrow> J_undefined
         | e # cs' \<Rightarrow>
             (case unescape e of Some x \<Rightarrow> parse_string (acc @ [x]) cs'
              | None \<Rightarrow>
                if e = CHR ''u'' then
                  (case cs' of
                     h1 # h2 # h3 # h4 # cs'' \<Rightarrow>
                       if list_all hex_digit [h1, h2, h3, h4]
                       then parse_string (acc @ [BACKSLASH, CHR ''u'', h1, h2, h3, h4]) cs''
                       else J_ok (JString [], Some cs)
                   | _ \<Rightarrow> J_ok (JString [], Some cs))
                else parse_string (acc @ [BACKSLASH]) cs'))
      else parse_string (acc @ [c]) cs)"

definition number_end :: "char \<Rightarrow> bool" where
  "number_end c \<longleftrightarrow> isspace c \<or> c = CHR '','' \<or> c = CHR '']'' \<or> c = CHR ''}''"

definition mantissa_char :: "char \<Rightarrow> bool" where
  "mantissa_char c \<longleftrightarrow> isdigit c \<or> c = CHR ''-'' \<or> c = CHR ''.''"

text \<open>
  \<open>std::stod\<close> on a mantissa needs a digit after the sign, perhaps after a point. (Beyond the
  range of \<open>double\<close> it throws; such texts have more than 300 digits and are left out.)
\<close>

definition stod_ok :: "string \<Rightarrow> bool" where
  "stod_ok val =
     (let t = snd (take_sign val); u = (if t \<noteq> [] \<and> hd t = CHR ''.'' then tl t else t)
      in u \<noteq> [] \<and> isdigit (hd u))"

definition finish_number :: "string \<Rightarrow> int option \<Rightarrow> pos \<Rightarrow> (json \<times> pos) jres" where
  "finish_number val ex p =
     (if CHR ''.'' \<in> set val then
        (if stod_ok val then J_ok (JFloating val (case ex of Some e \<Rightarrow> e | None \<Rightarrow> 0), p)
         else J_throw Invalid_argument)
      else case stol val of Inl e \<Rightarrow> J_throw e
        | Inr i \<Rightarrow> (case ex of Some e \<Rightarrow> J_ok (JFloating val e, p) | None \<Rightarrow> J_ok (JIntegral i, p)))"

text \<open>
  The exponent, after the \<open>E\<close>: its first character is consumed without being used, and after a
  minus sign another one.
\<close>

definition parse_exponent :: "string \<Rightarrow> string \<Rightarrow> (json \<times> pos) jres" where
  "parse_exponent val cs =
     (case cs of [] \<Rightarrow> J_undefined
      | c # cs1 \<Rightarrow>
          let neg = (c = CHR ''-'') in
          if neg \<and> cs1 = [] then J_undefined
          else let t = (if neg then tl cs1 else cs1);
                   ds = takeWhile isdigit t; u = dropWhile isdigit t in
            if u = [] then J_ok (JNull, None)
            else if \<not> number_end (hd u) then J_ok (JNull, Some (tl u))
            else case stol ((if neg then ''-'' else []) @ ds) of
                Inl e \<Rightarrow> J_throw e
              | Inr e \<Rightarrow> finish_number val (Some e) (Some u))"

definition parse_number :: "string \<Rightarrow> (json \<times> pos) jres" where
  "parse_number r =
     (let val = takeWhile mantissa_char r; u = dropWhile mantissa_char r in
      if u = [] then J_ok (JNull, None)
      else if hd u = CHR ''E'' \<or> hd u = CHR ''e'' then parse_exponent val (tl u)
      else if \<not> number_end (hd u) then J_ok (JNull, Some (tl u))
      else finish_number val None (Some u))"

definition parse_bool :: "string \<Rightarrow> json \<times> pos" where
  "parse_bool r =
     (if take 4 r = ''true'' then (JBoolean True, Some (drop 4 r))
      else if take 5 r = ''false'' then (JBoolean False, Some (drop 5 r))
      else (JNull, Some r))"

definition parse_null :: "string \<Rightarrow> json \<times> pos" where
  "parse_null r = (if take 4 r \<noteq> ''null'' then (JNull, Some r) else (JNull, Some (drop 4 r)))"

definition next_is :: "char \<Rightarrow> string \<Rightarrow> bool" where
  "next_is c r \<longleftrightarrow> r \<noteq> [] \<and> hd r = c"

fun parse_next :: "nat \<Rightarrow> pos \<Rightarrow> (json \<times> pos) jres"
  and parse_array :: "nat \<Rightarrow> json list \<Rightarrow> pos \<Rightarrow> (json \<times> pos) jres"
  and parse_object :: "nat \<Rightarrow> (string \<times> json) list \<Rightarrow> pos \<Rightarrow> (json \<times> pos) jres" where
  "parse_next 0 p = J_fuel"
| "parse_next (Suc n) p = jbind (consume_ws p) (\<lambda>r.
     if next_is (CHR ''['') r then
       jbind (consume_ws (Some (tl r))) (\<lambda>r1.
         if next_is (CHR '']'') r1 then J_ok (JArray [], Some (tl r1)) else parse_array n [] (Some r1))
     else if next_is (CHR ''{'') r then
       jbind (consume_ws (Some (tl r))) (\<lambda>r1.
         if next_is (CHR ''}'') r1 then J_ok (JObject [], Some (tl r1)) else parse_object n [] (Some r1))
     else if next_is DQUOTE r then parse_string [] (tl r)
     else if next_is (CHR ''t'') r \<or> next_is (CHR ''f'') r then J_ok (parse_bool r)
     else if next_is (CHR ''n'') r then J_ok (parse_null r)
     else if r \<noteq> [] \<and> (isdigit (hd r) \<or> hd r = CHR ''-'') then parse_number r
     else J_ok (JNull, Some r))"
| "parse_array 0 vs p = J_fuel"
| "parse_array (Suc n) vs p =
     jbind (parse_next n p) (\<lambda>(v, p1). jbind (consume_ws p1) (\<lambda>r.
       if next_is (CHR '','') r then parse_array n (vs @ [v]) (Some (tl r))
       else if next_is (CHR '']'') r then J_ok (JArray (vs @ [v]), Some (tl r))
       else J_ok (JArray [], Some r)))"
| "parse_object 0 m p = J_fuel"
| "parse_object (Suc n) m p =
     jbind (parse_next n p) (\<lambda>(k, p1). jbind (consume_ws p1) (\<lambda>r.
       if next_is (CHR '':'') r then
         jbind (consume_ws (Some (tl r))) (\<lambda>r1.
         jbind (parse_next n (Some r1)) (\<lambda>(v, p2). jbind (consume_ws p2) (\<lambda>r2.
           let m' = put (to_string k) v m in
           if next_is (CHR '','') r2 then parse_object n m' (Some (tl r2))
           else if next_is (CHR ''}'') r2 then J_ok (JObject m', Some (tl r2))
           else J_ok (JObject m', Some r2))))
       else J_ok (JObject m, Some r)))"

definition enough :: "string \<Rightarrow> nat" where
  "enough s = 2 * length s + 3"

definition load :: "string \<Rightarrow> json jres" where
  "load s = jbind (parse_next (enough s) (Some s)) (\<lambda>(j, p). J_ok j)"

section \<open>Fuel\<close>

definition psize :: "pos \<Rightarrow> nat" where
  "psize p = (case p of None \<Rightarrow> 0 | Some r \<Rightarrow> length r)"

definition within :: "nat \<Rightarrow> (json \<times> pos) jres \<Rightarrow> bool" where
  "within k r \<longleftrightarrow> (\<forall>j p. r = J_ok (j, p) \<longrightarrow> psize p \<le> k)"

lemma psize_simps [simp]: "psize None = 0" "psize (Some r) = length r"
  by (simp_all add: psize_def)

lemma jbind_simps [simp]:
  "jbind (J_ok x) f = f x" "jbind (J_throw e) f = J_throw e" "jbind J_undefined f = J_undefined"
  "jbind J_fuel f = J_fuel"
  by (simp_all add: jbind_def)

lemma jbind_eq_fuel: "jbind r f = J_fuel \<longleftrightarrow> r = J_fuel \<or> (\<exists>x. r = J_ok x \<and> f x = J_fuel)"
  by (cases r) simp_all

lemma jbind_eq_ok: "jbind r f = J_ok y \<longleftrightarrow> (\<exists>x. r = J_ok x \<and> f x = J_ok y)"
  by (cases r) simp_all

lemma consume_ws_ok: "consume_ws p = J_ok r \<Longrightarrow> length r \<le> psize p"
  by (auto simp: consume_ws_def length_dropWhile_le split: option.splits)

lemma consume_ws_no_fuel [simp]: "consume_ws p \<noteq> J_fuel"
  by (simp add: consume_ws_def split: option.splits)

lemma next_is_length: "next_is c r \<Longrightarrow> length (tl r) < length r"
  by (cases r) (simp_all add: next_is_def)

lemma within_ok [simp]: "within k (J_ok (j, p)) \<longleftrightarrow> psize p \<le> k"
  by (simp add: within_def)

lemma within_other [simp]: "within k (J_throw e)" "within k J_undefined" "within k J_fuel"
  by (simp_all add: within_def)

lemma within_mono: "within k r \<Longrightarrow> k \<le> k' \<Longrightarrow> within k' r"
  by (auto simp: within_def)

lemma within_bind: "(\<And>x. r = J_ok x \<Longrightarrow> within k (f x)) \<Longrightarrow> within k (jbind r f)"
  by (cases r) simp_all

definition proper :: "nat \<Rightarrow> (json \<times> pos) jres \<Rightarrow> bool" where
  "proper k r \<longleftrightarrow> r \<noteq> J_fuel \<and> within k r"

lemma proper_ok [simp]: "proper k (J_ok (j, p)) \<longleftrightarrow> psize p \<le> k" "proper k J_undefined"
  by (simp_all add: proper_def)

lemma proper_mono: "proper k r \<Longrightarrow> k \<le> k' \<Longrightarrow> proper k' r"
  by (auto simp: proper_def intro: within_mono)

lemma parse_string_proper: "proper (length cs) (parse_string acc cs)"
proof (induction cs arbitrary: acc rule: length_induct)
  case (1 cs)
  then have IH: "proper k (parse_string acc ys)" if "length ys < length cs" "length ys \<le> k" for k ys acc
    using that proper_mono by blast
  show ?case
  proof (cases cs)
    case (Cons c cs1)
    have plain: "proper (length cs) (parse_string a cs1)" for a using Cons by (intro IH) auto
    show ?thesis
    proof (cases "c = BACKSLASH \<and> cs1 \<noteq> []")
      case True
      then obtain e cs2 where cs1: "cs1 = e # cs2" by (cases cs1) auto
      have two: "proper (length cs) (parse_string a cs2)" for a using Cons cs1 by (intro IH) auto
      have four: "proper (length cs) (case cs2 of
            h1 # h2 # h3 # h4 # cs'' \<Rightarrow>
              if list_all hex_digit [h1, h2, h3, h4]
              then parse_string (acc @ [BACKSLASH, CHR ''u'', h1, h2, h3, h4]) cs''
              else J_ok (JString [], Some (e # cs2))
          | _ \<Rightarrow> J_ok (JString [], Some (e # cs2)))"
        using Cons cs1 by (auto split: list.splits intro!: IH)
      show ?thesis
      proof (cases "unescape e")
        case None
        then have "parse_string acc cs = (if e = CHR ''u'' then (case cs2 of
            h1 # h2 # h3 # h4 # cs'' \<Rightarrow>
              if list_all hex_digit [h1, h2, h3, h4]
              then parse_string (acc @ [BACKSLASH, CHR ''u'', h1, h2, h3, h4]) cs''
              else J_ok (JString [], Some (e # cs2))
          | _ \<Rightarrow> J_ok (JString [], Some (e # cs2))) else parse_string (acc @ [BACKSLASH]) cs2)"
          unfolding Cons cs1 parse_string.simps using True by (simp only: list.case option.case) simp
        then show ?thesis using two four by simp
      next
        case (Some x)
        then show ?thesis unfolding Cons cs1 using True two [of "acc @ [x]"] by (simp add: Cons cs1)
      qed
    next
      case False
      then show ?thesis using Cons plain by auto
    qed
  qed simp
qed

lemma parse_string_within: "within (length cs) (parse_string acc cs)"
  using parse_string_proper [of cs acc] by (simp add: proper_def)

lemma parse_string_fuel [simp]: "parse_string acc cs \<noteq> J_fuel"
  using parse_string_proper [of cs acc] by (simp add: proper_def)

lemma finish_number_within: "within (psize p) (finish_number val ex p)"
  by (simp add: finish_number_def split: sum.splits option.splits)

lemma parse_number_within: "within (length r) (parse_number r)"
proof -
  have d: "length (dropWhile P t) \<le> length t" for P :: "char \<Rightarrow> bool" and t
    by (rule length_dropWhile_le)
  let ?u = "dropWhile mantissa_char r"
  have e: "within (length cs) (parse_exponent val cs)" for val cs
  proof (cases cs)
    case (Cons c cs1)
    let ?t = "if c = CHR ''-'' then tl cs1 else cs1"
    have "length (dropWhile isdigit ?t) \<le> length cs" using d [of isdigit ?t] Cons by (simp split: if_splits)
    then show ?thesis
      using finish_number_within [THEN within_mono]
      by (auto simp: parse_exponent_def Cons Let_def split: sum.splits)
  qed (simp add: parse_exponent_def)
  have "within (length r) (parse_exponent val (tl ?u))" for val
    using d [of mantissa_char r] by (intro within_mono [OF e]) simp
  moreover have "within (length r) (finish_number val None (Some ?u))" for val
    using d [of mantissa_char r] by (intro within_mono [OF finish_number_within]) simp
  moreover have "length (tl ?u) \<le> length r" using d [of mantissa_char r] by simp
  ultimately show ?thesis by (auto simp: parse_number_def Let_def simp del: length_tl)
qed

lemma parse_bool_null_within:
  "within (length r) (J_ok (parse_bool r))" "within (length r) (J_ok (parse_null r))"
  by (simp_all add: parse_bool_def parse_null_def)

lemma within_ws:
  "psize p \<le> k \<Longrightarrow> (\<And>r. length r \<le> k \<Longrightarrow> within k (f r)) \<Longrightarrow> within k (jbind (consume_ws p) f)"
  using consume_ws_ok by (fastforce intro: within_bind)

lemma within_value:
  "within k x \<Longrightarrow> (\<And>v p. psize p \<le> k \<Longrightarrow> within k (f v p)) \<Longrightarrow> within k (jbind x (\<lambda>(v, p). f v p))"
  by (rule within_bind) (auto simp: within_def)

lemma within_tl: "length r \<le> k \<Longrightarrow> length (tl r) \<le> k"
  by simp

lemma parse_within:
  "within (psize p) (parse_next n p)"
  "within (psize p) (parse_array n vs p)"
  "within (psize p) (parse_object n m p)"
proof (induction n p and n vs p and n m p rule: parse_next_parse_array_parse_object.induct)
  case (2 n p)
  show ?case
    unfolding parse_next.simps
  proof (rule within_ws)
    fix r :: string assume l: "length r \<le> psize p"
    have "within (psize p) (parse_string [] (tl r))"
      using l by (intro within_mono [OF parse_string_within]) simp
    moreover have "within (psize p) (parse_number r)" "within (psize p) (J_ok (parse_bool r))"
      "within (psize p) (J_ok (parse_null r))"
      using l parse_number_within parse_bool_null_within within_mono by blast+
    moreover have "within (psize p) (jbind (consume_ws (Some (tl r))) (\<lambda>r1. if next_is CHR '']'' r1
                then J_ok (JArray [], Some (tl r1)) else parse_array n [] (Some r1)))" if c: "next_is CHR ''['' r"
    proof (rule within_ws)
      show "within (psize p) (if next_is CHR '']'' t then J_ok (JArray [], Some (tl t))
          else parse_array n [] (Some t))" if "length t \<le> psize p" for t
        using that within_mono [OF 2(1) [OF c], of t "psize p"] by (cases "next_is CHR '']'' t") auto
    qed (use l in simp)
    moreover have "within (psize p) (jbind (consume_ws (Some (tl r))) (\<lambda>r1. if next_is CHR ''}'' r1
                then J_ok (JObject [], Some (tl r1)) else parse_object n [] (Some r1)))"
      if c: "\<not> next_is CHR ''['' r" "next_is CHR ''{'' r"
    proof (rule within_ws)
      show "within (psize p) (if next_is CHR ''}'' t then J_ok (JObject [], Some (tl t))
          else parse_object n [] (Some t))" if "length t \<le> psize p" for t
        using that within_mono [OF 2(2) [OF c], of t "psize p"] by (cases "next_is CHR ''}'' t") auto
    qed (use l in simp)
    ultimately show "within (psize p) (if next_is CHR ''['' r
          then jbind (consume_ws (Some (tl r))) (\<lambda>r1. if next_is CHR '']'' r1
                then J_ok (JArray [], Some (tl r1)) else parse_array n [] (Some r1))
          else if next_is CHR ''{'' r
               then jbind (consume_ws (Some (tl r))) (\<lambda>r1. if next_is CHR ''}'' r1
                then J_ok (JObject [], Some (tl r1)) else parse_object n [] (Some r1))
               else if next_is DQUOTE r then parse_string [] (tl r)
                    else if next_is CHR ''t'' r \<or> next_is CHR ''f'' r then J_ok (parse_bool r)
                         else if next_is CHR ''n'' r then J_ok (parse_null r)
                              else if r \<noteq> [] \<and> (isdigit (hd r) \<or> hd r = CHR ''-'')
                                   then parse_number r else J_ok (JNull, Some r))"
      using l by (simp only: if_splits(1)) simp
  qed simp
next
  case (4 n vs p)
  show ?case
    unfolding parse_array.simps
    by (intro within_value within_ws 4(1)) (auto intro: within_mono [OF 4(2)])
next
  case (6 n m p)
  have v: "within (psize p) (parse_next n (Some t))" if "length t \<le> psize p" "next_is CHR '':'' r" for t r
    using within_mono [OF 6(2) [OF that(2)]] that(1) by simp
  have ob: "within (psize p) (parse_object n (put (to_string k) w m) (Some (tl r2)))"
    if "length r2 \<le> psize p" "next_is CHR '':'' r" "next_is CHR '','' r2" for r r2 k w
    using within_mono [OF 6(3) [OF that(2) refl that(3)], of "psize p" k w] that(1) by simp
  show ?case
    unfolding parse_object.simps Let_def
    by (intro within_value within_ws 6(1)) (auto intro!: within_value within_ws v ob)
qed simp_all

lemma finish_number_fuel [simp]: "finish_number val ex p \<noteq> J_fuel"
  by (simp add: finish_number_def split: sum.split option.split)

lemma parse_number_fuel [simp]: "parse_number r \<noteq> J_fuel"
  by (simp add: parse_number_def parse_exponent_def Let_def split: sum.split list.split)

lemma nofuel_bind: "r \<noteq> J_fuel \<Longrightarrow> (\<And>x. r = J_ok x \<Longrightarrow> f x \<noteq> J_fuel) \<Longrightarrow> jbind r f \<noteq> J_fuel"
  by (auto simp: jbind_eq_fuel)

lemma nofuel_ws:
  "psize p \<le> k \<Longrightarrow> (\<And>r. length r \<le> k \<Longrightarrow> f r \<noteq> J_fuel) \<Longrightarrow> jbind (consume_ws p) f \<noteq> J_fuel"
  using consume_ws_ok le_trans by (fastforce simp: jbind_eq_fuel)

lemma nofuel_value:
  "parse_next n p \<noteq> J_fuel \<Longrightarrow> psize p \<le> k \<Longrightarrow> (\<And>v q. psize q \<le> k \<Longrightarrow> f v q \<noteq> J_fuel) \<Longrightarrow>
   jbind (parse_next n p) (\<lambda>(v, q). f v q) \<noteq> J_fuel"
  using parse_within(1) [of p n] le_trans by (fastforce simp: jbind_eq_fuel within_def)

lemma parse_fuel:
  "2 * psize p + 2 \<le> n \<Longrightarrow> parse_next n p \<noteq> J_fuel"
  "2 * psize p + 3 \<le> n \<Longrightarrow> parse_array n vs p \<noteq> J_fuel"
  "2 * psize p + 3 \<le> n \<Longrightarrow> parse_object n m p \<noteq> J_fuel"
proof (induction n arbitrary: p vs m)
  case (Suc n)
  {
    case 1
    have sub: "parse_array n vs (Some r1) \<noteq> J_fuel" "parse_object n m (Some r1) \<noteq> J_fuel"
      if "length r1 \<le> length (tl r)" "length r \<le> psize p" "r \<noteq> []" for r1 r vs m
    proof -
      have "2 * length r1 + 3 \<le> n" using that 1 by (cases r) auto
      then show "parse_array n vs (Some r1) \<noteq> J_fuel" "parse_object n m (Some r1) \<noteq> J_fuel"
        using Suc(2,3) [of "Some r1"] by simp_all
    qed
    have ne: "next_is c r \<Longrightarrow> r \<noteq> []" for c r by (simp add: next_is_def)
    show ?case
      unfolding parse_next.simps
    proof (rule nofuel_ws [where k = "psize p"])
      fix r :: string assume r: "length r \<le> psize p"
      have "jbind (consume_ws (Some (tl r))) (\<lambda>r1. if next_is CHR '']'' r1
          then J_ok (JArray [], Some (tl r1)) else parse_array n [] (Some r1)) \<noteq> J_fuel" if "r \<noteq> []"
        using r that sub(1) by (intro nofuel_ws [where k = "length (tl r)"]) auto
      moreover have "jbind (consume_ws (Some (tl r))) (\<lambda>r1. if next_is CHR ''}'' r1
          then J_ok (JObject [], Some (tl r1)) else parse_object n [] (Some r1)) \<noteq> J_fuel" if "r \<noteq> []"
        using r that sub(2) by (intro nofuel_ws [where k = "length (tl r)"]) auto
      ultimately show "(if next_is CHR ''['' r
          then jbind (consume_ws (Some (tl r))) (\<lambda>r1. if next_is CHR '']'' r1
                then J_ok (JArray [], Some (tl r1)) else parse_array n [] (Some r1))
          else if next_is CHR ''{'' r
               then jbind (consume_ws (Some (tl r))) (\<lambda>r1. if next_is CHR ''}'' r1
                then J_ok (JObject [], Some (tl r1)) else parse_object n [] (Some r1))
               else if next_is DQUOTE r then parse_string [] (tl r)
                    else if next_is CHR ''t'' r \<or> next_is CHR ''f'' r then J_ok (parse_bool r)
                         else if next_is CHR ''n'' r then J_ok (parse_null r)
                              else if r \<noteq> [] \<and> (isdigit (hd r) \<or> hd r = CHR ''-'')
                                   then parse_number r else J_ok (JNull, Some r)) \<noteq> J_fuel"
        using ne by simp
    qed simp
  next
    case 2
    have v: "parse_next n p \<noteq> J_fuel" using 2 by (intro Suc(1)) simp
    have a: "parse_array n vs (Some (tl r)) \<noteq> J_fuel" if "length r \<le> psize p" "next_is CHR '','' r" for r vs
      using that 2 next_is_length [OF that(2)] by (intro Suc(2)) simp
    show ?case
      unfolding parse_array.simps
      by (intro nofuel_value [where k = "psize p"] nofuel_ws [where k = "psize p"] v) (auto simp: a)
  next
    case 3
    have v: "parse_next n p \<noteq> J_fuel" using 3 by (intro Suc(1)) simp
    have v': "parse_next n (Some t) \<noteq> J_fuel" if "length t \<le> psize p" for t
      using that 3 by (intro Suc(1)) simp
    have o': "parse_object n m (Some (tl r)) \<noteq> J_fuel" if "length r \<le> psize p" "next_is CHR '','' r" for r m
      using that 3 next_is_length [OF that(2)] by (intro Suc(3)) simp
    have member: "jbind (consume_ws (Some (tl r))) (\<lambda>r1. jbind (parse_next n (Some r1)) (\<lambda>(v, p2).
        jbind (consume_ws p2) (\<lambda>r2.
          if next_is CHR '','' r2 then parse_object n (put (to_string k) v m) (Some (tl r2))
          else if next_is CHR ''}'' r2 then J_ok (JObject (put (to_string k) v m), Some (tl r2))
          else J_ok (JObject (put (to_string k) v m), Some r2)))) \<noteq> J_fuel"
      if "length r \<le> psize p" for r k
      using that
      by (intro nofuel_ws [where k = "psize p"] nofuel_value [where k = "psize p"]) (auto simp: v' o')
    show ?case
      unfolding parse_object.simps Let_def
      by (intro nofuel_value [where k = "psize p"] nofuel_ws [where k = "psize p"] v)
        (auto simp: member)
  }
qed simp_all

lemma load_fuel: "load s \<noteq> J_fuel"
  using parse_fuel(1) [of "Some s" "enough s"]
  by (auto simp: load_def enough_def jbind_eq_fuel)

section \<open>Reading back what was printed\<close>

text \<open>
  The values that can be read back: integers in the range of \<open>long\<close>, no floating-point numbers,
  members in the order of their keys (as \<open>std::map\<close> keeps them), and keys without characters
  that \<open>ToString\<close> escapes (keys are stored escaped and printed as they are).
\<close>

fun printable :: "json \<Rightarrow> bool" where
  "printable JNull = True"
| "printable (JObject m) =
     (ordered m \<and> (\<forall>(k, v) \<in> set m. json_escape k = k \<and> printable v))"
| "printable (JArray vs) = (\<forall>v \<in> set vs. printable v)"
| "printable (JString s) = True"
| "printable (JFloating m e) = False"
| "printable (JIntegral i) = long_range i"
| "printable (JBoolean b) = True"

lemma parse_string_escape:
  "parse_string acc (json_escape s @ DQUOTE # rest) = J_ok (JString (acc @ s), Some rest)"
proof (induction s arbitrary: acc)
  case (Cons c s)
  then show ?case by (simp add: json_escape_def escape_char_def unescape_def)
qed (simp add: json_escape_def)

lemma escape_not_space: "\<not> isspace DQUOTE" "\<not> isspace CHR ''{''" "\<not> isspace CHR ''['' "
  "\<not> isspace CHR ''n''" "\<not> isspace CHR ''t''" "\<not> isspace CHR ''f''" "\<not> isspace CHR '']''"
  "\<not> isspace CHR ''}''" "\<not> isspace CHR '',''" "\<not> isspace CHR '':''" "isspace SPC" "isspace LF"
  by (simp_all add: char_class)

lemma show_int_hd: "\<exists>c cs. show_int i = c # cs \<and> (isdigit c \<or> c = CHR ''-'')"
  using hd_show_nat [of "nat i"]
  by (cases "show_nat (nat i)") (auto simp: show_int_def)

lemma show_int_mantissa: "\<forall>c \<in> set (show_int i). isdigit c \<or> c = CHR ''-''"
  using show_nat_isdigit by (auto simp: show_int_def)

lemma dump_hd:
  "printable j \<Longrightarrow> \<exists>c cs. dump sf d j = c # cs \<and> \<not> isspace c"
  using show_int_hd [of "case j of JIntegral i \<Rightarrow> i | _ \<Rightarrow> 0"]
  by (cases j) (auto simp: escape_not_space minus_not_space isdigit_not_space)

lemma skip_ws: "list_all isspace w \<Longrightarrow> r = [] \<or> \<not> isspace (hd r) \<Longrightarrow> dropWhile isspace (w @ r) = r"
  by (rule dropWhile_all_append) (auto simp: list_all_iff)

lemma dump_ws:
  "printable j \<Longrightarrow> list_all isspace w \<Longrightarrow> dropWhile isspace (w @ dump sf d j @ rest) = dump sf d j @ rest"
  using dump_hd [of j sf d] by (intro skip_ws) auto

text \<open>The text after a value ends it: only numbers need that.\<close>

definition ends :: "json \<Rightarrow> string \<Rightarrow> bool" where
  "ends j rest \<longleftrightarrow> (case j of JIntegral i \<Rightarrow> rest \<noteq> [] \<and> number_end (hd rest) | _ \<Rightarrow> True)"

definition reads :: "(string \<Rightarrow> int \<Rightarrow> string) \<Rightarrow> json \<Rightarrow> bool" where
  "reads sf j \<longleftrightarrow> (\<forall>d n w rest. list_all isspace w \<and> ends j rest \<and> 2 * length (dump sf d j) + 2 \<le> n \<longrightarrow>
     parse_next n (Some (w @ dump sf d j @ rest)) = J_ok (j, Some rest))"

lemma readsD:
  "reads sf j \<Longrightarrow> list_all isspace w \<Longrightarrow> rest \<noteq> [] \<and> number_end (hd rest) \<Longrightarrow>
   2 * length (dump sf d j) + 2 \<le> n \<Longrightarrow>
   parse_next n (Some (w @ dump sf d j @ rest)) = J_ok (j, Some rest)"
  by (auto simp: reads_def ends_def split: json.splits)

lemma number_end_chars: "number_end CHR '',''" "number_end CHR '']''" "number_end CHR ''}''" "number_end LF"
  by (simp_all add: number_end_def escape_not_space)

lemma joined_Cons: "xs \<noteq> [] \<Longrightarrow> joined sep (x # xs) = x @ sep @ joined sep xs"
  by (cases xs) simp_all

lemma parse_array_dump:
  "\<forall>v \<in> set vs. reads sf v \<Longrightarrow> vs \<noteq> [] \<Longrightarrow> list_all isspace w \<Longrightarrow>
   2 * length (joined '', '' (map (dump sf d) vs)) + 3 \<le> n \<Longrightarrow>
   parse_array n acc (Some (w @ joined '', '' (map (dump sf d) vs) @ CHR '']'' # rest)) =
     J_ok (JArray (acc @ vs), Some rest)"
proof (induction vs arbitrary: acc w n)
  case (Cons v vs)
  obtain n' where n: "n = Suc n'" using Cons.prems(4) by (cases n) auto
  show ?case
  proof (cases "vs = []")
    case True
    then have "parse_next n' (Some (w @ dump sf d v @ CHR '']'' # rest)) = J_ok (v, Some (CHR '']'' # rest))"
      using Cons.prems n by (intro readsD) (auto simp: number_end_chars)
    with True show ?thesis
      by (simp add: n consume_ws_def next_is_def escape_not_space)
  next
    case False
    let ?J = "joined '', '' (map (dump sf d) vs)"
    have j: "joined '', '' (map (dump sf d) (v # vs)) = dump sf d v @ '', '' @ ?J"
      using False joined_Cons [of "map (dump sf d) vs" "'', ''" "dump sf d v"] by simp
    have "parse_next n' (Some (w @ dump sf d v @ '', '' @ ?J @ CHR '']'' # rest)) =
        J_ok (v, Some ('', '' @ ?J @ CHR '']'' # rest))"
      using Cons.prems n j by (intro readsD) (auto simp: number_end_chars)
    moreover have "parse_array n' (acc @ [v]) (Some ('' '' @ ?J @ CHR '']'' # rest)) =
        J_ok (JArray ((acc @ [v]) @ vs), Some rest)"
      using Cons.prems n j False by (intro Cons.IH) (auto simp: escape_not_space)
    ultimately show ?thesis
      using j by (simp add: n consume_ws_def next_is_def escape_not_space)
  qed
qed simp

lemma pad_space: "list_all isspace (pad d)" "list_all isspace (drop 2 (pad d))"
proof -
  show p: "list_all isspace (pad d)" by (induction d) (simp_all add: pad_def escape_not_space)
  then show "list_all isspace (drop 2 (pad d))" by (auto simp: list_all_iff dest: in_set_dropD)
qed

definition member :: "(string \<Rightarrow> int \<Rightarrow> string) \<Rightarrow> nat \<Rightarrow> string \<times> json \<Rightarrow> string" where
  "member sf d = (\<lambda>(k, v). pad d @ [DQUOTE] @ k @ [DQUOTE] @ '' : '' @ dump sf (Suc d) v)"

text \<open>Reading one member, up to the text after its value.\<close>

lemma parse_member:
  assumes "reads sf v" "printable v" "json_escape k = k" "list_all isspace w"
    and "rest \<noteq> [] \<and> number_end (hd rest)" "2 * length (member sf d (k, v)) + 2 \<le> n"
  shows "parse_next n (Some (w @ member sf d (k, v) @ rest)) =
       J_ok (JString k, Some ('' : '' @ dump sf (Suc d) v @ rest))"
    and "dropWhile isspace ('' '' @ dump sf (Suc d) v @ rest) = dump sf (Suc d) v @ rest"
    and "parse_next n (Some (dump sf (Suc d) v @ rest)) = J_ok (v, Some rest)"
proof -
  obtain n' where n: "n = Suc n'" using assms(6) by (cases n) auto
  have "dropWhile isspace ((w @ pad d) @ [DQUOTE] @ k @ [DQUOTE] @ '' : '' @ dump sf (Suc d) v @ rest) =
      [DQUOTE] @ k @ [DQUOTE] @ '' : '' @ dump sf (Suc d) v @ rest"
    using assms(4) pad_space(1) [of d] by (intro skip_ws) (auto simp: escape_not_space)
  moreover have "parse_string [] (k @ DQUOTE # '' : '' @ dump sf (Suc d) v @ rest) =
      J_ok (JString k, Some ('' : '' @ dump sf (Suc d) v @ rest))"
    using parse_string_escape [of "[]" k] assms(3) by simp
  ultimately show "parse_next n (Some (w @ member sf d (k, v) @ rest)) =
       J_ok (JString k, Some ('' : '' @ dump sf (Suc d) v @ rest))"
    by (simp add: n member_def consume_ws_def next_is_def)
  show "dropWhile isspace ('' '' @ dump sf (Suc d) v @ rest) = dump sf (Suc d) v @ rest"
    using assms(2) by (intro dump_ws) (simp_all add: escape_not_space)
  show "parse_next n (Some (dump sf (Suc d) v @ rest)) = J_ok (v, Some rest)"
    using readsD [OF assms(1), of "[]" rest "Suc d" n] assms(5,6) by (simp add: member_def)
qed

lemma parse_object_dump:
  "\<forall>(k, v) \<in> set m. reads sf v \<and> printable v \<and> json_escape k = k \<Longrightarrow> m \<noteq> [] \<Longrightarrow>
   list_all isspace w \<Longrightarrow> list_all isspace w2 \<Longrightarrow>
   2 * length (joined [CHR '','', LF] (map (member sf d) m)) + 3 \<le> n \<Longrightarrow>
   parse_object n m0 (Some (w @ joined [CHR '','', LF] (map (member sf d) m) @ LF # w2 @ CHR ''}'' # rest)) =
     J_ok (JObject (om.ins_all m m0), Some rest)"
proof (induction m arbitrary: m0 w n)
  case (Cons kv m)
  obtain k v where kv: "kv = (k, v)" by (cases kv)
  obtain n' where n: "n = Suc n'" using Cons.prems(5) by (cases n) auto
  have kvp: "reads sf v" "printable v" "json_escape k = k" using Cons.prems(1) kv by auto
  have key: "to_string (JString k) = k" using kvp(3) by (simp add: to_string_def)
  let ?J = "joined [CHR '','', LF] (map (member sf d) m)"
  let ?tail = "LF # w2 @ CHR ''}'' # rest"
  show ?case
  proof (cases "m = []")
    case True
    have ws: "dropWhile isspace ?tail = CHR ''}'' # rest"
      using skip_ws [of "LF # w2" "CHR ''}'' # rest"] Cons.prems(4) by (simp add: escape_not_space)
    have "2 * length (member sf d (k, v)) + 2 \<le> n'" using Cons.prems(5) True n kv by simp
    note pm = parse_member [OF kvp Cons.prems(3) _ this, of ?tail]
    show ?thesis
      using pm ws True
      by (simp add: n kv consume_ws_def next_is_def escape_not_space number_end_chars key om.ins_all_def
          del: dropWhile.simps)
        (simp add: escape_not_space next_is_def)
  next
    case False
    let ?t = "[CHR '','', LF] @ ?J @ ?tail"
    have j: "joined [CHR '','', LF] (map (member sf d) (kv # m)) = member sf d (k, v) @ [CHR '','', LF] @ ?J"
      using False joined_Cons [of "map (member sf d) m" "[CHR '','', LF]" "member sf d kv"] by (simp add: kv)
    have "2 * length (member sf d (k, v)) + 2 \<le> n'" using Cons.prems(5) j n kv by simp
    note pm = parse_member [OF kvp Cons.prems(3) _ this, of ?t]
    have "parse_object n' (put k v m0) (Some ([LF] @ ?J @ ?tail)) =
        J_ok (JObject (om.ins_all m (put k v m0)), Some rest)"
    proof (rule Cons.IH)
      show "2 * length ?J + 3 \<le> n'" using Cons.prems(5) n unfolding j by simp
    qed (use Cons.prems False in \<open>auto simp: escape_not_space\<close>)
    then show ?thesis
      unfolding j
      using pm
      by (simp add: n kv consume_ws_def next_is_def escape_not_space number_end_chars key om.ins_all_def)
  qed
qed simp

lemma parse_number_int:
  assumes "long_range i" "rest \<noteq> []" "number_end (hd rest)"
  shows "parse_number (show_int i @ rest) = J_ok (JIntegral i, Some rest)"
proof -
  have e: "\<not> mantissa_char (hd rest)" "hd rest \<noteq> CHR ''E''" "hd rest \<noteq> CHR ''e''"
    using assms(3) by (auto simp: number_end_def mantissa_char_def char_class)
  have all: "\<forall>c \<in> set (show_int i). mantissa_char c"
    using show_int_mantissa [of i] by (auto simp: mantissa_char_def)
  have "CHR ''.'' \<notin> set (show_int i)" using show_int_mantissa [of i] by (auto simp: char_class)
  then show ?thesis
    using e assms takeWhile_all_append [OF all, of rest] dropWhile_all_append [OF all, of rest]
    by (simp add: parse_number_def finish_number_def stol_show_int)
qed

lemma readsI:
  assumes "printable j"
    and "\<And>d n w rest. ends j rest \<Longrightarrow> 2 * length (dump sf d j) + 1 \<le> n \<Longrightarrow>
       dropWhile isspace (w @ dump sf d j @ rest) = dump sf d j @ rest \<Longrightarrow>
       parse_next (Suc n) (Some (w @ dump sf d j @ rest)) = J_ok (j, Some rest)"
  shows "reads sf j"
  unfolding reads_def
proof (intro allI impI, elim conjE)
  fix d n :: nat and w rest :: string
  assume w: "list_all isspace w" "ends j rest" and n: "2 * length (dump sf d j) + 2 \<le> n"
  obtain n' where n': "n = Suc n'" using n by (cases n) auto
  show "parse_next n (Some (w @ dump sf d j @ rest)) = J_ok (j, Some rest)"
    unfolding n' using n n' by (intro assms(2) w dump_ws assms(1)) simp_all
qed

lemma reads_simple: "reads sf JNull" "reads sf (JBoolean b)" "reads sf (JString s)"
  by (rule readsI; simp add: consume_ws_def next_is_def parse_null_def parse_bool_def parse_string_escape)+

lemma reads_int: "long_range i \<Longrightarrow> reads sf (JIntegral i)"
proof (rule readsI)
  fix d n :: nat and w rest :: string
  assume l: "long_range i" and e: "ends (JIntegral i) rest"
    and ws: "dropWhile isspace (w @ dump sf d (JIntegral i) @ rest) = dump sf d (JIntegral i) @ rest"
  obtain c cs where c: "show_int i = c # cs" "isdigit c \<or> c = CHR ''-''" using show_int_hd by blast
  have "c \<noteq> CHR ''['' \<and> c \<noteq> CHR ''{'' \<and> c \<noteq> DQUOTE \<and> c \<noteq> CHR ''t'' \<and> c \<noteq> CHR ''f'' \<and> c \<noteq> CHR ''n''"
    using c(2) by (auto simp: char_class)
  then show "parse_next (Suc n) (Some (w @ dump sf d (JIntegral i) @ rest)) = J_ok (JIntegral i, Some rest)"
    using parse_number_int [OF l, of rest] e c ws
    by (simp add: consume_ws_def next_is_def ends_def)
qed simp

lemma dump_not_close: "printable v \<Longrightarrow> hd (dump sf d v) \<noteq> CHR '']''"
  using show_int_hd [of "case v of JIntegral i \<Rightarrow> i | _ \<Rightarrow> 0"] by (cases v) (auto simp: char_class)

lemma reads_array:
  assumes vs: "\<forall>v \<in> set vs. reads sf v" "printable (JArray vs)"
  shows "reads sf (JArray vs)"
proof (rule readsI [OF vs(2)])
  fix d n :: nat and w rest :: string
  assume n: "2 * length (dump sf d (JArray vs)) + 1 \<le> n"
    and ws: "dropWhile isspace (w @ dump sf d (JArray vs) @ rest) = dump sf d (JArray vs) @ rest"
  let ?J = "joined '', '' (map (dump sf (Suc d)) vs) @ CHR '']'' # rest"
  show "parse_next (Suc n) (Some (w @ dump sf d (JArray vs) @ rest)) = J_ok (JArray vs, Some rest)"
  proof (cases vs)
    case Nil
    then show ?thesis using ws by (simp add: consume_ws_def next_is_def escape_not_space)
  next
    case (Cons v vs')
    obtain c cs where c: "dump sf (Suc d) v = c # cs" "\<not> isspace c"
      using dump_hd [of v sf "Suc d"] vs(2) Cons by auto
    then have "\<not> next_is CHR '']'' ?J \<and> dropWhile isspace ?J = ?J"
      using dump_not_close [of v sf "Suc d"] vs(2) Cons by (simp add: next_is_def)
    moreover have "parse_array n [] (Some ([] @ ?J)) = J_ok (JArray ([] @ vs), Some rest)"
      using n Cons vs(1) by (intro parse_array_dump) auto
    ultimately show ?thesis using ws by (simp add: consume_ws_def next_is_def)
  qed
qed

lemma parse_object_ws:
  "dropWhile isspace a = dropWhile isspace b \<Longrightarrow> parse_object n m (Some a) = parse_object n m (Some b)"
proof -
  assume "dropWhile isspace a = dropWhile isspace b"
  then have "parse_next k (Some a) = parse_next k (Some b)" for k
    by (cases k) (simp_all add: consume_ws_def)
  then show ?thesis by (cases n) simp_all
qed

lemma reads_object:
  assumes m: "\<forall>(k, v) \<in> set m. reads sf v" "printable (JObject m)"
  shows "reads sf (JObject m)"
proof (rule readsI [OF m(2)])
  fix d n :: nat and w rest :: string
  assume n: "2 * length (dump sf d (JObject m)) + 1 \<le> n"
    and ws: "dropWhile isspace (w @ dump sf d (JObject m) @ rest) = dump sf d (JObject m) @ rest"
  let ?J = "joined [CHR '','', LF] (map (member sf d) m)"
  let ?T = "LF # drop 2 (pad d) @ CHR ''}'' # rest"
  let ?X = "dropWhile isspace (LF # ?J @ ?T)"
  have dump: "dump sf d (JObject m) = ''{'' @ [LF] @ ?J @ [LF] @ drop 2 (pad d) @ ''}''"
    by (simp add: member_def)
  show "parse_next (Suc n) (Some (w @ dump sf d (JObject m) @ rest)) = J_ok (JObject m, Some rest)"
  proof (cases m)
    case Nil
    then have "?X = CHR ''}'' # rest"
      using skip_ws [of "[LF, LF] @ drop 2 (pad d)" "CHR ''}'' # rest"] pad_space(2) [of d]
      by (simp add: escape_not_space)
    with Nil ws show ?thesis by (simp add: consume_ws_def next_is_def escape_not_space)
  next
    case (Cons kv m')
    obtain k v where kv: "kv = (k, v)" by (cases kv)
    have "?X = DQUOTE # drop (Suc (length (pad d))) (?J @ ?T)"
      using skip_ws [of "LF # pad d" "DQUOTE # drop (Suc (length (pad d))) (?J @ ?T)"] pad_space(1) [of d]
      by (simp add: escape_not_space Cons kv member_def)
    then have x: "\<not> next_is CHR ''}'' ?X" by (simp add: next_is_def)
    have "parse_object n [] (Some ([] @ ?J @ ?T)) = J_ok (JObject (om.ins_all m []), Some rest)"
      using n m Cons pad_space(2) [of d] unfolding dump by (intro parse_object_dump) auto
    moreover have "parse_object n [] (Some ?X) = parse_object n [] (Some (?J @ ?T))"
      by (rule parse_object_ws) (simp add: escape_not_space dropWhile_idem)
    moreover have "om.ins_all m [] = m"
      using om.items_ins_all_mt [of m] m(2) by (simp add: ordered_def)
    ultimately show ?thesis
      using ws x unfolding dump by (simp add: consume_ws_def next_is_def escape_not_space)
  qed
qed

lemma reads_printable: "printable j \<Longrightarrow> reads sf j"
proof (induction j)
  case (JObject m)
  then show ?case by (intro reads_object) fastforce+
next
  case (JArray vs)
  then show ?case by (intro reads_array) simp_all
qed (simp_all add: reads_simple reads_int)

section \<open>Properties\<close>

text \<open>
  C19. A printed value is read back by \<open>Load\<close>, for every value that is not a bare integer, has
  no floating-point parts, and whose keys need no escaping: strings with any characters,
  nested arrays and objects included.
\<close>

theorem json_roundtrip:
  assumes "printable j" and "\<forall>i. j \<noteq> JIntegral i"
  shows "load (dump sf d j) = J_ok j"
proof -
  have "ends j []" using assms(2) by (auto simp: ends_def split: json.splits)
  then have "parse_next (enough (dump sf d j)) (Some ([] @ dump sf d j @ [])) = J_ok (j, Some [])"
    using reads_printable [OF assms(1), of sf] unfolding reads_def
    by (elim allE [of _ d] allE [of _ "enough (dump sf d j)"] allE [of _ "[]"]) (simp add: enough_def)
  then show ?thesis by (simp add: load_def)
qed

definition sample_json :: json where
  "sample_json = JObject [(''id'', JString (''a'' @ [BACKSLASH, DQUOTE, LF])), (''n'', JIntegral (-12)),
     (''xs'', JArray [JNull, JBoolean True, JArray [], JObject []])]"

theorem json_roundtrip_witness:
  "load (dump (\<lambda>m e. m) 1 sample_json) = J_ok sample_json"
proof (rule json_roundtrip)
  show "printable sample_json"
    by (simp add: sample_json_def ordered_def json_escape_def escape_char_def long_range_def LONG_MIN_def LONG_MAX_def)
qed (simp add: sample_json_def)

text \<open>
  C20. Parsing always ends: the fuel given by the length of the text is never used up,
  whatever the text is. (The other outcomes are a value, an exception of the number
  conversions, or a read beyond the end of the text.)
\<close>

theorem json_load_terminates:
  "(\<exists>j. load s = J_ok j) \<or> (\<exists>e. load s = J_throw e) \<or> load s = J_undefined"
  using load_fuel [of s] by (cases "load s") simp_all

text \<open>
  Three inputs that are valid JSON and that the parser mishandles: a number at the end of
  the text is replaced by null, a number with a one-digit exponent throws an exception that
  nobody catches, and a string whose closing quote is missing is read beyond its end.
\<close>

theorem json_number_defects:
  "load ''5'' = J_ok JNull \<and>
   load ''[1e5]'' = J_throw Invalid_argument \<and>
   load (''['' @ [DQUOTE] @ ''ab'') = J_undefined"
  by code_simp

end
