(* ===== verification/Json_Build.thy ===== *)
theory Json_Build
  imports Json
begin

text \<open>
  The rest of the interface of the class \<open>JSON\<close> in \<open>service-provider/json.hpp\<close>: the constructors
  from values and from a list of keys and values, \<open>append\<close> with several arguments, \<open>Array\<close> and
  \<open>Object\<close>, the access through a constant object, and the ranges for iteration.
\<close>

section \<open>Making values\<close>

text \<open>The constructors that are chosen by the type of the argument; an integer is converted to \<open>long\<close>.\<close>

datatype argument = Arg_bool bool | Arg_integer int | Arg_floating string int | Arg_string string | Arg_nullptr

fun json_of :: "argument \<Rightarrow> json" where
  "json_of (Arg_bool b) = JBoolean b"
| "json_of (Arg_integer i) = JIntegral (sint (word_of_int i :: 64 word))"
| "json_of (Arg_floating m e) = JFloating m e"
| "json_of (Arg_string s) = JString s"
| "json_of Arg_nullptr = JNull"

text \<open>
  From an initializer list: keys and values alternate. The key is the printed form of its
  element. The loop advances by two and compares with \<open>!=\<close>, so that it runs past the end of a list of
  odd length (\<open>None\<close>).
\<close>

fun init_members :: "json list \<Rightarrow> json \<Rightarrow> json option" where
  "init_members [] j = Some j"
| "init_members [k] j = None"
| "init_members (k # v # rest) j = init_members rest (set_key (to_string k) v j)"

definition json_of_list :: "json list \<Rightarrow> json option" where
  "json_of_list l = init_members l (set_type C_Object JNull)"

definition append_values :: "json list \<Rightarrow> json \<Rightarrow> json" where
  "append_values vs j = fold append_value vs j"

definition json_array :: "json list \<Rightarrow> json" where
  "json_array vs = append_values vs (json_make C_Array)"

definition json_object :: json where
  "json_object = json_make C_Object"

section \<open>Reading values\<close>

definition to_float :: "json \<Rightarrow> string \<times> int" where
  "to_float j = (case j of JFloating m e \<Rightarrow> (m, e) | _ \<Rightarrow> (''0.0'', 0))"

text \<open>\<open>at\<close> of a constant object does not look at the type: anything but the right one is read as a pointer.\<close>

definition const_at_key :: "string \<Rightarrow> json \<Rightarrow> json jres" where
  "const_at_key k j = (case j of
       JObject m \<Rightarrow> (case map_of m k of Some v \<Rightarrow> J_ok v | None \<Rightarrow> J_throw Out_of_range)
     | _ \<Rightarrow> J_undefined)"

definition const_at_index :: "nat \<Rightarrow> json \<Rightarrow> json jres" where
  "const_at_index i j = (case j of
       JArray vs \<Rightarrow> if i < length vs then J_ok (vs ! i) else J_throw Out_of_range
     | _ \<Rightarrow> J_undefined)"

definition object_range :: "json \<Rightarrow> (string \<times> json) list" where
  "object_range j = (case j of JObject m \<Rightarrow> m | _ \<Rightarrow> [])"

definition array_range :: "json \<Rightarrow> json list" where
  "array_range j = (case j of JArray vs \<Rightarrow> vs | _ \<Rightarrow> [])"

section \<open>What was made is what is read\<close>

lemma append_values_array: "append_values vs (JArray us) = JArray (us @ vs)"
  by (induction vs arbitrary: us) (simp_all add: append_values_def append_value_def set_type_def)

lemma array_read:
  "array_range (json_array vs) = vs" "json_length (json_array vs) = int (length vs)"
  "const_at_index i (json_array vs) = (if i < length vs then J_ok (vs ! i) else J_throw Out_of_range)"
  by (simp_all add: json_array_def append_values_array array_range_def json_length_def const_at_index_def)

text \<open>
  An object made of a list of pairs has, under the printed form of a key, the value that comes last
  for it; its members come in the order of the keys.
\<close>

lemma init_members_object:
  "init_members (concat (map (\<lambda>(k, v). [JString k, v]) kvs)) (JObject m) =
     Some (JObject (fold (\<lambda>(k, v). put k v) (map (\<lambda>(k, v). (json_escape k, v)) kvs) m))"
  by (induction kvs arbitrary: m) (auto simp: set_key_def set_type_def to_string_def)

lemma object_read:
  assumes "json_of_list (concat (map (\<lambda>(k, v). [JString k, v]) kvs)) = Some j"
  shows "const_at_key k j = (case map_of (rev (map (\<lambda>(k, v). (json_escape k, v)) kvs)) k of
      Some v \<Rightarrow> J_ok v | None \<Rightarrow> J_throw Out_of_range)"
    and "sorted_wrt (<) (map fst (object_range j))"
proof -
  let ?kvs = "map (\<lambda>(k, v). (json_escape k, v)) kvs"
  have j: "j = JObject (om.ins_all ?kvs [])"
    using assms by (simp add: json_of_list_def set_type_def init_members_object om.ins_all_def)
  show "const_at_key k j = (case map_of (rev ?kvs) k of Some v \<Rightarrow> J_ok v | None \<Rightarrow> J_throw Out_of_range)"
    using om.look_ins_all [OF om.inv_mt, of ?kvs k] by (simp add: j const_at_key_def split: option.splits)
  show "sorted_wrt (<) (map fst (object_range j))"
    using om.items_ordered [OF om.inv_ins_all [OF om.inv_mt, of ?kvs]] by (simp add: j object_range_def)
qed

text \<open>The last element of a list of odd length has no value.\<close>

lemma odd_list_undefined: "odd (length l) \<Longrightarrow> json_of_list l = None"
proof -
  have "odd (length l) \<Longrightarrow> init_members l j = None" for j
    by (induction l j rule: init_members.induct) auto
  then show "odd (length l) \<Longrightarrow> json_of_list l = None" by (simp add: json_of_list_def)
qed

lemma json_of_long:
  "- (2 ^ 63) \<le> i \<Longrightarrow> i < 2 ^ 63 \<Longrightarrow> to_int (json_of (Arg_integer i)) = i"
  "to_int (json_of (Arg_integer (2 ^ 63))) = - (2 ^ 63)"
  by (simp_all add: to_int_def signed_of_int signed_take_bit_int_eq_self)

end
