(* ===== verification/Json_Store.thy ===== *)
theory Json_Store
  imports Json
begin

text \<open>
  The memory of the JSON objects of \<open>service-provider/json.hpp\<close>. An object is a tag and a union; objects,
  arrays and strings own a block that was made by \<open>new\<close>. This theory models the constructors, the
  destructor and the assignments on an explicit store, and shows that they implement values: the
  theory \<open>Json\<close>, where a JSON object is a value, is right about them, with the exception of the
  assignment of an object to itself.
\<close>

section \<open>The store\<close>

datatype jcell = Cell_null | Cell_map nat | Cell_list nat | Cell_str nat
  | Cell_float string int | Cell_int int | Cell_bool bool

datatype block = Map_block "(string \<times> jcell) list" | List_block "jcell list" | Str_block string

record jheap =
  blk :: "nat \<rightharpoonup> block"
  nxt :: nat

text \<open>\<open>Bad_access\<close>: a block is used that is not allocated. \<open>No_fuel\<close>: the recursion went deeper than allowed.\<close>

datatype 'a mem = Good 'a | Bad_access | No_fuel

definition mbind :: "'a mem \<Rightarrow> ('a \<Rightarrow> 'b mem) \<Rightarrow> 'b mem" where
  "mbind m f = (case m of Good x \<Rightarrow> f x | Bad_access \<Rightarrow> Bad_access | No_fuel \<Rightarrow> No_fuel)"

lemma mbind_simps [simp]:
  "mbind (Good x) f = f x" "mbind Bad_access f = Bad_access" "mbind No_fuel f = No_fuel"
  by (simp_all add: mbind_def)

definition alloc :: "block \<Rightarrow> jheap \<Rightarrow> nat \<times> jheap" where
  "alloc b h = (nxt h, \<lparr>blk = (blk h)(nxt h \<mapsto> b), nxt = Suc (nxt h)\<rparr>)"

definition free_block :: "nat \<Rightarrow> jheap \<Rightarrow> jheap" where
  "free_block a h = h\<lparr>blk := (blk h)(a := None)\<rparr>"

text \<open>The destructor, and \<open>ClearInternal\<close>, which has the same cases.\<close>

fun destroy :: "nat \<Rightarrow> jcell \<Rightarrow> jheap \<Rightarrow> jheap mem"
  and destroy_all :: "nat \<Rightarrow> jcell list \<Rightarrow> jheap \<Rightarrow> jheap mem" where
  "destroy 0 c h = No_fuel"
| "destroy (Suc n) c h =
     (case c of
        Cell_map a \<Rightarrow> (case blk h a of
            Some (Map_block m) \<Rightarrow> mbind (destroy_all n (map snd m) h) (\<lambda>h. Good (free_block a h)) | _ \<Rightarrow> Bad_access)
      | Cell_list a \<Rightarrow> (case blk h a of
            Some (List_block cs) \<Rightarrow> mbind (destroy_all n cs h) (\<lambda>h. Good (free_block a h)) | _ \<Rightarrow> Bad_access)
      | Cell_str a \<Rightarrow> (case blk h a of Some (Str_block s) \<Rightarrow> Good (free_block a h) | _ \<Rightarrow> Bad_access)
      | _ \<Rightarrow> Good h)"
| "destroy_all n [] h = Good h"
| "destroy_all n (c # cs) h = mbind (destroy n c h) (destroy_all n cs)"

text \<open>The copy constructor.\<close>

fun copy :: "nat \<Rightarrow> jcell \<Rightarrow> jheap \<Rightarrow> (jcell \<times> jheap) mem"
  and copy_all :: "nat \<Rightarrow> jcell list \<Rightarrow> jheap \<Rightarrow> (jcell list \<times> jheap) mem" where
  "copy 0 c h = No_fuel"
| "copy (Suc n) c h =
     (case c of
        Cell_map a \<Rightarrow> (case blk h a of
            Some (Map_block m) \<Rightarrow>
              (let (a', h) = alloc (Map_block []) h in
               mbind (copy_all n (map snd m) h) (\<lambda>(cs, h).
                 Good (Cell_map a', h\<lparr>blk := (blk h)(a' \<mapsto> Map_block (zip (map fst m) cs))\<rparr>)))
          | _ \<Rightarrow> Bad_access)
      | Cell_list a \<Rightarrow> (case blk h a of
            Some (List_block cs) \<Rightarrow>
              (let (a', h) = alloc (List_block []) h in
               mbind (copy_all n cs h) (\<lambda>(cs', h). Good (Cell_list a', h\<lparr>blk := (blk h)(a' \<mapsto> List_block cs')\<rparr>)))
          | _ \<Rightarrow> Bad_access)
      | Cell_str a \<Rightarrow> (case blk h a of
            Some (Str_block s) \<Rightarrow> (let (a', h) = alloc (Str_block s) h in Good (Cell_str a', h))
          | _ \<Rightarrow> Bad_access)
      | _ \<Rightarrow> Good (c, h))"
| "copy_all n [] h = Good ([], h)"
| "copy_all n (c # cs) h = mbind (copy n c h) (\<lambda>(c', h). mbind (copy_all n cs h) (\<lambda>(cs', h). Good (c' # cs', h)))"

section \<open>What a cell stands for\<close>

text \<open>\<open>repr H c v As\<close>: the cell stands for the value \<open>v\<close> and owns exactly the blocks \<open>As\<close>.\<close>

inductive repr :: "(nat \<rightharpoonup> block) \<Rightarrow> jcell \<Rightarrow> json \<Rightarrow> nat list \<Rightarrow> bool"
  and reprs :: "(nat \<rightharpoonup> block) \<Rightarrow> jcell list \<Rightarrow> json list \<Rightarrow> nat list \<Rightarrow> bool" for H where
  r_null: "repr H Cell_null JNull []"
| r_int: "repr H (Cell_int i) (JIntegral i) []"
| r_float: "repr H (Cell_float m e) (JFloating m e) []"
| r_bool: "repr H (Cell_bool b) (JBoolean b) []"
| r_str: "H a = Some (Str_block s) \<Longrightarrow> repr H (Cell_str a) (JString s) [a]"
| r_list: "H a = Some (List_block cs) \<Longrightarrow> reprs H cs vs As \<Longrightarrow> repr H (Cell_list a) (JArray vs) (a # As)"
| r_map: "H a = Some (Map_block m) \<Longrightarrow> reprs H (map snd m) (map snd kvs) As \<Longrightarrow> map fst m = map fst kvs \<Longrightarrow>
    repr H (Cell_map a) (JObject kvs) (a # As)"
| r_Nil: "reprs H [] [] []"
| r_Cons: "repr H c v As \<Longrightarrow> reprs H cs vs Bs \<Longrightarrow> reprs H (c # cs) (v # vs) (As @ Bs)"

lemma repr_owned:
  "repr H c v As \<Longrightarrow> \<forall>a \<in> set As. H a \<noteq> None"
  "reprs H cs vs As \<Longrightarrow> \<forall>a \<in> set As. H a \<noteq> None"
  by (induction rule: repr_reprs.inducts) auto

lemma repr_frame:
  "repr H c v As \<Longrightarrow> \<forall>a \<in> set As. H' a = H a \<Longrightarrow> repr H' c v As"
  "reprs H cs vs As \<Longrightarrow> \<forall>a \<in> set As. H' a = H a \<Longrightarrow> reprs H' cs vs As"
  by (induction rule: repr_reprs.inducts) (auto intro: repr_reprs.intros)

lemma restrict_map_UNIV [simp]: "f |` UNIV = f"
  by (simp add: restrict_map_def)

text \<open>The destructor frees exactly the blocks of the object, each once.\<close>

lemma destroy_repr:
  "repr H c v As \<Longrightarrow> distinct As \<Longrightarrow> \<forall>a \<in> set As. blk h a = H a \<Longrightarrow> length As < n \<Longrightarrow>
     destroy n c h = Good (h\<lparr>blk := blk h |` (- set As)\<rparr>)"
  "reprs H cs vs As \<Longrightarrow> distinct As \<Longrightarrow> \<forall>a \<in> set As. blk h a = H a \<Longrightarrow> length As < n \<Longrightarrow>
     destroy_all n cs h = Good (h\<lparr>blk := blk h |` (- set As)\<rparr>)"
proof (induction arbitrary: h n and h n rule: repr_reprs.inducts)
  case (r_str a s)
  then show ?case by (cases n) (auto simp: free_block_def fun_eq_iff restrict_map_def)
next
  case (r_list a cs vs As)
  obtain k where k: "n = Suc k" using r_list.prems(3) by (cases n) auto
  have "destroy_all k cs h = Good (h\<lparr>blk := blk h |` (- set As)\<rparr>)" using r_list k by simp
  then show ?case using r_list(1) r_list.prems k by (auto simp: free_block_def restrict_map_def fun_eq_iff)
next
  case (r_map a m kvs As)
  obtain k where k: "n = Suc k" using r_map.prems(3) by (cases n) auto
  have "destroy_all k (map snd m) h = Good (h\<lparr>blk := blk h |` (- set As)\<rparr>)" using r_map k by simp
  then show ?case using r_map(1) r_map.prems k by (auto simp: free_block_def restrict_map_def fun_eq_iff)
next
  case (r_Cons c v As cs vs Bs)
  let ?h = "h\<lparr>blk := blk h |` (- set As)\<rparr>"
  have "destroy n c h = Good ?h" using r_Cons by simp
  moreover have "\<forall>a \<in> set Bs. blk ?h a = H a" using r_Cons.prems by (auto simp: restrict_map_def)
  then have "destroy_all n cs ?h = Good (?h\<lparr>blk := blk ?h |` (- set Bs)\<rparr>)" using r_Cons by simp
  ultimately show ?case by (simp add: Int_commute)
qed (auto simp: gr0_conv_Suc)

text \<open>
  A copy stands for the same value, in new blocks; nothing that was there changes, and no
  other block is left allocated.
\<close>

definition fresh_blocks :: "jheap \<Rightarrow> jheap \<Rightarrow> nat list \<Rightarrow> bool" where
  "fresh_blocks h h' As \<longleftrightarrow> distinct As \<and> set As \<subseteq> {nxt h..<nxt h'} \<and> nxt h \<le> nxt h' \<and>
     dom (blk h') = dom (blk h) \<union> set As \<and> (\<forall>a < nxt h. blk h' a = blk h a)"

definition bounded :: "jheap \<Rightarrow> bool" where
  "bounded h \<longleftrightarrow> dom (blk h) \<subseteq> {..<nxt h}"

lemma fresh_bounded:
  assumes "bounded h" "fresh_blocks h h' As"
  shows "bounded h'"
proof -
  have "dom (blk h) \<subseteq> {..<nxt h'}" "set As \<subseteq> {..<nxt h'}" "dom (blk h') = dom (blk h) \<union> set As"
    using assms by (auto simp: bounded_def fresh_blocks_def subset_iff)
  then show ?thesis by (simp add: bounded_def)
qed

lemma fresh_trans:
  assumes "fresh_blocks h h1 As" "fresh_blocks h1 h2 Bs"
  shows "fresh_blocks h h2 (As @ Bs)"
proof -
  have r: "set As \<subseteq> {nxt h..<nxt h1}" "set Bs \<subseteq> {nxt h1..<nxt h2}" "nxt h \<le> nxt h1" "nxt h1 \<le> nxt h2"
    using assms by (simp_all add: fresh_blocks_def)
  moreover have "{nxt h..<nxt h1} \<inter> {nxt h1..<nxt h2} = {}" by auto
  ultimately have "set As \<inter> set Bs = {}" "set As \<subseteq> {nxt h..<nxt h2}" "set Bs \<subseteq> {nxt h..<nxt h2}"
    by (blast, auto simp: subset_iff)
  then show ?thesis using assms r by (auto simp: fresh_blocks_def)
qed

lemma fresh_alloc:
  assumes "bounded h" "fresh_blocks (snd (alloc b h)) h' As"
  shows "fresh_blocks h (h'\<lparr>blk := (blk h')(nxt h \<mapsto> b')\<rparr>) (nxt h # As)"
  using assms by (auto simp: fresh_blocks_def bounded_def alloc_def)

lemma reprs_length: "reprs H cs vs As \<Longrightarrow> length cs = length vs"
proof -
  have "repr H c v As \<Longrightarrow> True" "reprs H cs vs As \<Longrightarrow> length cs = length vs" for c v As cs vs
    by (induction rule: repr_reprs.inducts) auto
  then show "reprs H cs vs As \<Longrightarrow> length cs = length vs" by blast
qed

lemma copy_repr:
  "repr H c v As \<Longrightarrow> \<forall>a \<in> set As. blk h a = H a \<Longrightarrow> length As < n \<Longrightarrow> bounded h \<Longrightarrow>
     \<exists>c' As' h'. copy n c h = Good (c', h') \<and> repr (blk h') c' v As' \<and> fresh_blocks h h' As'"
  "reprs H cs vs As \<Longrightarrow> \<forall>a \<in> set As. blk h a = H a \<Longrightarrow> length As < n \<Longrightarrow> bounded h \<Longrightarrow>
     \<exists>cs' As' h'. copy_all n cs h = Good (cs', h') \<and> reprs (blk h') cs' vs As' \<and> fresh_blocks h h' As'"
proof (induction arbitrary: h n and h n rule: repr_reprs.inducts)
  case (r_str a s)
  then obtain k where k: "n = Suc k" by (cases n) auto
  let ?h = "snd (alloc (Str_block s) h)"
  have "repr (blk ?h) (Cell_str (nxt h)) (JString s) [nxt h]" by (rule repr_reprs.r_str) (simp add: alloc_def)
  moreover have "fresh_blocks h ?h [nxt h]" by (auto simp: fresh_blocks_def alloc_def)
  ultimately show ?case using r_str k by (auto simp: alloc_def)
next
  case (r_list a cs vs As)
  then obtain k where k: "n = Suc k" by (cases n) auto
  let ?h = "snd (alloc (List_block []) h)"
  have old: "\<forall>x \<in> set As. blk ?h x = H x"
    using r_list.prems repr_owned(2) [OF r_list(2)] by (fastforce simp: alloc_def bounded_def)
  have b: "bounded ?h" using r_list.prems by (auto simp: bounded_def alloc_def)
  obtain cs' As' h' where c: "copy_all k cs ?h = Good (cs', h')" "reprs (blk h') cs' vs As'" "fresh_blocks ?h h' As'"
    using r_list(3) [OF old _ b, of k] r_list.prems k by fastforce
  let ?h' = "h'\<lparr>blk := (blk h')(nxt h \<mapsto> List_block cs')\<rparr>"
  have f: "fresh_blocks h ?h' (nxt h # As')" by (rule fresh_alloc [OF r_list.prems(3) c(3)])
  then have "reprs (blk ?h') cs' vs As'"
    by (intro repr_frame(2) [OF c(2)]) (auto simp: fresh_blocks_def)
  then have "repr (blk ?h') (Cell_list (nxt h)) (JArray vs) (nxt h # As')" by (intro repr_reprs.r_list) simp_all
  with c(1) f show ?case using r_list(1) r_list.prems k by (auto simp: alloc_def)
next
  case (r_map a m kvs As)
  then obtain k where k: "n = Suc k" by (cases n) auto
  let ?h = "snd (alloc (Map_block []) h)"
  have old: "\<forall>x \<in> set As. blk ?h x = H x"
    using r_map.prems repr_owned(2) [OF r_map(2)] by (fastforce simp: alloc_def bounded_def)
  have b: "bounded ?h" using r_map.prems by (auto simp: bounded_def alloc_def)
  obtain cs' As' h' where c: "copy_all k (map snd m) ?h = Good (cs', h')" "reprs (blk h') cs' (map snd kvs) As'"
      "fresh_blocks ?h h' As'"
    using r_map(3) [OF old _ b, of k] r_map.prems k by fastforce
  let ?m = "zip (map fst m) cs'"
  let ?h' = "h'\<lparr>blk := (blk h')(nxt h \<mapsto> Map_block ?m)\<rparr>"
  have f: "fresh_blocks h ?h' (nxt h # As')" by (rule fresh_alloc [OF r_map.prems(3) c(3)])
  have l: "length (map fst m) = length cs'" using reprs_length [OF c(2)] reprs_length [OF r_map(2)] by simp
  have "map snd ?m = cs'" "map fst ?m = map fst kvs"
    using map_snd_zip [OF l] map_fst_zip [OF l] r_map(4) by (simp_all only:)
  moreover from f have "reprs (blk ?h') cs' (map snd kvs) As'"
    by (intro repr_frame(2) [OF c(2)]) (auto simp: fresh_blocks_def)
  ultimately have "repr (blk ?h') (Cell_map (nxt h)) (JObject kvs) (nxt h # As')" by (intro repr_reprs.r_map) simp_all
  with c(1) f show ?case using r_map(1) r_map.prems k by (auto simp: alloc_def)
next
  case (r_Cons c v As cs vs Bs)
  have "\<exists>c' As' h'. copy n c h = Good (c', h') \<and> repr (blk h') c' v As' \<and> fresh_blocks h h' As'"
    by (rule r_Cons(2)) (use r_Cons.prems in auto)
  then obtain c1 As1 h1 where c1: "copy n c h = Good (c1, h1)" "repr (blk h1) c1 v As1" "fresh_blocks h h1 As1"
    by blast
  have b1: "bounded h1" by (rule fresh_bounded [OF r_Cons.prems(3) c1(3)])
  have old: "\<forall>a \<in> set Bs. blk h1 a = H a"
  proof
    fix a assume "a \<in> set Bs"
    then have a: "blk h a = H a" "H a \<noteq> None" using r_Cons.prems(1) repr_owned(2) [OF r_Cons(3)] by simp_all
    then have "a \<in> dom (blk h)" by (simp add: domIff)
    then have "a < nxt h" using r_Cons.prems(3) unfolding bounded_def by blast
    then show "blk h1 a = H a" using c1(3) a(1) by (simp add: fresh_blocks_def)
  qed
  have "\<exists>cs' Bs' h'. copy_all n cs h1 = Good (cs', h') \<and> reprs (blk h') cs' vs Bs' \<and> fresh_blocks h1 h' Bs'"
    by (rule r_Cons(4) [OF old _ b1]) (use r_Cons.prems in auto)
  then obtain cs2 Bs2 h2 where c2: "copy_all n cs h1 = Good (cs2, h2)" "reprs (blk h2) cs2 vs Bs2" "fresh_blocks h1 h2 Bs2"
    by blast
  have "repr (blk h2) c1 v As1"
    using c1(3) c2(3) by (intro repr_frame(1) [OF c1(2)]) (auto simp: fresh_blocks_def)
  then have "reprs (blk h2) (c1 # cs2) (v # vs) (As1 @ Bs2)" using c2(2) by (rule repr_reprs.r_Cons)
  with c1(1) c2(1) fresh_trans [OF c1(3) c2(3)] show ?case by auto
qed (auto simp: gr0_conv_Suc fresh_blocks_def intro: repr_reprs.intros)

section \<open>Objects and assignments\<close>

text \<open>
  The JSON variables of a function by number. \<open>n\<close> is the depth allowed to the recursion of
  destructors and copies.
\<close>

record jstate =
  jvars :: "nat \<Rightarrow> jcell"
  jheap_of :: jheap

definition set_var :: "nat \<Rightarrow> jcell \<Rightarrow> jheap \<Rightarrow> jstate \<Rightarrow> jstate" where
  "set_var x c h st = \<lparr>jvars = (jvars st)(x := c), jheap_of = h\<rparr>"

text \<open>
  \<open>operator=( const JSON & )\<close> clears the destination first and reads the source after that, which
  may be the same object; \<open>operator=( JSON && )\<close> takes the union and the tag over and leaves a null.
\<close>

definition copy_assign :: "nat \<Rightarrow> nat \<Rightarrow> nat \<Rightarrow> jstate \<Rightarrow> jstate mem" where
  "copy_assign n d s st =
     mbind (destroy n (jvars st d) (jheap_of st)) (\<lambda>h.
       mbind (copy n (jvars st s) h) (\<lambda>(c, h). Good (set_var d c h st)))"

definition move_assign :: "nat \<Rightarrow> nat \<Rightarrow> nat \<Rightarrow> jstate \<Rightarrow> jstate mem" where
  "move_assign n d s st =
     mbind (destroy n (jvars st d) (jheap_of st)) (\<lambda>h.
       let st' = set_var d (jvars st s) h st in Good (set_var s Cell_null h st'))"

text \<open>The constructors make an object of a variable that holds none; a moved-from object is a null.\<close>

definition copy_construct :: "nat \<Rightarrow> nat \<Rightarrow> nat \<Rightarrow> jstate \<Rightarrow> jstate mem" where
  "copy_construct n d s st = mbind (copy n (jvars st s) (jheap_of st)) (\<lambda>(c, h). Good (set_var d c h st))"

definition move_construct :: "nat \<Rightarrow> nat \<Rightarrow> jstate \<Rightarrow> jstate" where
  "move_construct d s st =
     (let st' = set_var d (jvars st s) (jheap_of st) st in set_var s Cell_null (jheap_of st) st')"

text \<open>The destructor at the end of the object's life; the variable then holds no object.\<close>

definition destruct :: "nat \<Rightarrow> nat \<Rightarrow> jstate \<Rightarrow> jstate mem" where
  "destruct n x st = mbind (destroy n (jvars st x) (jheap_of st)) (\<lambda>h. Good (set_var x Cell_null h st))"

definition cell_class :: "jcell \<Rightarrow> json_class" where
  "cell_class c = (case c of Cell_null \<Rightarrow> C_Null | Cell_map _ \<Rightarrow> C_Object | Cell_list _ \<Rightarrow> C_Array
     | Cell_str _ \<Rightarrow> C_String | Cell_float _ _ \<Rightarrow> C_Floating | Cell_int _ \<Rightarrow> C_Integral | Cell_bool _ \<Rightarrow> C_Boolean)"

definition new_cell :: "json_class \<Rightarrow> jheap \<Rightarrow> jcell \<times> jheap" where
  "new_cell t h = (case t of
       C_Null \<Rightarrow> (Cell_null, h)
     | C_Object \<Rightarrow> (let (a, h) = alloc (Map_block []) h in (Cell_map a, h))
     | C_Array \<Rightarrow> (let (a, h) = alloc (List_block []) h in (Cell_list a, h))
     | C_String \<Rightarrow> (let (a, h) = alloc (Str_block []) h in (Cell_str a, h))
     | C_Floating \<Rightarrow> (Cell_float ''0.0'' 0, h)
     | C_Integral \<Rightarrow> (Cell_int 0, h)
     | C_Boolean \<Rightarrow> (Cell_bool False, h))"

definition set_class :: "nat \<Rightarrow> nat \<Rightarrow> json_class \<Rightarrow> jstate \<Rightarrow> jstate mem" where
  "set_class n x t st =
     (if cell_class (jvars st x) = t then Good st
      else mbind (destroy n (jvars st x) (jheap_of st)) (\<lambda>h. let (c, h) = new_cell t h in Good (set_var x c h st)))"

text \<open>The assignments of a boolean, an integer, a floating-point number and a text.\<close>

definition assign_cell :: "nat \<Rightarrow> nat \<Rightarrow> jcell \<Rightarrow> jstate \<Rightarrow> jstate mem" where
  "assign_cell n x c st = mbind (set_class n x (cell_class c) st) (\<lambda>st. Good (set_var x c (jheap_of st) st))"

definition assign_bool :: "nat \<Rightarrow> nat \<Rightarrow> bool \<Rightarrow> jstate \<Rightarrow> jstate mem" where
  "assign_bool n x b = assign_cell n x (Cell_bool b)"

definition assign_int :: "nat \<Rightarrow> nat \<Rightarrow> int \<Rightarrow> jstate \<Rightarrow> jstate mem" where
  "assign_int n x i = assign_cell n x (Cell_int i)"

definition assign_float :: "nat \<Rightarrow> nat \<Rightarrow> string \<Rightarrow> int \<Rightarrow> jstate \<Rightarrow> jstate mem" where
  "assign_float n x m e = assign_cell n x (Cell_float m e)"

definition assign_text :: "nat \<Rightarrow> nat \<Rightarrow> string \<Rightarrow> jstate \<Rightarrow> jstate mem" where
  "assign_text n x s st =
     mbind (set_class n x C_String st) (\<lambda>st.
       case jvars st x of
         Cell_str a \<Rightarrow> (let h = jheap_of st in
           if blk h a = None then Bad_access
           else Good (set_var x (Cell_str a) (h\<lparr>blk := (blk h)(a \<mapsto> Str_block s)\<rparr>) st))
       | _ \<Rightarrow> Bad_access)"

section \<open>Refinement\<close>

text \<open>
  \<open>holds n st vals\<close>: every variable stands for its value in blocks of its own, there are no other
  blocks, and the depth \<open>n\<close> is enough for all of them.
\<close>

definition holds_in :: "(nat \<Rightarrow> nat list) \<Rightarrow> nat \<Rightarrow> jstate \<Rightarrow> (nat \<Rightarrow> json) \<Rightarrow> bool" where
  "holds_in As n st vals \<longleftrightarrow>
     (\<forall>x. repr (blk (jheap_of st)) (jvars st x) (vals x) (As x) \<and> distinct (As x) \<and> length (As x) < n) \<and>
     (\<forall>x y. x \<noteq> y \<longrightarrow> set (As x) \<inter> set (As y) = {}) \<and>
     dom (blk (jheap_of st)) = (\<Union>x. set (As x)) \<and> bounded (jheap_of st)"

definition holds :: "nat \<Rightarrow> jstate \<Rightarrow> (nat \<Rightarrow> json) \<Rightarrow> bool" where
  "holds n st vals \<longleftrightarrow> (\<exists>As. holds_in As n st vals)"

inductive_cases repr_valueE:
  "repr H c JNull As" "repr H c (JIntegral i) As" "repr H c (JFloating m e) As" "repr H c (JBoolean b) As"
  "repr H c (JString s) As" "repr H c (JArray vs) As" "repr H c (JObject kvs) As"

inductive_cases reprs_valueE: "reprs H cs [] As" "reprs H cs (v # vs) As"

lemma union_but: "(\<Union>y. F y) = (\<Union>y \<in> - {x}. F y) \<union> F x"
  by blast

lemma repr_size:
  "repr H c v As \<Longrightarrow> \<forall>H' c' As'. repr H' c' v As' \<longrightarrow> length As' = length As"
  "reprs H cs vs As \<Longrightarrow> \<forall>H' cs' As'. reprs H' cs' vs As' \<longrightarrow> length As' = length As"
proof (induction rule: repr_reprs.inducts)
  case (r_list a cs vs As)
  show ?case by (intro allI impI, erule repr_valueE(6)) (use r_list(3) in simp)
next
  case (r_map a m kvs As)
  show ?case by (intro allI impI, erule repr_valueE(7)) (use r_map(3) in simp)
next
  case (r_Cons c v As cs vs Bs)
  show ?case
  proof (intro allI impI, erule reprs_valueE(2))
    fix H' c' As1 cs' Bs1 As'
    assume "As' = As1 @ Bs1" "repr H' c' v As1" "reprs H' cs' vs Bs1"
    moreover from this have "length As1 = length As" "length Bs1 = length Bs" using r_Cons(2,4) by blast+
    ultimately show "length As' = length (As @ Bs)" by simp
  qed
qed (auto elim: repr_valueE reprs_valueE)

lemma holds_inI:
  assumes "\<And>x. repr (blk (jheap_of st)) (jvars st x) (vals x) (As x)" "\<And>x. distinct (As x)" "\<And>x. length (As x) < n"
    and "\<And>x y. x \<noteq> y \<Longrightarrow> set (As x) \<inter> set (As y) = {}"
    and "dom (blk (jheap_of st)) = (\<Union>x. set (As x))" "bounded (jheap_of st)"
  shows "holds_in As n st vals"
  using assms by (simp add: holds_in_def)

lemma repr_null: "repr H c JNull As \<longleftrightarrow> c = Cell_null \<and> As = []"
  by (auto elim: repr_valueE intro: repr_reprs.intros)

lemma holds_in_frame:
  assumes h: "holds_in As n st vals" and c: "repr (blk h') c v Bs" "distinct Bs" "length Bs < n" "bounded h'"
    and d: "dom (blk h') = (\<Union>y \<in> - {x}. set (As y)) \<union> set Bs" "\<forall>y. y \<noteq> x \<longrightarrow> set (As y) \<inter> set Bs = {}"
    and k: "\<forall>y. y \<noteq> x \<longrightarrow> (\<forall>a \<in> set (As y). blk h' a = blk (jheap_of st) a)"
  shows "holds_in (As(x := Bs)) n (set_var x c h' st) (vals(x := v))"
proof -
  have "repr (blk h') (jvars st y) (vals y) (As y)" if "y \<noteq> x" for y
    by (rule repr_frame(1) [of "blk (jheap_of st)"]) (use h k that in \<open>auto simp: holds_in_def\<close>)
  moreover have "(\<Union>y. set ((As(x := Bs)) y)) = (\<Union>y \<in> - {x}. set (As y)) \<union> set Bs"
    unfolding union_but [of _ x] by simp
  ultimately show ?thesis
    using h c d unfolding holds_in_def set_var_def by (auto simp: Int_commute)
qed

text \<open>Clearing a variable, and making a copy for a variable that owns nothing.\<close>

lemma holds_destroy:
  assumes "holds_in As n st vals"
  shows "\<exists>h. destroy n (jvars st x) (jheap_of st) = Good h \<and>
    (\<forall>c. holds_in (As(x := [])) n (set_var x Cell_null h (st\<lparr>jvars := (jvars st)(x := c)\<rparr>)) (vals(x := JNull)))"
proof -
  let ?h = "jheap_of st" let ?h' = "?h\<lparr>blk := blk ?h |` (- set (As x))\<rparr>"
  have r: "repr (blk ?h) (jvars st x) (vals x) (As x)" "distinct (As x)" "length (As x) < n"
    using assms by (simp_all add: holds_in_def)
  have "destroy n (jvars st x) ?h = Good ?h'" by (rule destroy_repr(1) [OF r(1,2) _ r(3)]) simp
  moreover have disj: "y \<noteq> x \<Longrightarrow> set (As y) \<inter> set (As x) = {}" for y using assms by (simp add: holds_in_def)
  have "holds_in (As(x := [])) n (set_var x Cell_null ?h' st) (vals(x := JNull))"
  proof (rule holds_in_frame [OF assms])
    show "dom (blk ?h') = (\<Union>y \<in> - {x}. set (As y)) \<union> set []"
      using assms disj unfolding holds_in_def by auto
    show "\<forall>y. y \<noteq> x \<longrightarrow> (\<forall>a \<in> set (As y). blk ?h' a = blk (jheap_of st) a)"
      using disj by (auto simp: restrict_map_def)
    have "bounded ?h" using assms by (simp add: holds_in_def)
    then show "bounded ?h'" by (auto simp: bounded_def)
  qed (use r in \<open>auto intro: repr_reprs.intros\<close>)
  moreover have "set_var x Cell_null ?h' (st\<lparr>jvars := (jvars st)(x := c)\<rparr>) = set_var x Cell_null ?h' st" for c
    by (simp add: set_var_def)
  ultimately show ?thesis by auto
qed

lemma holds_copy:
  assumes "holds_in As n st vals" "vals d = JNull"
  shows "\<exists>c h Bs. copy n (jvars st s) (jheap_of st) = Good (c, h) \<and>
    holds_in (As(d := Bs)) n (set_var d c h st) (vals(d := vals s))"
proof -
  let ?h = "jheap_of st"
  have r: "repr (blk ?h) (jvars st s) (vals s) (As s)" "length (As s) < n" and b: "bounded ?h"
    and own: "dom (blk ?h) = (\<Union>y. set (As y))" using assms by (simp_all add: holds_in_def)
  have "repr (blk ?h) (jvars st d) JNull (As d)" using assms by (metis holds_in_def)
  then have d: "As d = []" by (simp add: repr_null)
  obtain c Bs h where c: "copy n (jvars st s) ?h = Good (c, h)" "repr (blk h) c (vals s) Bs" "fresh_blocks ?h h Bs"
    using copy_repr(1) [OF r(1) _ r(2) b] by auto
  have "length Bs < n" using repr_size(1) [OF r(1)] c(2) r(2) by auto
  moreover have bl: "a < nxt ?h" if "a \<in> set (As y)" for a y
    using own that b unfolding bounded_def by blast
  moreover have "dom (blk h) = (\<Union>y \<in> - {d}. set (As y)) \<union> set Bs"
    using c(3) own d unfolding fresh_blocks_def union_but [of _ d] by simp
  moreover have "set (As y) \<inter> set Bs = {}" for y
    using c(3) bl unfolding fresh_blocks_def by (meson atLeastLessThan_iff disjoint_iff leD subsetD)
  moreover have "\<forall>a \<in> set (As y). blk h a = blk ?h a" for y using c(3) bl by (auto simp: fresh_blocks_def)
  moreover have "distinct Bs" using c(3) by (simp add: fresh_blocks_def)
  ultimately have "holds_in (As(d := Bs)) n (set_var d c h st) (vals(d := vals s))"
    by (intro holds_in_frame [OF assms(1) c(2) _ _ fresh_bounded [OF b c(3)]]) simp_all
  with c(1) show ?thesis by blast
qed

lemma holds_new:
  assumes "holds_in As n st vals" "vals x = JNull" "1 < n" "new_cell t (jheap_of st) = (c, h)"
  shows "\<exists>Bs. holds_in (As(x := Bs)) n (set_var x c h st) (vals(x := json_make t))"
proof -
  let ?h = "jheap_of st"
  have b: "bounded ?h" and own: "dom (blk ?h) = (\<Union>y. set (As y))" using assms(1) by (simp_all add: holds_in_def)
  have "repr (blk ?h) (jvars st x) JNull (As x)" using assms(1,2) by (metis holds_in_def)
  then have x: "As x = []" by (simp add: repr_null)
  have bl: "a < nxt ?h" if "a \<in> set (As y)" for a y using own that b unfolding bounded_def by blast
  have *: "holds_in (As(x := Bs)) n (set_var x c h st) (vals(x := v))"
    if "repr (blk h) c v Bs" "fresh_blocks ?h h Bs" "length Bs < n" for Bs v
  proof (rule holds_in_frame [OF assms(1) that(1) _ that(3) fresh_bounded [OF b that(2)]])
    show "dom (blk h) = (\<Union>y \<in> - {x}. set (As y)) \<union> set Bs"
      using that(2) own x unfolding fresh_blocks_def union_but [of _ x] by simp
    show "\<forall>y. y \<noteq> x \<longrightarrow> set (As y) \<inter> set Bs = {}"
      using that(2) bl unfolding fresh_blocks_def by (meson atLeastLessThan_iff disjoint_iff leD subsetD)
    show "\<forall>y. y \<noteq> x \<longrightarrow> (\<forall>a \<in> set (As y). blk h a = blk (jheap_of st) a)"
      using that(2) bl by (auto simp: fresh_blocks_def)
  qed (use that(2) in \<open>simp add: fresh_blocks_def\<close>)
  have new: "fresh_blocks ?h \<lparr>blk = (blk ?h)(nxt ?h \<mapsto> b'), nxt = Suc (nxt ?h)\<rparr> [nxt ?h]" for b'
    by (auto simp: fresh_blocks_def)
  have same: "fresh_blocks ?h ?h []" by (simp add: fresh_blocks_def)
  show ?thesis
  proof (cases t)
    case C_Object
    then show ?thesis using assms(3,4) new by (intro exI [of _ "[nxt ?h]"] *) (auto simp: new_cell_def alloc_def repr_reprs.intros)
  next
    case C_Array
    then show ?thesis using assms(3,4) new by (intro exI [of _ "[nxt ?h]"] *) (auto simp: new_cell_def alloc_def repr_reprs.intros)
  next
    case C_String
    then show ?thesis using assms(3,4) new by (intro exI [of _ "[nxt ?h]"] *) (auto simp: new_cell_def alloc_def repr_reprs.intros)
  qed (use assms(3,4) same in \<open>(intro exI [of _ "[]"] *; auto simp: new_cell_def repr_reprs.intros)\<close>)+
qed

lemma cell_class_type: "repr H c v As \<Longrightarrow> cell_class c = json_type v"
  by (cases rule: repr.cases) (auto simp: cell_class_def)

lemma set_var_again: "set_var x c h (st\<lparr>jvars := (jvars st)(x := d)\<rparr>) = set_var x c h st"
  "set_var x c h (set_var x d h' st) = set_var x c h st" "jheap_of (set_var x c h st) = h"
  "jvars (set_var x c h st) = (jvars st)(x := c)"
  by (simp_all add: set_var_def)

lemma destruct_holds:
  assumes "holds n st vals"
  shows "\<exists>st'. destruct n x st = Good st' \<and> holds n st' (vals(x := JNull))"
  using assms holds_destroy [of _ n st vals x] unfolding holds_def destruct_def
  by (metis mbind_simps(1) set_var_again(1))

lemma copy_assign_holds:
  assumes "holds n st vals" "d \<noteq> s"
  shows "\<exists>st'. copy_assign n d s st = Good st' \<and> holds n st' (vals(d := vals s))"
proof -
  obtain As where "holds_in As n st vals" using assms(1) by (auto simp: holds_def)
  from holds_destroy [OF this, of d] obtain h where
    h: "destroy n (jvars st d) (jheap_of st) = Good h" and
    i: "holds_in (As(d := [])) n (set_var d Cell_null h st) (vals(d := JNull))"
    unfolding set_var_again by blast
  from holds_copy [OF i, of d s] obtain c h' Bs where "copy n (jvars st s) h = Good (c, h')"
    "holds_in ((As(d := []))(d := Bs)) n (set_var d c h' (set_var d Cell_null h st)) ((vals(d := JNull))(d := vals s))"
    using assms(2) by (auto simp: set_var_again)
  then show ?thesis unfolding holds_def using h by (auto simp: copy_assign_def set_var_again)
qed

lemma copy_construct_holds:
  assumes "holds n st vals" "vals d = JNull"
  shows "\<exists>st'. copy_construct n d s st = Good st' \<and> holds n st' (vals(d := vals s))"
  using assms holds_copy [of _ n st vals d s] unfolding holds_def copy_construct_def
  by fastforce

text \<open>Taking over a union: the blocks change their owner.\<close>

lemma holds_move:
  assumes "holds_in As n st vals" "vals d = JNull" "d \<noteq> s"
  shows "holds_in (As(d := As s, s := [])) n
    (set_var s Cell_null (jheap_of st) (set_var d (jvars st s) (jheap_of st) st)) (vals(d := vals s, s := JNull))"
proof -
  have "repr (blk (jheap_of st)) (jvars st d) JNull (As d)" using assms(1,2) by (metis holds_in_def)
  then have d: "As d = []" by (simp add: repr_null)
  have "set (As y) \<subseteq> set ((As(d := As s, s := [])) (if y = s then d else y))" for y
    using assms(3) d by simp
  then have "(\<Union>x. set (As x)) \<subseteq> (\<Union>x. set ((As(d := As s, s := [])) x))" by (meson UN_least UN_upper UNIV_I subset_trans)
  moreover have "set ((As(d := As s, s := [])) y) \<subseteq> set (As (if y = d then s else y))" for y by simp
  then have "(\<Union>x. set ((As(d := As s, s := [])) x)) \<subseteq> (\<Union>x. set (As x))" by (meson UN_least UN_upper UNIV_I subset_trans)
  ultimately have un: "(\<Union>x. set ((As(d := As s, s := [])) x)) = (\<Union>x. set (As x))" by (rule equalityI [rotated])
  have h: "repr (blk (jheap_of st)) (jvars st x) (vals x) (As x)" "distinct (As x)" "length (As x) < n"
    "x \<noteq> y \<Longrightarrow> set (As x) \<inter> set (As y) = {}" for x y using assms(1) by (simp_all add: holds_in_def)
  have o: "dom (blk (jheap_of st)) = (\<Union>x. set (As x))" "bounded (jheap_of st)"
    using assms(1) by (simp_all add: holds_in_def)
  show ?thesis
  proof (rule holds_inI)
    fix x show "repr (blk (jheap_of (set_var s Cell_null (jheap_of st) (set_var d (jvars st s) (jheap_of st) st))))
      (jvars (set_var s Cell_null (jheap_of st) (set_var d (jvars st s) (jheap_of st) st)) x)
      ((vals(d := vals s, s := JNull)) x) ((As(d := As s, s := [])) x)"
      using h(1) [of x] h(1) [of s] by (simp add: set_var_again repr_reprs.r_null)
    show "distinct ((As(d := As s, s := [])) x)" "length ((As(d := As s, s := [])) x) < n"
      using h(2,3) [of x] h(2,3) [of s] by auto
  next
    fix x y :: nat assume "x \<noteq> y"
    then show "set ((As(d := As s, s := [])) x) \<inter> set ((As(d := As s, s := [])) y) = {}"
      using h(4) [of x y] h(4) [of x s] h(4) [of s y] by simp
  qed (unfold un set_var_again, rule o(1), rule o(2))
qed

lemma move_construct_holds:
  assumes "holds n st vals" "vals d = JNull" "d \<noteq> s"
  shows "holds n (move_construct d s st) (vals(d := vals s, s := JNull))"
  using assms holds_move unfolding holds_def move_construct_def Let_def by blast

lemma move_assign_holds:
  assumes "holds n st vals"
  shows "\<exists>st'. move_assign n d s st = Good st' \<and> holds n st' (vals(d := vals s, s := JNull))"
proof (cases "d = s")
  case True
  then show ?thesis
    using destruct_holds [OF assms, of s] by (cases "destroy n (jvars st s) (jheap_of st)")
      (auto simp: move_assign_def destruct_def Let_def set_var_again)
next
  case False
  obtain As where "holds_in As n st vals" using assms(1) by (auto simp: holds_def)
  from holds_destroy [OF this, of d] obtain h where
    h: "destroy n (jvars st d) (jheap_of st) = Good h" and
    i: "holds_in (As(d := [])) n (set_var d Cell_null h st) (vals(d := JNull))"
    unfolding set_var_again by blast
  from holds_move [OF i _ False] have "holds n (set_var s Cell_null h (set_var d (jvars st s) h st)) (vals(d := vals s, s := JNull))"
    using False unfolding holds_def by (auto simp: set_var_again)
  with h show ?thesis by (simp add: move_assign_def Let_def)
qed

lemma set_class_holds:
  assumes "holds n st vals" "1 < n"
  shows "\<exists>st'. set_class n x t st = Good st' \<and> holds n st' (vals(x := set_type t (vals x)))"
proof -
  obtain As where a: "holds_in As n st vals" using assms(1) by (auto simp: holds_def)
  then have c: "cell_class (jvars st x) = json_type (vals x)" by (auto simp: holds_in_def intro: cell_class_type)
  show ?thesis
  proof (cases "json_type (vals x) = t")
    case True
    then show ?thesis using c assms(1) by (auto simp: set_class_def set_type_def)
  next
    case False
    from holds_destroy [OF a, of x] obtain h where
      h: "destroy n (jvars st x) (jheap_of st) = Good h" and
      i: "holds_in (As(x := [])) n (set_var x Cell_null h st) (vals(x := JNull))"
      unfolding set_var_again by blast
    obtain d h' where n: "new_cell t h = (d, h')" by (rule prod.exhaust)
    from holds_new [OF i _ assms(2), of x t d h'] n have "holds n (set_var x d h' st) (vals(x := json_make t))"
      unfolding holds_def by (auto simp: set_var_again)
    with h n c False show ?thesis by (auto simp: set_class_def set_type_def)
  qed
qed

lemma set_type_type: "json_type (set_type t j) = t"
  by (cases t) (simp_all add: set_type_def)

lemma assign_cell_holds:
  assumes "holds n st vals" "1 < n" "repr Map.empty c v []"
  shows "\<exists>st'. assign_cell n x c st = Good st' \<and> holds n st' (vals(x := v))"
proof -
  let ?t = "cell_class c"
  obtain st1 As where c: "set_class n x ?t st = Good st1" and h: "holds_in As n st1 (vals(x := set_type ?t (vals x)))"
    using set_class_holds [OF assms(1,2), of x ?t] unfolding holds_def by blast
  have "repr (blk (jheap_of st1)) (jvars st1 x) (set_type ?t (vals x)) (As x)"
    using h unfolding holds_in_def by (metis fun_upd_same)
  moreover have "?t \<notin> {C_Object, C_Array, C_String}" using assms(3) by (cases rule: repr.cases) (auto simp: cell_class_def)
  ultimately have "As x = []" by (cases rule: repr.cases) (use set_type_type [of ?t "vals x"] in auto)
  moreover have "dom (blk (jheap_of st1)) = (\<Union>y. set (As y))" "bounded (jheap_of st1)" using h by (simp_all add: holds_in_def)
  ultimately have "holds_in (As(x := [])) n (set_var x c (jheap_of st1) st1) ((vals(x := set_type ?t (vals x)))(x := v))"
    using repr_frame(1) [OF assms(3)] assms(2) by (intro holds_in_frame [OF h]) (simp_all add: union_but [of _ x])
  then show ?thesis using c unfolding assign_cell_def holds_def by auto
qed

lemma assign_text_holds:
  assumes "holds n st vals" "1 < n"
  shows "\<exists>st'. assign_text n x s st = Good st' \<and> holds n st' (vals(x := JString s))"
proof -
  obtain st1 As where c: "set_class n x C_String st = Good st1" and h: "holds_in As n st1 (vals(x := set_type C_String (vals x)))"
    using set_class_holds [OF assms, of x C_String] unfolding holds_def by blast
  let ?h = "jheap_of st1"
  have "repr (blk ?h) (jvars st1 x) (set_type C_String (vals x)) (As x)"
    using h unfolding holds_in_def by (metis fun_upd_same)
  then obtain a s' where a: "jvars st1 x = Cell_str a" "blk ?h a = Some (Str_block s')" "As x = [a]"
    by (cases rule: repr.cases) (use set_type_type [of C_String "vals x"] in auto)
  have disj: "y \<noteq> x \<Longrightarrow> a \<notin> set (As y)" for y using h a(3) unfolding holds_in_def by fastforce
  have o: "dom (blk ?h) = (\<Union>y. set (As y))" "bounded ?h" using h by (simp_all add: holds_in_def)
  have "holds_in (As(x := [a])) n (set_var x (Cell_str a) (?h\<lparr>blk := (blk ?h)(a \<mapsto> Str_block s)\<rparr>) st1)
    ((vals(x := set_type C_String (vals x)))(x := JString s))"
  proof (rule holds_in_frame [OF h])
    show "dom (blk (?h\<lparr>blk := (blk ?h)(a \<mapsto> Str_block s)\<rparr>)) = (\<Union>y \<in> - {x}. set (As y)) \<union> set [a]"
      using o(1) a(3) unfolding union_but [of _ x] by auto
    show "bounded (?h\<lparr>blk := (blk ?h)(a \<mapsto> Str_block s)\<rparr>)" using o(2) a(2) by (auto simp: bounded_def)
  qed (use disj assms(2) in \<open>auto intro: repr_reprs.intros\<close>)
  then show ?thesis using c a unfolding assign_text_def holds_def by (auto simp: Let_def)
qed

lemma assignments_hold:
  assumes "holds n st vals" "1 < n"
  shows "\<exists>st'. assign_bool n x b st = Good st' \<and> holds n st' (vals(x := JBoolean b))"
    and "\<exists>st'. assign_int n x i st = Good st' \<and> holds n st' (vals(x := JIntegral i))"
    and "\<exists>st'. assign_float n x m e st = Good st' \<and> holds n st' (vals(x := JFloating m e))"
  unfolding assign_bool_def assign_int_def assign_float_def
  by (rule assign_cell_holds [OF assms]; rule repr_reprs.intros)+


text \<open>When every object is gone, so is all memory.\<close>

lemma nothing_left: "holds n st (\<lambda>_. JNull) \<Longrightarrow> blk (jheap_of st) = Map.empty"
proof -
  assume "holds n st (\<lambda>_. JNull)"
  then obtain As where "\<forall>x. repr (blk (jheap_of st)) (jvars st x) JNull (As x)"
    "dom (blk (jheap_of st)) = (\<Union>x. set (As x))" by (auto simp: holds_def holds_in_def)
  then show ?thesis by (simp add: repr_null)
qed

definition no_objects :: jstate where
  "no_objects = \<lparr>jvars = (\<lambda>_. Cell_null), jheap_of = \<lparr>blk = Map.empty, nxt = 0\<rparr>\<rparr>"

lemma no_objects_holds: "0 < n \<Longrightarrow> holds n no_objects (\<lambda>_. JNull)"
  unfolding holds_def holds_in_def no_objects_def
  by (intro exI [of _ "\<lambda>_. []"]) (simp add: bounded_def repr_reprs.intros)

definition one_array :: jstate where
  "one_array = no_objects\<lparr>jvars := (\<lambda>_. Cell_null)(0 := Cell_list 0),
     jheap_of := \<lparr>blk = [0 \<mapsto> List_block [Cell_int 5, Cell_str 1], 1 \<mapsto> Str_block ''ab''], nxt = 2\<rparr>\<rparr>"

lemma one_array_holds: "holds 3 one_array ((\<lambda>_. JNull)(0 := JArray [JIntegral 5, JString ''ab'']))"
proof -
  let ?H = "blk (jheap_of one_array)"
  have "reprs ?H [Cell_int 5, Cell_str 1] [JIntegral 5, JString ''ab''] ([] @ [1] @ [])"
    by (intro repr_reprs.intros) (simp add: one_array_def)
  then have "repr ?H (Cell_list 0) (JArray [JIntegral 5, JString ''ab'']) (0 # [] @ [1] @ [])"
    by (intro repr_reprs.r_list) (simp_all add: one_array_def)
  then have r: "repr ?H (Cell_list 0) (JArray [JIntegral 5, JString ''ab'']) [0, 1]" by simp
  have un: "(\<Union>x. set (((\<lambda>_. [])(0 := [0, 1])) x)) = {0, 1 :: nat}" unfolding union_but [of _ 0] by auto
  have "holds_in ((\<lambda>_. [])(0 := [0, 1])) 3 one_array ((\<lambda>_. JNull)(0 := JArray [JIntegral 5, JString ''ab'']))"
  proof (rule holds_inI)
    show "dom ?H = (\<Union>x. set (((\<lambda>_. [])(0 := [0, 1])) x))" unfolding un by (auto simp: one_array_def)
    show "repr ?H (jvars one_array x) (((\<lambda>_. JNull)(0 := JArray [JIntegral 5, JString ''ab''])) x)
      (((\<lambda>_. [])(0 := [0, 1])) x)" for x
      by (cases "x = 0") (use r in \<open>simp_all add: repr_null\<close>, simp_all add: one_array_def)
    show "bounded (jheap_of one_array)" by (auto simp: bounded_def one_array_def)
  qed (auto split: if_splits)
  then show ?thesis by (auto simp: holds_def)
qed


text \<open>
  The copy assignment of an object to itself clears it before it is read: for a string, an
  array or an object the freed block is used, for the other types nothing happens.
\<close>

lemma self_assignment_uses_freed_memory:
  assumes "holds n st vals"
  shows "copy_assign n x x st =
    (if json_type (vals x) \<in> {C_Object, C_Array, C_String} then Bad_access else Good st)"
proof -
  obtain As where h: "holds_in As n st vals" using assms by (auto simp: holds_def)
  let ?h = "jheap_of st" let ?h' = "?h\<lparr>blk := blk ?h |` (- set (As x))\<rparr>"
  have r: "repr (blk ?h) (jvars st x) (vals x) (As x)" "distinct (As x)" "length (As x) < n"
    using h by (simp_all add: holds_in_def)
  have d: "destroy n (jvars st x) ?h = Good ?h'" by (rule destroy_repr(1) [OF r(1,2) _ r(3)]) simp
  obtain k where k: "n = Suc k" using r(3) by (cases n) auto
  have "set_var x (jvars st x) ?h st = st" by (simp add: set_var_def)
  from r(1) show ?thesis
  proof cases
    case r_null then show ?thesis using d \<open>set_var x (jvars st x) ?h st = st\<close> by (simp add: copy_assign_def k)
  next
    case (r_int i) then show ?thesis using d \<open>set_var x (jvars st x) ?h st = st\<close> by (simp add: copy_assign_def k)
  next
    case (r_float m e) then show ?thesis using d \<open>set_var x (jvars st x) ?h st = st\<close> by (simp add: copy_assign_def k)
  next
    case (r_bool b) then show ?thesis using d \<open>set_var x (jvars st x) ?h st = st\<close> by (simp add: copy_assign_def k)
  qed (use d in \<open>simp_all add: copy_assign_def k del: destroy.simps\<close>)
qed

lemma self_assignment_uses_freed_memory_witness: "copy_assign 3 0 0 one_array = Bad_access"
  using self_assignment_uses_freed_memory [OF one_array_holds, of 0] by simp

end
