(* ===== verification/Agent_Wget.thy ===== *)
theory Agent_Wget
  imports Http_Parser
begin

text \<open>
  The model of \<open>service-provider/agent_wget.cpp\<close>: an HTTP request made by running \<open>wget\<close> in a
  child process. The operating system's part in one request is the record \<open>wget_run\<close>: the
  results of the calls in the order they are made (an exhausted list of writes takes
  everything that is left, an exhausted list of reads is the end of the child's output). The
  arguments kept between requests (\<open>wget_args\<close>) and the environment are the state. The data
  posted is left in a temporary file whose name is a parameter.
\<close>

section \<open>The connection, as far as the agents use it\<close>

definition IAS_PROXY_NONE :: int where "IAS_PROXY_NONE = 0"
definition IAS_PROXY_AUTO :: int where "IAS_PROXY_AUTO = 1"
definition IAS_PROXY_FORCE :: int where "IAS_PROXY_FORCE = 2"

record proxy_conf =
  c_proxy_server :: string
  c_proxy_port :: "16 word"
  c_proxy_mode :: int

section \<open>One request\<close>

datatype write_event = Wrote nat | Write_eintr | Write_err

datatype pipe_event = Pipe_data string | Pipe_eintr | Pipe_err

datatype wait_event = Wait_exited nat | Wait_signalled | Wait_err

record wget_run =
  mkstemp_ok :: bool
  writes :: "write_event list"
  pipe_ok :: bool
  fork_ok :: bool
  pipe_reads :: "pipe_event list"
  wait_result :: wait_event

record wget_state =
  wget_args :: "string list"
  environ :: "string \<rightharpoonup> string"

text \<open>The data is written to the temporary file; \<open>None\<close> when a write fails.\<close>

fun write_loop :: "write_event list \<Rightarrow> string \<Rightarrow> string \<Rightarrow> string option" where
  "write_loop evs fl [] = Some fl"
| "write_loop [] fl bp = Some (fl @ bp)"
| "write_loop (Write_eintr # evs) fl bp = write_loop evs fl bp"
| "write_loop (Write_err # evs) fl bp = None"
| "write_loop (Wrote n # evs) fl bp = write_loop evs (fl @ take n bp) (drop n bp)"

text \<open>The arguments that do not depend on the request, built the first time.\<close>

definition proxy_env :: "proxy_conf \<Rightarrow> string" where
  "proxy_env c = ''http://'' @ c_proxy_server c
     @ (if c_proxy_port c \<noteq> 80 then '':'' @ show_nat (unat (c_proxy_port c)) else []) @ ''/''"

definition init_args :: "bool \<Rightarrow> proxy_conf \<Rightarrow> wget_state \<Rightarrow> wget_state" where
  "init_args verbose c st =
     (if wget_args st \<noteq> [] then st
      else
       (let args = [''wget''] @ (if \<not> verbose then [''--quiet''] else [])
             @ [''--output-document=-'', ''--save-headers'', ''--content-on-error'', ''--no-http-keep-alive''];
            env = (if c_proxy_server c \<noteq> [] then (environ st)(''https_proxy'' \<mapsto> proxy_env c) else environ st)
        in if c_proxy_mode c = IAS_PROXY_NONE then st\<lparr>wget_args := args @ [''--no-proxy''], environ := env\<rparr>
           else if c_proxy_mode c = IAS_PROXY_FORCE then st\<lparr>wget_args := args, environ := env(''no_proxy'' := None)\<rparr>
           else st\<lparr>wget_args := args, environ := env\<rparr>))"

text \<open>The arguments of the child.\<close>

definition child_args :: "wget_state \<Rightarrow> string \<Rightarrow> string option \<Rightarrow> string \<Rightarrow> string list" where
  "child_args st key tmpfile url =
     wget_args st @ [''--header=Ocp-Apim-Subscription-Key: '' @ key]
     @ (case tmpfile of None \<Rightarrow> []
        | Some f \<Rightarrow> [''--header=Content-Type: application/json'', ''--post-file='' @ f])
     @ [url]"

text \<open>Reading the child's output: the text, and whether no read failed.\<close>

fun read_output :: "pipe_event list \<Rightarrow> string \<Rightarrow> bool \<times> string" where
  "read_output [] acc = (True, acc)"
| "read_output (Pipe_eintr # evs) acc = read_output evs acc"
| "read_output (Pipe_err # evs) acc = (False, acc)"
| "read_output (Pipe_data d # evs) acc =
     (if d = [] then (True, acc) else read_output evs (acc @ d))"

definition WGET_NO_ERROR :: nat where "WGET_NO_ERROR = 0"
definition WGET_SERVER_ERROR :: nat where "WGET_SERVER_ERROR = 8"
definition WGET_AUTH_ERROR :: nat where "WGET_AUTH_ERROR = 6"

text \<open>From the exit of the child to the result. A parser that throws ends in \<open>Parsing_length_error\<close>.\<close>

definition finish_request :: "wait_event \<Rightarrow> string \<Rightarrow> response \<Rightarrow> bool \<times> response" where
  "finish_request w out resp =
     (case w of
        Wait_err \<Rightarrow> (False, resp)
      | Wait_signalled \<Rightarrow> (False, resp)
      | Wait_exited rc \<Rightarrow>
          if rc = WGET_AUTH_ERROR then (True, resp\<lparr>statusCode := 401\<rparr>)
          else if rc = WGET_NO_ERROR \<or> rc = WGET_SERVER_ERROR then
            (case parse init_parser resp out of (res, (p, resp')) \<Rightarrow> (res = ParsingCompleted, resp'))
          else (True, resp))"

text \<open>The whole request: its result, the response, the data posted, the child's arguments.\<close>

definition wget_request ::
    "bool \<Rightarrow> proxy_conf \<Rightarrow> string \<Rightarrow> string \<Rightarrow> wget_run \<Rightarrow> string \<Rightarrow> string \<Rightarrow> response \<Rightarrow> wget_state
      \<Rightarrow> (bool \<times> response) \<times> (string option \<times> string list) option \<times> wget_state" where
  "wget_request verbose c key tmpfile run url post resp st =
     (let fl = (if post = [] then Some None
                  else if \<not> mkstemp_ok run then None
                  else map_option Some (write_loop (writes run) [] post)) in
      case fl of
        None \<Rightarrow> ((False, resp), None, st)
      | Some posted \<Rightarrow>
          let st' = init_args verbose c st in
          if \<not> pipe_ok run \<or> \<not> fork_ok run then ((False, resp), None, st')
          else
            let argv = child_args st' key (map_option (\<lambda>_. tmpfile) posted) url;
                (ok, out) = read_output (pipe_reads run) [];
                result = (if ok then finish_request (wait_result run) out resp else (False, resp))
            in (result, Some (posted, argv), st'))"

section \<open>Lemmas\<close>

lemma write_loop_complete: "write_loop evs fl bp = Some f \<Longrightarrow> f = fl @ bp"
  by (induction evs fl bp rule: write_loop.induct) auto

fun output_of :: "pipe_event list \<Rightarrow> string" where
  "output_of [] = []"
| "output_of (Pipe_data d # evs) = d @ output_of evs"
| "output_of (_ # evs) = output_of evs"

lemma read_output_pieces:
  "Pipe_err \<notin> set evs \<Longrightarrow> Pipe_data [] \<notin> set evs \<Longrightarrow> read_output evs acc = (True, acc @ output_of evs)"
  by (induction evs acc rule: read_output.induct) auto

lemma wget_args_kept:
  "wget_args st \<noteq> [] \<Longrightarrow> init_args verbose c st = st"
  by (simp add: init_args_def)

section \<open>Properties\<close>

lemma wget_delivered:
  assumes "mkstemp_ok run" "pipe_ok run" "fork_ok run" "Write_err \<notin> set (writes run)"
    and "Pipe_err \<notin> set (pipe_reads run)" "Pipe_data [] \<notin> set (pipe_reads run)"
    and "output_of (pipe_reads run) = render_head m @ body @ rest"
    and "wait_result run = Wait_exited 0" and "post \<noteq> []"
    and "head_ok m" "code_ok (m_code m)" "\<not> chunked (headers_parser m)"
    and "contentSize (headers_parser m) = of_nat (length body)" "length body < 2 ^ 63"
  shows "\<exists>argv st'. wget_request verbose c key tmp run url post empty_response st =
     ((True, (decide_keep_alive (parsed_head m))\<lparr>content := body\<rparr>), Some (Some post, argv), st') \<and>
     ''--header=Ocp-Apim-Subscription-Key: '' @ key \<in> set argv \<and> ''--post-file='' @ tmp \<in> set argv \<and>
     last argv = url"
proof -
  have "write_loop evs fl bp \<noteq> None" if "Write_err \<notin> set evs" for evs fl bp
    using that by (induction evs fl bp rule: write_loop.induct) auto
  then obtain f where "write_loop (writes run) [] post = Some f" using assms(4) by blast
  then have w: "write_loop (writes run) [] post = Some post" using write_loop_complete by fastforce
  obtain q where "consume (init_parser, empty_response) (render_head m @ body @ rest) =
      (Some ParsingCompleted, (q, (decide_keep_alive (parsed_head m))\<lparr>content := body\<rparr>))"
    using consume_length_body [OF assms(10-14), of rest] by blast
  then show ?thesis
    using assms(1-3,7-9) w read_output_pieces [OF assms(5,6), of "[]"]
    by (simp add: wget_request_def finish_request_def parse_def child_args_def Let_def
        WGET_AUTH_ERROR_def WGET_NO_ERROR_def)
qed

text \<open>
  C29. A request that posts data gives the child exactly that data, however \<open>write\<close> is split
  and interrupted, with the subscription key and the address among its arguments; and when
  the child prints a well-formed response with a body of the announced length, in any pieces,
  and exits without error, the request succeeds with that response.
\<close>

theorem wget_request_delivers:
  assumes "mkstemp_ok run" "pipe_ok run" "fork_ok run" "Write_err \<notin> set (writes run)"
    and "Pipe_err \<notin> set (pipe_reads run)" "Pipe_data [] \<notin> set (pipe_reads run)"
    and "output_of (pipe_reads run) = render_head m @ body @ rest"
    and "wait_result run = Wait_exited 0" and "post \<noteq> []"
    and "head_ok m" "code_ok (m_code m)" "\<not> chunked (headers_parser m)"
    and "contentSize (headers_parser m) = of_nat (length body)" "length body < 2 ^ 63"
  shows "\<exists>argv st'. wget_request verbose c key tmp run url post empty_response st =
     ((True, (decide_keep_alive (parsed_head m))\<lparr>content := body\<rparr>), Some (Some post, argv), st') \<and>
     ''--header=Ocp-Apim-Subscription-Key: '' @ key \<in> set argv \<and> ''--post-file='' @ tmp \<in> set argv \<and>
     last argv = url"
  using assms by (rule wget_delivered)

definition sample_run :: wget_run where
  "sample_run = \<lparr>mkstemp_ok = True, writes = [Wrote 1, Write_eintr], pipe_ok = True, fork_ok = True,
     pipe_reads = [Pipe_eintr, Pipe_data (render_head (sample_head ''Content-Length'' ''3'')), Pipe_data ''abc''],
     wait_result = Wait_exited 0\<rparr>"

lemma render_head_not_Nil: "render_head m \<noteq> []" "[] \<noteq> render_head m"
  by (simp_all add: render_head_def)

theorem wget_request_delivers_witness:
  "\<exists>argv st'. wget_request False \<lparr>c_proxy_server = [], c_proxy_port = 80, c_proxy_mode = 1\<rparr> ''KEY'' ''tmp''
       sample_run ''https://x'' ''{}'' empty_response \<lparr>wget_args = [], environ = Map.empty\<rparr> =
     ((True, (decide_keep_alive (parsed_head (sample_head ''Content-Length'' ''3'')))\<lparr>content := ''abc''\<rparr>),
      Some (Some ''{}'', argv), st') \<and>
     ''--header=Ocp-Apim-Subscription-Key: '' @ ''KEY'' \<in> set argv \<and> ''--post-file='' @ ''tmp'' \<in> set argv \<and>
     last argv = ''https://x''"
  by (rule wget_request_delivers [where rest = "[]"])
    (use sample_length_facts render_head_not_Nil in \<open>simp_all add: sample_run_def\<close>)

text \<open>
  A failed child is not reported as a failed request: an exit code other than 0, 6 and 8
  gives success with the caller's response unchanged, whose status code is 0.
\<close>

theorem wget_failure_is_success:
  assumes "post = []" "pipe_ok run" "fork_ok run" "Pipe_err \<notin> set (pipe_reads run)"
    and "Pipe_data [] \<notin> set (pipe_reads run)" "wait_result run = Wait_exited rc" "rc \<notin> {0, 6, 8}"
  shows "fst (wget_request verbose c key tmp run url post empty_response st) = (True, empty_response)"
  using assms read_output_pieces [OF assms(4,5), of "[]"]
  by (simp add: wget_request_def finish_request_def Let_def WGET_AUTH_ERROR_def WGET_NO_ERROR_def
      WGET_SERVER_ERROR_def)

theorem wget_failure_is_success_witness:
  "fst (wget_request False \<lparr>c_proxy_server = [], c_proxy_port = 80, c_proxy_mode = 1\<rparr> ''KEY'' ''tmp''
     (sample_run\<lparr>pipe_reads := [], wait_result := Wait_exited 4\<rparr>) ''https://x'' [] empty_response
     \<lparr>wget_args = [], environ = Map.empty\<rparr>) = (True, empty_response)"
  by (rule wget_failure_is_success [where rc = 4]) (simp_all add: sample_run_def)

end
