(* ===== verification/Base64.thy ===== *)
theory Base64
  imports Prelude
begin

text \<open>
  The model of \<open>service-provider/base64.c\<close>. The base64 filter of OpenSSL is the parameter
  \<open>bio\<close>: what \<open>BIO_write\<close> returns and puts into the memory BIO, and what \<open>BIO_read\<close> returns and
  stores. A decoded text is a buffer one byte longer than the text, zero after the data, and
  the return code as a \<open>size_t\<close>.
\<close>

record bio =
  b64_put :: "bytes \<Rightarrow> int \<times> string"
  b64_get :: "string \<Rightarrow> int \<times> bytes"

definition base64_encode :: "bio \<Rightarrow> bool \<Rightarrow> bytes \<Rightarrow> string option" where
  "base64_encode B malloc_ok msg =
     (let (rc, text) = b64_put B msg in
      if rc = -1 then None else if \<not> malloc_ok then None else Some text)"

definition base64_decode :: "bio \<Rightarrow> bool \<Rightarrow> string \<Rightarrow> (bytes \<times> 64 word) option" where
  "base64_decode B malloc_ok msg =
     (if \<not> malloc_ok then None
      else let len = length (cstr msg); (rc, data) = b64_get B (cstr msg);
               sz = (word_of_int rc :: 64 word)
        in if sz = -1 then None
           else Some (take len data @ replicate (Suc len - length (take len data)) 0, sz))"

text \<open>
  A text the filter cannot decode, for which \<open>BIO_read\<close> returns 0, is decoded to empty data,
  and the return code -2 becomes a size of almost \<open>2 ^ 64\<close>.
\<close>

lemma base64_decode_garbage:
  "fst (b64_get B (cstr msg)) = 0 \<Longrightarrow> \<exists>buf. base64_decode B True msg = Some (buf, 0)"
  by (cases "b64_get B (cstr msg)") (simp add: base64_decode_def Let_def)

lemma base64_decode_unsupported:
  "fst (b64_get B (cstr msg)) = -2 \<Longrightarrow> \<exists>buf. base64_decode B True msg = Some (buf, - 2)"
  by (cases "b64_get B (cstr msg)") (simp add: base64_decode_def Let_def)

end
