(* ===== verification/Ias.thy ===== *)
theory Ias
  imports Agent_Wget Base64 Crypto Ordmap "HOL-Library.List_Lexorder" "HOL-Library.Char_ord"
begin

text \<open>
  The model of \<open>service-provider/iasrequest.cpp\<close> and \<open>iasrequest.h\<close>: the connection to the Intel
  Attestation Service (IAS) and the two requests, for a revocation list and for a report whose
  signature and certificate chain are verified.

  The agent that carries out an HTTP request is a function of the subscription key, the
  address and the data to post; the one the program uses is \<open>wget_request\<close>. The random pad of
  the stored subscription keys is a parameter. Verbose output is left out.
\<close>

section \<open>The connection\<close>

datatype key_id = Primary | Secondary | Last

definition IAS_SUBSCRIPTION_KEY_SIZE :: nat where "IAS_SUBSCRIPTION_KEY_SIZE = 32"
definition IAS_PORT :: "16 word" where "IAS_PORT = 443"

datatype agent_slot = No_agent | Live_agent | Deleted_agent

record conn = proxy_conf +
  c_server :: string
  key_enc :: "key_id \<Rightarrow> bytes"
  key_xor :: "key_id \<Rightarrow> bytes"
  c_ca_file :: string
  c_server_port :: "16 word"
  c_flags :: "32 word"
  c_store :: "cert list option"
  c_agent :: agent_slot
  c_agent_name :: string
  currentKeyID :: key_id

type_synonym agent = "string \<Rightarrow> string \<Rightarrow> string \<Rightarrow> bool \<times> response"

definition ias_servers :: "string list" where
  "ias_servers = [''api.trustedservices.intel.com/sgx/dev'', ''api.trustedservices.intel.com/sgx'']"

definition to_bytes :: "string \<Rightarrow> bytes" where
  "to_bytes s = map (\<lambda>c. of_nat (code c)) s"

definition of_bytes :: "bytes \<Rightarrow> string" where
  "of_bytes bs = map (\<lambda>b. char_of (unat b)) bs"

text \<open>
  The key in the caller's buffer (\<open>None\<close> is a null pointer) is stored masked with the random
  \<open>pad\<close> of 32 bytes; the result is also what the buffer holds afterwards.
\<close>

definition setSubscriptionKey ::
    "bytes \<Rightarrow> key_id \<Rightarrow> string option \<Rightarrow> conn \<Rightarrow> bool \<times> string option \<times> conn" where
  "setSubscriptionKey pad i key c =
     (let zero = replicate IAS_SUBSCRIPTION_KEY_SIZE 0;
          c' = c\<lparr>key_enc := (key_enc c)(i := zero), key_xor := (key_xor c)(i := zero)\<rparr> in
      case key of None \<Rightarrow> (False, None, c')
      | Some buf \<Rightarrow>
        if length (cstr buf) \<noteq> IAS_SUBSCRIPTION_KEY_SIZE \<or> i = Last then (False, Some buf, c')
        else (True,
          Some (replicate IAS_SUBSCRIPTION_KEY_SIZE NUL @ drop IAS_SUBSCRIPTION_KEY_SIZE buf),
          c'\<lparr>key_xor := (key_xor c')(i := pad),
             key_enc := (key_enc c')(i := map2 (XOR) (to_bytes (take IAS_SUBSCRIPTION_KEY_SIZE buf)) pad)\<rparr>))"

definition getSubscriptionKey :: "conn \<Rightarrow> string" where
  "getSubscriptionKey c =
     cstr (of_bytes (map2 (XOR) (key_enc c (currentKeyID c)) (key_xor c (currentKeyID c))))"

definition ias_connection ::
    "bytes \<Rightarrow> bytes \<Rightarrow> nat \<Rightarrow> 32 word \<Rightarrow> string option \<Rightarrow> string option \<Rightarrow> conn" where
  "ias_connection pad1 pad2 server_idx fl pri sec =
     (let c = \<lparr>c_proxy_server = [], c_proxy_port = 80, c_proxy_mode = IAS_PROXY_AUTO,
            c_server = ias_servers ! server_idx, key_enc = (\<lambda>_. []), key_xor = (\<lambda>_. []), c_ca_file = [],
            c_server_port = IAS_PORT, c_flags = fl, c_store = None, c_agent = No_agent,
            c_agent_name = [], currentKeyID = Primary\<rparr>;
          (_, _, c) = setSubscriptionKey pad1 Primary pri c;
          (_, _, c) = setSubscriptionKey pad2 Secondary sec c
      in c)"

definition set_agent :: "string \<Rightarrow> conn \<Rightarrow> bool \<times> conn" where
  "set_agent name c =
     (if ''wget'' = cstr name then (True, c\<lparr>c_agent_name := cstr name\<rparr>) else (False, c))"

definition set_proxy :: "string \<Rightarrow> 16 word \<Rightarrow> conn \<Rightarrow> conn" where
  "set_proxy server port c =
     c\<lparr>c_proxy_server := cstr server, c_proxy_port := port, c_proxy_mode := IAS_PROXY_FORCE\<rparr>"

definition proxy_url :: "conn \<Rightarrow> string" where
  "proxy_url c =
     (if c_proxy_server c = [] then []
      else ''http://'' @ c_proxy_server c
        @ (if c_proxy_port c \<noteq> 80 then '':'' @ show_nat (unat (c_proxy_port c)) else []))"

definition base_url :: "conn \<Rightarrow> string" where
  "base_url c =
     ''https://'' @ c_server c
     @ (if c_server_port c \<noteq> 443 then '':'' @ show_nat (unat (c_server_port c)) else [])
     @ ''/attestation/v''"

text \<open>
  A new agent; \<open>ctor\<close> is the agent object if it can be constructed. A named agent is not
  remembered, the default one is. \<open>delete_agent\<close> is what the requests do at their end.
\<close>

definition new_agent :: "agent option \<Rightarrow> conn \<Rightarrow> agent option \<times> conn" where
  "new_agent ctor c =
     (if c_agent_name c \<noteq> [] then (if c_agent_name c = ''wget'' then ctor else None, c)
      else case ctor of None \<Rightarrow> (None, c) | Some a \<Rightarrow> (Some a, c\<lparr>c_agent := Live_agent\<rparr>))"

definition delete_agent :: "conn \<Rightarrow> conn" where
  "delete_agent c = (if c_agent c = Live_agent then c\<lparr>c_agent := Deleted_agent\<rparr> else c)"

text \<open>\<open>agent()\<close>: whether the agent returned is the remembered one, and whether that is alive.\<close>

definition get_agent :: "agent option \<Rightarrow> conn \<Rightarrow> agent_slot \<times> conn" where
  "get_agent ctor c =
     (case c_agent c of
        No_agent \<Rightarrow> (case new_agent ctor c of (None, c') \<Rightarrow> (No_agent, c') | (Some a, c') \<Rightarrow> (Live_agent, c'))
      | slot \<Rightarrow> (slot, c))"

section \<open>Decoding an address\<close>

datatype url_error = Premature_end | Invalid_encoding

fun url_decode :: "string \<Rightarrow> url_error + string" where
  "url_decode [] = Inr []"
| "url_decode (c # cs) =
     (if c = CHR ''+'' then map_sum id (\<lambda>t. SPC # t) (url_decode cs)
      else if c = CHR ''%'' then
        (case cs of
           h # l # cs' \<Rightarrow>
             (case strtoul 16 (cstr [h, l]) of (v, e) \<Rightarrow>
               if e \<noteq> [] then Inl Invalid_encoding
               else map_sum id (\<lambda>t. char_of (unat v mod 256) # t) (url_decode cs'))
         | _ \<Rightarrow> Inl Premature_end)
      else map_sum id (\<lambda>t. c # t) (url_decode cs))"

section \<open>The requests\<close>

definition IAS_QUERY_FAILED :: "32 word" where "IAS_QUERY_FAILED = 0"
definition IAS_OK :: "32 word" where "IAS_OK = 200"
definition IAS_UNAUTHORIZED :: "32 word" where "IAS_UNAUTHORIZED = 401"
definition IAS_INTERNAL_ERROR :: "32 word" where "IAS_INTERNAL_ERROR = 1000"
definition IAS_BAD_CERTIFICATE :: "32 word" where "IAS_BAD_CERTIFICATE = 1001"
definition IAS_BAD_SIGNATURE :: "32 word" where "IAS_BAD_SIGNATURE = 1002"

text \<open>\<open>snprintf("%08x")\<close>.\<close>

definition hex8 :: "32 word \<Rightarrow> string" where
  "hex8 w = map (\<lambda>i. digit_char (unat (drop_bit (4 * i) w AND 15))) [7, 6, 5, 4, 3, 2, 1, 0]"

definition sigrl ::
    "agent option \<Rightarrow> 16 word \<Rightarrow> 32 word \<Rightarrow> string \<Rightarrow> conn \<Rightarrow> 32 word \<times> string \<times> conn" where
  "sigrl ctor version gid sigrl0 c =
     (case new_agent ctor c of
        (None, c') \<Rightarrow> (IAS_QUERY_FAILED, sigrl0, c')
      | (Some request, c') \<Rightarrow>
          (let url = base_url c' @ show_nat (unat version) @ ''/sigrl/'' @ hex8 gid;
               (ok, resp) = request (getSubscriptionKey c') url []
           in if \<not> ok then (IAS_QUERY_FAILED, sigrl0, delete_agent c')
              else (statusCode resp,
                    if statusCode resp = IAS_OK then content_string resp else sigrl0,
                    delete_agent c')))"

text \<open>The body of a report request.\<close>

definition report_member :: "string \<times> string \<Rightarrow> string" where
  "report_member = (\<lambda>(k, v). [DQUOTE] @ k @ [DQUOTE, CHR '':'', DQUOTE] @ v @ [DQUOTE])"

fun report_members :: "(string \<times> string) list \<Rightarrow> string" where
  "report_members [] = []"
| "report_members [kv] = report_member kv"
| "report_members (kv # kvs) = report_member kv @ [CHR '','', LF] @ report_members kvs"

definition report_body_text :: "(string \<times> string) list \<Rightarrow> string" where
  "report_body_text payload = ''{'' @ [LF] @ report_members payload @ [LF] @ ''}''"

text \<open>The certificates of the chain: the text from each \<open>-----BEGIN\<close> to the next.\<close>

lemma find_str_less: "find_str pat s = Some i \<Longrightarrow> i \<le> length s"
  by (induction s arbitrary: i) (auto split: if_splits)

lemma find_str_from_ge: "find_str_from pat s i = Some j \<Longrightarrow> i \<le> j \<and> j \<le> length s"
  by (auto simp: find_str_from_def split: if_splits dest: find_str_less)

function cert_pieces :: "string \<Rightarrow> nat \<Rightarrow> string list" where
  "cert_pieces s cstart =
     (case find_str_from ''-----BEGIN'' s (cstart + 1) of
        None \<Rightarrow> [substr s cstart (length s - cstart)]
      | Some cend \<Rightarrow> substr s cstart (cend - cstart) # cert_pieces s cend)"
  by pat_completeness auto
termination
  by (relation "measure (\<lambda>(s, i). Suc (length s) - i)") (auto dest: find_str_from_ge)

declare cert_pieces.simps [simp del]

fun load_certs :: "openssl \<Rightarrow> string list \<Rightarrow> cert list \<Rightarrow> cstate \<Rightarrow> cert list option \<times> cstate" where
  "load_certs L [] acc s = (Some acc, s)"
| "load_certs L (t # ts) acc s =
     (case cert_load L t None s of
        (True, Some c, s') \<Rightarrow> load_certs L ts (acc @ [c]) s'
      | (_, _, s') \<Rightarrow> (None, s'))"

text \<open>
  From the verified stack on: the signature of the report. \<open>allocs\<close> is the result of the
  allocation in \<open>base64_decode\<close>; \<open>rv\<close> is the variable that still holds the result of
  \<open>cert_verify\<close>. The result is the status and the content handed to the caller.
\<close>

definition check_signature ::
    "openssl \<Rightarrow> bio \<Rightarrow> bool \<Rightarrow> bool \<Rightarrow> cert list \<Rightarrow> response \<Rightarrow> string \<Rightarrow> cstate
      \<Rightarrow> 32 word \<times> string \<times> bool \<times> cstate" where
  "check_signature L B alloc rv certs resp content0 s =
     (let sigstr = headers_as_string resp ''X-IASReport-Signature'' in
      if sigstr = [] then (IAS_BAD_SIGNATURE, content0, False, s)
      else case base64_decode B alloc sigstr of
        None \<Rightarrow> (IAS_BAD_SIGNATURE, content0, False, s)
      | Some (buf, sigsz) \<Rightarrow>
          let (pkey, s) = call L True s in
          if pkey = 0 then (IAS_INTERNAL_ERROR, content0, False, s)
          else
            let content = content_string resp;
                (ok, s) = sha256_verify L (to_bytes content) (take (unat sigsz) buf) (hd certs) s
            in (if \<not> ok then IAS_BAD_SIGNATURE else if rv then IAS_OK else IAS_BAD_SIGNATURE,
                content, True, s))"

definition advisories :: "16 word \<Rightarrow> response \<Rightarrow> string list \<Rightarrow> string list" where
  "advisories version resp messages =
     (if version = 3 then
        (let h1 = headers_as_string resp ''Advisory-URL''; h2 = headers_as_string resp ''Advisory-IDs''
         in messages @ (if h1 \<noteq> [] then [h1] else []) @ (if h2 \<noteq> [] then [h2] else []))
      else messages)"

definition verify_response ::
    "openssl \<Rightarrow> bio \<Rightarrow> bool \<times> bool \<Rightarrow> cert list \<Rightarrow> 16 word \<Rightarrow> response \<Rightarrow> string \<Rightarrow> string list \<Rightarrow> cstate
      \<Rightarrow> 32 word \<times> string \<times> string list \<times> cstate" where
  "verify_response L B allocs store version resp content0 messages0 s =
     (let certchain = headers_as_string resp ''X-IASReport-Signing-Certificate'' in
      if certchain = [] then (IAS_BAD_CERTIFICATE, content0, messages0, s)
      else case url_decode certchain of
        Inl e \<Rightarrow> (IAS_BAD_CERTIFICATE, content0, messages0, s)
      | Inr chain \<Rightarrow>
        (case load_certs L (cert_pieces chain 0) [] s of
           (None, s) \<Rightarrow> (IAS_BAD_CERTIFICATE, content0, messages0, s)
         | (Some certs, s) \<Rightarrow>
             if \<not> fst allocs then (IAS_INTERNAL_ERROR, content0, messages0, s)
             else case cert_stack_build L certs s of
               (None, s) \<Rightarrow> (IAS_INTERNAL_ERROR, content0, messages0, s)
             | (Some stack, s) \<Rightarrow>
                 let (rv, s) = cert_verify L store stack s in
                 if \<not> rv then (IAS_BAD_CERTIFICATE, content0, messages0, s)
                 else let (status, content, fin, s) = check_signature L B (snd allocs) rv certs resp content0 s
                   in (status, content, if fin then advisories version resp messages0 else messages0, s)))"

definition report ::
    "openssl \<Rightarrow> bio \<Rightarrow> bool \<times> bool \<Rightarrow> agent option \<Rightarrow> 16 word \<Rightarrow> (string \<times> string) list
      \<Rightarrow> string \<Rightarrow> string list \<Rightarrow> conn \<Rightarrow> cstate \<Rightarrow> 32 word \<times> string \<times> string list \<times> conn \<times> cstate" where
  "report L B allocs ctor version payload content0 messages0 c s =
     (case new_agent ctor c of
        (None, c') \<Rightarrow> (IAS_QUERY_FAILED, content0, messages0, c', s)
      | (Some request, c') \<Rightarrow>
          (let url = base_url c' @ show_nat (unat version) @ ''/report'';
               (ok, resp) = request (getSubscriptionKey c') url (report_body_text payload)
           in if \<not> ok then (IAS_QUERY_FAILED, content0, messages0, delete_agent c', s)
              else if statusCode resp \<noteq> IAS_OK then (statusCode resp, content0, messages0, delete_agent c', s)
              else let (status, content, messages, s') =
                       verify_response L B allocs (case c_store c' of Some st \<Rightarrow> st | None \<Rightarrow> []) version resp
                         content0 messages0 s
                   in (status, content, messages, delete_agent c', s')))"

text \<open>The agent made of one run of \<open>wget\<close>.\<close>

definition wget_agent :: "bool \<Rightarrow> string \<Rightarrow> wget_run \<Rightarrow> wget_state \<Rightarrow> conn \<Rightarrow> agent" where
  "wget_agent verbose tmpfile run st c = (\<lambda>key url post.
     fst (wget_request verbose (proxy_conf.truncate c) key tmpfile run url post empty_response st))"

section \<open>Lemmas\<close>

lemma xor_word_twice: "(a XOR b) XOR b = (a :: byte)"
  by (rule bit_eqI) (auto simp: bit_xor_iff)

lemma map2_xor_twice: "length a = length p \<Longrightarrow> map2 (XOR) (map2 (XOR) a p) p = (a :: bytes)"
  by (induction a p rule: list_induct2) (simp_all add: xor_word_twice)

lemma of_to_bytes: "of_bytes (to_bytes s) = s"
proof -
  have "char_of (unat (of_nat (code c) :: byte)) = c" for c
    using nat_of_char_less_256 [of c] by (simp add: unsigned_of_nat take_bit_nat_eq_self del: nat_of_char_less_256)
  then show ?thesis by (simp add: of_bytes_def to_bytes_def map_idI)
qed

lemma length_to_bytes [simp]: "length (to_bytes s) = length s"
  by (simp add: to_bytes_def)

lemma cstr_idem: "cstr (cstr s) = cstr s"
  by (simp add: cstr_def)

lemma cstr_take: "cstr s = take (length (cstr s)) s"
  unfolding cstr_def by (rule takeWhile_eq_take)

lemma cert_load_size_ok:
  "fst (cert_load_size L text sz c s) \<Longrightarrow>
   fst (snd (cert_load_size L text sz c s)) = pem_cert L (take sz text) \<and> pem_cert L (take sz text) \<noteq> None"
  by (simp add: cert_load_size_def crypto_simps split: if_splits)

lemma load_certs_ok:
  "load_certs L ts acc s = (Some certs, s') \<Longrightarrow>
   \<exists>cs. certs = acc @ cs \<and> list_all2 (\<lambda>t c. pem_cert L (cstr t) = Some c) ts cs"
proof (induction ts arbitrary: acc s)
  case (Cons t ts)
  obtain ok c s1 where l: "cert_load L t None s = (ok, c, s1)" by (cases "cert_load L t None s")
  with Cons.prems obtain x where x: "ok" "c = Some x" by (auto split: bool.splits option.splits)
  then have p: "pem_cert L (cstr t) = Some x"
    using cert_load_size_ok [of L t "length (cstr t)" None s] l cstr_take [of t] by (simp add: cert_load_def)
  have "load_certs L ts (acc @ [x]) s1 = (Some certs, s')" using Cons.prems l x by simp
  from Cons.IH [OF this] p show ?case by auto
qed simp

lemma cert_pieces_not_Nil: "cert_pieces s i \<noteq> []"
  by (subst cert_pieces.simps) (simp split: option.split)

lemma check_signature_ok:
  "check_signature L B alloc rv certs resp content0 s = (IAS_OK, txt, fin, s') \<Longrightarrow>
   txt = content_string resp \<and>
   (\<exists>buf sz. base64_decode B alloc (headers_as_string resp ''X-IASReport-Signature'') = Some (buf, sz) \<and>
      rsa_verifies L (to_bytes txt) (take (unat sz) buf) (hd certs))"
  by (auto simp: check_signature_def sha256_verify_def crypto_simps IAS_BAD_SIGNATURE_def
      IAS_INTERNAL_ERROR_def IAS_OK_def split: option.splits if_splits)

lemma verify_response_ok:
  assumes "verify_response L B allocs store version resp content0 msgs0 s = (IAS_OK, txt, msgs, s')"
  shows "txt = content_string resp \<and> (\<exists>chain certs buf sz.
     url_decode (headers_as_string resp ''X-IASReport-Signing-Certificate'') = Inr chain \<and>
     list_all2 (\<lambda>t c. pem_cert L (cstr t) = Some c) (cert_pieces chain 0) certs \<and>
     chain_valid L store certs \<and>
     base64_decode B (snd allocs) (headers_as_string resp ''X-IASReport-Signature'') = Some (buf, sz) \<and>
     rsa_verifies L (to_bytes txt) (take (unat sz) buf) (hd certs))"
proof -
  let ?hdr = "headers_as_string resp ''X-IASReport-Signing-Certificate''"
  have n: "IAS_BAD_CERTIFICATE \<noteq> IAS_OK" "IAS_INTERNAL_ERROR \<noteq> IAS_OK"
    by (simp_all add: IAS_BAD_CERTIFICATE_def IAS_INTERNAL_ERROR_def IAS_OK_def)
  obtain chain where chain: "url_decode ?hdr = Inr chain"
    using assms n by (cases "url_decode ?hdr") (auto simp: verify_response_def Let_def split: if_splits)
  obtain certs s1 where lc: "load_certs L (cert_pieces chain 0) [] s = (Some certs, s1)"
    using assms n chain by (cases "load_certs L (cert_pieces chain 0) [] s")
      (auto simp: verify_response_def Let_def split: if_splits option.splits)
  obtain stack s2 where st: "cert_stack_build L certs s1 = (Some stack, s2)"
    using assms n chain lc by (cases "cert_stack_build L certs s1")
      (auto simp: verify_response_def Let_def split: if_splits option.splits)
  then have "stack = certs" by (simp add: cert_stack_build_def must_def call_def split: if_splits)
  moreover obtain rv s3 where cv: "cert_verify L store stack s2 = (rv, s3)"
    by (cases "cert_verify L store stack s2")
  moreover have rv: "rv" using assms n chain lc st cv by (auto simp: verify_response_def Let_def split: if_splits)
  ultimately have valid: "chain_valid L store certs"
    by (auto simp: cert_verify_def crypto_simps split: if_splits)
  obtain st' txt' fin s4 where cs: "check_signature L B (snd allocs) rv certs resp content0 s3 = (st', txt', fin, s4)"
    by (cases "check_signature L B (snd allocs) rv certs resp content0 s3")
  then have "st' = IAS_OK" "txt' = txt"
    using assms n chain lc st cv rv by (auto simp: verify_response_def Let_def split: if_splits)
  with cs have "check_signature L B (snd allocs) rv certs resp content0 s3 = (IAS_OK, txt, fin, s4)" by simp
  from check_signature_ok [OF this] load_certs_ok [OF lc] chain valid show ?thesis by auto
qed

lemma strtoul_hex2:
  "strtoul 16 [digit_char (unat (b :: byte) div 16), digit_char (unat b mod 16)] = (of_nat (unat b), [])"
proof -
  let ?h = "digit_char (unat b div 16)" and ?l = "digit_char (unat b mod 16)"
  have d: "digit_val 16 ?h = Some (unat b div 16)" "digit_val 16 ?l = Some (unat b mod 16)"
    by (simp_all add: digit_val_16_digit_char)
  then have h: "is_digit_of 16 ?h" "is_digit_of 16 ?l" by (simp_all add: is_digit_of_def)
  have f: "\<not> isspace ?h \<and> ?h \<noteq> CHR ''-'' \<and> ?h \<noteq> CHR ''+''"
    using h(1) by (auto simp: is_digit_of_def digit_val_def char_class Let_def split: if_splits)
  have "strto 16 [?h, ?l] = (Some (False, unat b), [])"
    using d h f by (simp add: strto_def take_sign_def skip_0x_def digits_value_def)
  moreover have "unat b < 2 ^ 64" by (rule less_trans [OF unat_byte_less]) simp
  ultimately show ?thesis by (simp add: strtoul_def)
qed

text \<open>
  The default agent is remembered by the connection and deleted by the request that used it:
  \<open>agent()\<close> then returns a deleted object.
\<close>

lemma agent_dangles_after_sigrl:
  "c_agent_name c = [] \<Longrightarrow> fst (get_agent ctor (snd (snd (sigrl (Some a) v gid t c)))) = Deleted_agent"
  by (simp add: sigrl_def new_agent_def delete_agent_def get_agent_def Let_def split: prod.splits)

section \<open>Properties\<close>

lemma report_verified:
  assumes "report L B allocs ctor version payload content0 msgs0 c s = (IAS_OK, txt, msgs, c', s')"
  shows "\<exists>request resp chain certs buf sz. fst (new_agent ctor c) = Some request \<and>
     request (getSubscriptionKey c) (base_url c @ show_nat (unat version) @ ''/report'') (report_body_text payload)
       = (True, resp) \<and>
     statusCode resp = IAS_OK \<and> txt = content_string resp \<and>
     url_decode (headers_as_string resp ''X-IASReport-Signing-Certificate'') = Inr chain \<and>
     list_all2 (\<lambda>t x. pem_cert L (cstr t) = Some x) (cert_pieces chain 0) certs \<and>
     chain_valid L (case c_store c of Some st \<Rightarrow> st | None \<Rightarrow> []) certs \<and>
     base64_decode B (snd allocs) (headers_as_string resp ''X-IASReport-Signature'') = Some (buf, sz) \<and>
     rsa_verifies L (to_bytes txt) (take (unat sz) buf) (hd certs)"
proof -
  have q: "IAS_QUERY_FAILED \<noteq> IAS_OK" by (simp add: IAS_QUERY_FAILED_def IAS_OK_def)
  obtain request c1 where na: "new_agent ctor c = (Some request, c1)"
    using assms q by (cases "new_agent ctor c") (auto simp: report_def split: option.splits)
  have c1: "getSubscriptionKey c1 = getSubscriptionKey c" "base_url c1 = base_url c" "c_store c1 = c_store c"
    using na by (auto simp: new_agent_def getSubscriptionKey_def base_url_def split: if_splits option.splits)
  obtain ok resp where rq: "request (getSubscriptionKey c) (base_url c @ show_nat (unat version) @ ''/report'')
      (report_body_text payload) = (ok, resp)" by fastforce
  have ok: "ok" "statusCode resp = IAS_OK"
    using assms q na c1 rq by (auto simp: report_def Let_def split: if_splits)
  let ?store = "case c_store c of Some st \<Rightarrow> st | None \<Rightarrow> []"
  obtain st t ms s1 where vr: "verify_response L B allocs ?store version resp content0 msgs0 s = (st, t, ms, s1)"
    by (cases "verify_response L B allocs ?store version resp content0 msgs0 s")
  then have "st = IAS_OK" "t = txt" using assms na c1 rq ok by (auto simp: report_def Let_def)
  with vr have "verify_response L B allocs ?store version resp content0 msgs0 s = (IAS_OK, txt, ms, s1)" by simp
  from verify_response_ok [OF this] show ?thesis using na rq ok by auto
qed

text \<open>
  C5. A report is accepted only after every check: the service answered with status 200, each
  certificate of the header was loaded, the chain is valid for the store of the connection,
  and the signature of the header verifies the very content that is handed to the caller under
  the first certificate.
\<close>

theorem report_ok_verified:
  assumes "report L B allocs ctor version payload content0 msgs0 c s = (IAS_OK, txt, msgs, c', s')"
  shows "\<exists>request resp chain certs buf sz. fst (new_agent ctor c) = Some request \<and>
     request (getSubscriptionKey c) (base_url c @ show_nat (unat version) @ ''/report'') (report_body_text payload)
       = (True, resp) \<and>
     statusCode resp = IAS_OK \<and> txt = content_string resp \<and>
     url_decode (headers_as_string resp ''X-IASReport-Signing-Certificate'') = Inr chain \<and>
     list_all2 (\<lambda>t x. pem_cert L (cstr t) = Some x) (cert_pieces chain 0) certs \<and>
     chain_valid L (case c_store c of Some st \<Rightarrow> st | None \<Rightarrow> []) certs \<and>
     base64_decode B (snd allocs) (headers_as_string resp ''X-IASReport-Signature'') = Some (buf, sz) \<and>
     rsa_verifies L (to_bytes txt) (take (unat sz) buf) (hd certs)"
  using assms by (rule report_verified)

text \<open>
  Text that was percent-encoded (with any set of characters left as they are, except the
  plus and the percent sign) is decoded to itself.
\<close>

definition url_encode :: "(char \<Rightarrow> bool) \<Rightarrow> string \<Rightarrow> string" where
  "url_encode keep s = concat (map (\<lambda>c. if keep c then [c]
     else CHR ''%'' # printf_02x (of_nat (code c))) s)"

theorem url_decode_encode:
  assumes "\<not> keep CHR ''+''" and "\<not> keep CHR ''%''"
  shows "url_decode (url_encode keep s) = Inr s"
proof (induction s)
  case (Cons c s)
  show ?case
  proof (cases "keep c")
    case True
    then have "c \<noteq> CHR ''+''" "c \<noteq> CHR ''%''" using assms by auto
    with True Cons show ?thesis by (simp add: url_encode_def)
  next
    case False
    let ?b = "of_nat (code c) :: byte"
    have u: "unat ?b = code c"
      using nat_of_char_less_256 [of c] by (simp add: unsigned_of_nat take_bit_nat_eq_self del: nat_of_char_less_256)
    have nn: "NUL \<notin> set (printf_02x ?b)" using nul_not_hex [of "[?b]"] by simp
    have "char_of (unat (of_nat (unat ?b) :: 64 word) mod 256) = c"
      using nat_of_char_less_256 [of c]
      by (simp add: u unsigned_of_nat take_bit_nat_eq_self del: nat_of_char_less_256 of_nat_unat)
    with False Cons nn strtoul_hex2 [of ?b] show ?thesis
      by (simp add: url_encode_def printf_02x_def del: of_nat_unat)
  qed
qed (simp add: url_encode_def)

theorem url_decode_encode_witness:
  "url_decode (url_encode isalnum ''-----BEGIN +%'') = Inr ''-----BEGIN +%''"
  by (rule url_decode_encode) (simp_all add: char_class)

lemma strtoul_16_samples:
  "strtoul 16 ''-1'' = (- 1, [])" "strtoul 16 [SPC, CHR ''9''] = (9, [])" "strtoul 16 ''20'' = (32, [])"
proof -
  have "strto 16 ''-1'' = (Some (True, 1), [])" "strto 16 [SPC, CHR ''9''] = (Some (False, 9), [])"
    "strto 16 ''20'' = (Some (False, 32), [])" by code_simp+
  then show "strtoul 16 ''-1'' = (- 1, [])" "strtoul 16 [SPC, CHR ''9''] = (9, [])" "strtoul 16 ''20'' = (32, [])"
    by (simp_all add: strtoul_def)
qed

lemma char_samples:
  "char_of (unat (- 1 :: 64 word)) = CHR 0xFF" "char_of (9 :: nat) = TAB" "char_of (32 :: nat) = SPC"
proof -
  have "unat (- 1 :: 64 word) mod 256 = 255" by (simp add: unsigned_minus_1_eq_mask mask_eq_exp_minus_1)
  then have "char_of (unat (- 1 :: 64 word)) = char_of (255 :: nat)" by (metis char_of_mod_256)
  then show "char_of (unat (- 1 :: 64 word)) = CHR 0xFF" by (simp add: char_of_def bit_0)
qed (simp_all add: char_of_def bit_0)

text \<open>
  Escapes that are no hexadecimal code are accepted: \<open>strtoul\<close> skips white space and takes a
  sign.
\<close>

theorem url_decode_accepts_invalid:
  "url_decode ''%-1'' = Inr [CHR 0xFF] \<and> url_decode ''% 9'' = Inr [TAB]"
  by (simp add: strtoul_16_samples char_samples)

text \<open>
  A subscription key of 32 characters is returned unchanged when its slot is selected,
  whatever the random pad is, and the caller's buffer no longer holds it.
\<close>

theorem subscription_key_kept:
  assumes "length (cstr buf) = 32" and "i \<noteq> Last" and "length pad = 32"
  shows "\<exists>buf' c'. setSubscriptionKey pad i (Some buf) c = (True, Some buf', c') \<and>
     getSubscriptionKey (c'\<lparr>currentKeyID := i\<rparr>) = cstr buf \<and> take 32 buf' = replicate 32 NUL"
proof -
  have t: "take 32 buf = cstr buf" using cstr_take [of buf] assms(1) by simp
  then have "map2 (XOR) (map2 (XOR) (to_bytes (take 32 buf)) pad) pad = to_bytes (cstr buf)"
    using assms(1,3) by (simp add: map2_xor_twice)
  with assms(1,2) show ?thesis
    by (simp add: setSubscriptionKey_def getSubscriptionKey_def IAS_SUBSCRIPTION_KEY_SIZE_def Let_def
        of_to_bytes cstr_idem)
qed

definition sample_conn :: conn where
  "sample_conn = (ias_connection [] [] 0 0 None None)\<lparr>c_store := Some [1]\<rparr>"

theorem subscription_key_kept_witness:
  "\<exists>buf' c'. setSubscriptionKey (replicate 32 90) Secondary (Some (replicate 32 CHR ''k'' @ [NUL])) sample_conn
       = (True, Some buf', c') \<and>
     getSubscriptionKey (c'\<lparr>currentKeyID := Secondary\<rparr>) = cstr (replicate 32 CHR ''k'' @ [NUL]) \<and>
     take 32 buf' = replicate 32 NUL"
  by (rule subscription_key_kept) (simp_all add: cstr_append_NUL)

definition sample_answer :: "string \<Rightarrow> response" where
  "sample_answer t = empty_response\<lparr>statusCode := 200, content := t,
     headers := [\<lparr>h_name = ''x-iasreport-signing-certificate'', h_value = ''-----BEGIN%20X''\<rparr>,
                 \<lparr>h_name = ''X-IASReport-Signature'', h_value = ''AQ==''\<rparr>]\<rparr>"

definition sample_bio :: bio where
  "sample_bio = \<lparr>b64_put = (\<lambda>m. (int (length m), replicate (length m) CHR ''A'')), b64_get = (\<lambda>t. (1, [1]))\<rparr>"

lemma sample_answer_headers: "headers_as_string (sample_answer t) = headers_as_string (sample_answer [])"
  by (simp add: fun_eq_iff headers_as_string_def sample_answer_def)

lemma sample_answer_pieces:
  "url_decode (headers_as_string (sample_answer t) ''X-IASReport-Signing-Certificate'') = Inr (''-----BEGIN X'' @ [LF])"
  "headers_as_string (sample_answer t) ''X-IASReport-Signature'' = ''AQ=='' @ [LF]"
  "find_str_from ''-----BEGIN'' (''-----BEGIN X'' @ [LF]) 1 = None"
proof -
  have "headers_as_string (sample_answer []) ''X-IASReport-Signing-Certificate'' = ''-----BEGIN%20X'' @ [LF]"
    by code_simp
  then show "url_decode (headers_as_string (sample_answer t) ''X-IASReport-Signing-Certificate'')
      = Inr (''-----BEGIN X'' @ [LF])"
    by (simp add: sample_answer_headers [of t] strtoul_16_samples char_samples)
  have "headers_as_string (sample_answer []) ''X-IASReport-Signature'' = ''AQ=='' @ [LF]" by code_simp
  then show "headers_as_string (sample_answer t) ''X-IASReport-Signature'' = ''AQ=='' @ [LF]"
    by (simp only: sample_answer_headers [of t])
qed code_simp

lemma sample_answer_simps:
  "content (sample_answer t) = t" "statusCode (sample_answer t) = 200"
  by (simp_all add: sample_answer_def)

lemma sample_lib_simps:
  "ret (sample_lib r) = r" "pem_cert (sample_lib r) t = Some 1" "chain_valid (sample_lib r) st ch"
  "rsa_verifies (sample_lib r) m sg c \<longleftrightarrow> sg = [1]"
  by (simp_all add: sample_lib_def)

lemma sample_report_ok:
  "\<exists>s'. verify_response (sample_lib (\<lambda>_. 1)) sample_bio (True, True) trusted 4 (sample_answer t) [] [] s0 =
     (IAS_OK, t, [], s')"
proof -
  have p: "cert_pieces (''-----BEGIN X'' @ [LF]) 0 = [''-----BEGIN X'' @ [LF]]"
    using sample_answer_pieces(3) by (subst cert_pieces.simps) (simp add: substr_def)
  have h: "headers_as_string (sample_answer t) ''X-IASReport-Signing-Certificate'' \<noteq> []"
    using sample_answer_pieces(1) [of t] by auto
  show ?thesis
    using h sample_answer_pieces(1) [of t] p by (simp add: verify_response_def sample_answer_pieces(2) cert_load_def cert_load_size_def
        cert_stack_build_def cert_verify_def check_signature_def sha256_verify_def crypto_simps sample_lib_simps
        base64_decode_def sample_bio_def advisories_def content_string_def sample_answer_simps)
qed

lemma sample_conn_simps:
  "c_store sample_conn = Some [1]" "c_agent_name sample_conn = []"
  by (simp_all add: sample_conn_def ias_connection_def setSubscriptionKey_def Let_def)

lemma sample_report_any:
  "c_agent_name c = [] \<Longrightarrow>
   \<exists>s'. report (sample_lib (\<lambda>_. 1)) sample_bio (True, True) (Some (\<lambda>k u p. (True, sample_answer t))) 4
     payload [] [] c s0 = (IAS_OK, t, [], c\<lparr>c_agent := Deleted_agent\<rparr>, s')"
  using sample_report_ok [of "case c_store c of Some st \<Rightarrow> st | None \<Rightarrow> []" t s0]
  by (auto simp: report_def new_agent_def delete_agent_def sample_answer_simps IAS_OK_def)

lemmas sample_report = sample_report_any [OF sample_conn_simps(2)]

theorem report_ok_verified_witness:
  "\<exists>resp chain certs buf sz. statusCode resp = IAS_OK \<and> ''{}'' = content_string resp \<and>
     url_decode (headers_as_string resp ''X-IASReport-Signing-Certificate'') = Inr chain \<and>
     list_all2 (\<lambda>t x. pem_cert (sample_lib (\<lambda>_. 1)) (cstr t) = Some x) (cert_pieces chain 0) certs \<and>
     chain_valid (sample_lib (\<lambda>_. 1)) [1] certs \<and>
     base64_decode sample_bio True (headers_as_string resp ''X-IASReport-Signature'') = Some (buf, sz) \<and>
     rsa_verifies (sample_lib (\<lambda>_. 1)) (to_bytes ''{}'') (take (unat sz) buf) (hd certs)"
proof -
  obtain c' s' where "report (sample_lib (\<lambda>_. 1)) sample_bio (True, True) (Some (\<lambda>k u p. (True, sample_answer ''{}''))) 4
      [] [] [] sample_conn crypto_init = (IAS_OK, ''{}'', [], c', s')"
    using sample_report by blast
  from report_ok_verified [OF this] show ?thesis
    unfolding sample_conn_simps option.case snd_conv by blast
qed

end
