(* ===== verification/Agent_Curl.thy ===== *)
theory Agent_Curl
  imports Ias
begin

text \<open>
  The model of \<open>service-provider/agent_curl.cpp\<close>, the HTTP agent on libcurl (built on request
  only), and the interface \<open>http_agent\<close> that both agents implement for the attestation service
  client. The library is a parameter (\<open>curl_lib\<close>): which calls succeed, and what a transfer
  with given options delivers to the callbacks, a list of header lines and pieces of the body.
  The options set on the handle are kept in the order in which they are set.
\<close>

section \<open>The library and the agent object\<close>

datatype curl_option = Opt_verbose | Opt_protocols_https | Opt_header | Opt_headerfunction | Opt_headerdata
  | Opt_buffersize nat | Opt_noprogress | Opt_proxy string | Opt_noproxy string | Opt_cainfo string
  | Opt_writedata | Opt_writefunction | Opt_postfields string | Opt_httpheader "string list" | Opt_url string

datatype curl_event = Ev_header string | Ev_body string

record curl_lib =
  easy_init_ok :: bool
  setopt_ok :: "curl_option \<Rightarrow> bool"
  slist_ok :: "string \<Rightarrow> bool"
  perform :: "curl_option list \<Rightarrow> curl_event list \<times> bool"

record agent_curl =
  curl_handle :: "curl_option list option"
  sresponse :: string
  flag_eoh :: bool
  header_pos :: nat
  header_len :: nat

definition new_agent_curl :: agent_curl where
  "new_agent_curl = \<lparr>curl_handle = None, sresponse = [], flag_eoh = False, header_pos = 0, header_len = 0\<rparr>"

text \<open>\<open>curl_easy_setopt\<close>, and a row of such calls; \<open>True\<close> marks a call whose result is checked.\<close>

definition easy_setopt :: "curl_lib \<Rightarrow> curl_option \<Rightarrow> agent_curl \<Rightarrow> bool \<times> agent_curl" where
  "easy_setopt C opt a =
     (case curl_handle a of None \<Rightarrow> (False, a)
      | Some os \<Rightarrow> if setopt_ok C opt then (True, a\<lparr>curl_handle := Some (os @ [opt])\<rparr>) else (False, a))"

fun setopts :: "curl_lib \<Rightarrow> (bool \<times> curl_option) list \<Rightarrow> agent_curl \<Rightarrow> bool \<times> agent_curl" where
  "setopts C [] a = (True, a)"
| "setopts C ((checked, opt) # opts) a =
     (case easy_setopt C opt a of
        (ok, a') \<Rightarrow> if checked \<and> \<not> ok then (False, a') else setopts C opts a')"

section \<open>\<open>initialize\<close>\<close>

definition proxy_options :: "conn \<Rightarrow> (bool \<times> curl_option) list" where
  "proxy_options c =
     (if c_proxy_mode c = IAS_PROXY_NONE then [(True, Opt_proxy [])]
      else if c_proxy_mode c = IAS_PROXY_FORCE then
        (if proxy_url c \<noteq> [] then [(True, Opt_proxy (proxy_url c))] else []) @ [(True, Opt_noproxy [])]
      else [])"

definition curl_initialize :: "curl_lib \<Rightarrow> bool \<Rightarrow> conn \<Rightarrow> agent_curl \<Rightarrow> bool \<times> agent_curl" where
  "curl_initialize C debugging c a =
     (if \<not> easy_init_ok C then (False, a\<lparr>curl_handle := None\<rparr>)
      else setopts C
        ((if debugging then [(True, Opt_verbose)] else [])
         @ [(True, Opt_protocols_https), (True, Opt_header), (True, Opt_headerfunction), (True, Opt_headerdata),
            (False, Opt_buffersize 102400), (False, Opt_noprogress)]
         @ proxy_options c
         @ [(True, Opt_cainfo (c_ca_file c)), (True, Opt_writedata), (True, Opt_writefunction)])
        (a\<lparr>curl_handle := Some []\<rparr>))"

section \<open>The callbacks\<close>

text \<open>
  A blank line ends a block of headers; a line that is not blank after it begins another block
  (the server's answer after a proxy's), which is the one to keep.
\<close>

definition newline_at :: "string \<Rightarrow> nat option" where
  "newline_at header = find_if_from (\<lambda>c. c = LF \<or> c = CR) header 0"

definition header_callback :: "string \<Rightarrow> agent_curl \<Rightarrow> agent_curl" where
  "header_callback header a =
     (let idx = newline_at header;
          a' = (if flag_eoh a then
                  (if idx \<noteq> Some 0 then a\<lparr>header_pos := header_len a, flag_eoh := False\<rparr> else a)
                else if idx = Some 0 then a\<lparr>flag_eoh := True\<rparr> else a)
      in a'\<lparr>header_len := header_len a' + length header\<rparr>)"

definition write_callback :: "string \<Rightarrow> agent_curl \<Rightarrow> agent_curl" where
  "write_callback piece a = a\<lparr>sresponse := sresponse a @ piece\<rparr>"

text \<open>
  \<open>CURLOPT_HEADER\<close> is set, so a header line reaches both callbacks.
\<close>

definition on_event :: "curl_event \<Rightarrow> agent_curl \<Rightarrow> agent_curl" where
  "on_event e a = (case e of Ev_header h \<Rightarrow> header_callback h (write_callback h a) | Ev_body d \<Rightarrow> write_callback d a)"

text \<open>
  \<open>_read_callback\<close>: the bytes handed over (also echoed on the error stream) and the rest of
  the data; no option ever names this callback.
\<close>

definition read_callback :: "nat \<Rightarrow> string \<Rightarrow> string \<times> string" where
  "read_callback room bp =
     (let slen = length (cstr bp) in
      if slen = 0 then ([], bp)
      else let len = (if slen < room then slen else room) in (take len bp, drop len bp))"

section \<open>\<open>request\<close>\<close>

text \<open>
  The parser is given the start of a copy of the answer and the end of the answer itself, two
  pointers into different objects. \<open>Ends_after gap\<close>: the copy lies lower in memory, and \<open>gap\<close> is
  what lies between its last byte and the end of the answer; \<open>Never_ends gap\<close>: it lies higher,
  and after \<open>gap\<close> the memory ends.
\<close>

datatype memory_layout = Ends_after string | Never_ends string

datatype request_end = Answered bool response | Substr_throws | Reads_off_memory

definition parse_range :: "response \<Rightarrow> string \<Rightarrow> memory_layout \<Rightarrow> request_end" where
  "parse_range resp copy layout =
     (case layout of
        Ends_after gap \<Rightarrow>
          (case parse init_parser resp (copy @ gap) of (res, (p, resp')) \<Rightarrow> Answered (res = ParsingCompleted) resp')
      | Never_ends gap \<Rightarrow>
          (case consume (init_parser, resp) (copy @ gap) of
             (Some res, (p, resp')) \<Rightarrow> Answered (res = ParsingCompleted) resp'
           | (None, s) \<Rightarrow> Reads_off_memory))"

text \<open>
  The list of the two headers of a POST is a variable of its own (\<open>slist\<close> is declared again in
  the block), so the list given to the library holds the key only.
\<close>

definition post_options :: "curl_lib \<Rightarrow> string \<Rightarrow> (bool \<times> curl_option) list option" where
  "post_options C post =
     (if post = [] then Some []
      else if \<not> slist_ok C ''Content-Type: application/json'' then None
      else if \<not> slist_ok C ''Expect:'' then None
      else Some [(True, Opt_postfields (cstr post))])"

definition key_header :: "string \<Rightarrow> string" where
  "key_header key = ''Ocp-Apim-Subscription-Key: '' @ key"

definition curl_request ::
    "curl_lib \<Rightarrow> string \<Rightarrow> string \<Rightarrow> string \<Rightarrow> memory_layout \<Rightarrow> response \<Rightarrow> agent_curl \<Rightarrow> request_end \<times> agent_curl" where
  "curl_request C key url post layout resp a0 =
     (let a = a0\<lparr>sresponse := [], header_len := 0, header_pos := 0, flag_eoh := False\<rparr> in
      if \<not> slist_ok C (key_header key) then (Answered False resp, a)
      else case post_options C post of
        None \<Rightarrow> (Answered False resp, a)
      | Some opts \<Rightarrow>
        (case setopts C (opts @ [(True, Opt_httpheader [cstr (key_header key)]), (True, Opt_url (cstr url))]) a of
           (False, a) \<Rightarrow> (Answered False resp, a)
         | (True, a) \<Rightarrow>
             let (evs, ok) = perform C (case curl_handle a of Some os \<Rightarrow> os | None \<Rightarrow> []);
                 a = fold on_event evs a
             in if \<not> ok then (Answered False resp, a)
                else if header_pos a > length (sresponse a) then (Substr_throws, a)
                else (parse_range resp (drop (header_pos a) (sresponse a)) layout, a)))"

section \<open>Lemmas\<close>

text \<open>Header lines come one per callback; a block is some lines that are not blank and a blank one.\<close>

definition blank :: "string \<Rightarrow> bool" where
  "blank l \<longleftrightarrow> newline_at l = Some 0"

definition header_block :: "string list \<Rightarrow> bool" where
  "header_block b \<longleftrightarrow> butlast b \<noteq> [] \<and> blank (last b) \<and> (\<forall>l \<in> set (butlast b). \<not> blank l)"

lemma header_block_split: "header_block b \<Longrightarrow> \<exists>l ls e. b = l # ls @ [e] \<and> \<not> blank l \<and> (\<forall>l \<in> set ls. \<not> blank l) \<and> blank e"
  by (cases b rule: rev_cases; cases "butlast b") (auto simp: header_block_def)

lemma on_header_kept: "curl_handle (on_event e a) = curl_handle a"
  by (cases e) (simp_all add: on_event_def header_callback_def write_callback_def Let_def)

lemma fold_events_kept: "curl_handle (fold on_event evs a) = curl_handle a"
  by (induction evs arbitrary: a) (simp_all add: on_header_kept)

lemma bodies_received: "fold on_event (map Ev_body ds) a = a\<lparr>sresponse := sresponse a @ concat ds\<rparr>"
  by (induction ds arbitrary: a) (simp_all add: on_event_def write_callback_def)

lemma lines_received:
  "\<not> flag_eoh a \<Longrightarrow> \<forall>l \<in> set ls. \<not> blank l \<Longrightarrow> fold on_event (map Ev_header ls) a =
     a\<lparr>sresponse := sresponse a @ concat ls, header_len := header_len a + length (concat ls)\<rparr>"
  by (induction ls arbitrary: a)
    (simp_all add: on_event_def write_callback_def header_callback_def blank_def Let_def)

lemma first_line_received:
  "\<not> blank l \<Longrightarrow> on_event (Ev_header l) a =
     a\<lparr>sresponse := sresponse a @ l, header_len := header_len a + length l, flag_eoh := False,
       header_pos := (if flag_eoh a then header_len a else header_pos a)\<rparr>"
  by (simp add: on_event_def write_callback_def header_callback_def blank_def Let_def)

lemma blank_line_received:
  "blank l \<Longrightarrow> on_event (Ev_header l) a =
     a\<lparr>sresponse := sresponse a @ l, header_len := header_len a + length l, flag_eoh := True\<rparr>"
  by (simp add: on_event_def write_callback_def header_callback_def blank_def Let_def)

lemma block_received:
  assumes "header_block b"
  shows "fold on_event (map Ev_header b) a =
     a\<lparr>sresponse := sresponse a @ concat b, header_len := header_len a + length (concat b), flag_eoh := True,
       header_pos := (if flag_eoh a then header_len a else header_pos a)\<rparr>"
  using header_block_split [OF assms]
  by (auto simp: first_line_received lines_received blank_line_received)

lemma blocks_received:
  assumes "\<forall>b \<in> set bs. header_block b" and "bs \<noteq> []"
  shows "fold on_event (map Ev_header (concat bs)) a =
     a\<lparr>sresponse := sresponse a @ concat (concat bs), header_len := header_len a + length (concat (concat bs)),
       flag_eoh := True,
       header_pos := (if flag_eoh a \<or> tl bs \<noteq> [] then header_len a + length (concat (concat (butlast bs)))
                      else header_pos a)\<rparr>"
  using assms
proof (induction bs rule: rev_induct)
  case (snoc b bs)
  show ?case
  proof (cases "bs = []")
    case False
    with snoc show ?thesis by (cases bs) (simp_all add: block_received)
  qed (use snoc in \<open>simp add: block_received\<close>)
qed simp

text \<open>The mark never points beyond the text received, so cutting there never throws.\<close>

lemma callbacks_in_range:
  assumes "header_pos a \<le> header_len a" "header_len a \<le> length (sresponse a)"
  shows "header_pos (fold on_event evs a) \<le> header_len (fold on_event evs a) \<and>
    header_len (fold on_event evs a) \<le> length (sresponse (fold on_event evs a))"
  using assms
proof (induction evs arbitrary: a)
  case (Cons e evs)
  have "header_pos (on_event e a) \<le> header_len (on_event e a)"
    "header_len (on_event e a) \<le> length (sresponse (on_event e a))"
    using Cons.prems by (cases e; simp add: on_event_def header_callback_def write_callback_def Let_def)+
  then show ?case using Cons.IH by simp
qed simp

lemma setopts_all:
  assumes "\<forall>opt. setopt_ok C opt" "curl_handle a = Some os"
  shows "setopts C opts a = (True, a\<lparr>curl_handle := Some (os @ map snd opts)\<rparr>)"
  using assms(2)
proof (induction opts arbitrary: a os)
  case (Cons p opts)
  then show ?case by (cases p) (simp add: easy_setopt_def assms(1))
qed simp

text \<open>The layout of the memory does not matter to a parser that stops within the answer.\<close>

lemma parse_range_stops:
  "consume (init_parser, resp) copy = (Some res, (p, resp')) \<Longrightarrow>
     parse_range resp copy layout = Answered (res = ParsingCompleted) resp'"
  by (cases layout) (simp_all add: parse_range_def parse_def http.run_Some_append)

text \<open>What the agent hands to the library for a request: the options set before, then these.\<close>

definition request_options :: "string \<Rightarrow> string \<Rightarrow> string \<Rightarrow> curl_option list" where
  "request_options key url post =
     (if post = [] then [] else [Opt_postfields (cstr post)])
     @ [Opt_httpheader [cstr (key_header key)], Opt_url (cstr url)]"

lemma curl_request_performs:
  assumes "\<forall>opt. setopt_ok C opt" "\<forall>t. slist_ok C t" "curl_handle a = Some os"
    and "perform C (os @ request_options key url post) = (evs, True)"
    and "fold on_event evs (a\<lparr>sresponse := [], header_len := 0, header_pos := 0, flag_eoh := False,
       curl_handle := Some (os @ request_options key url post)\<rparr>) = a'"
  shows "curl_request C key url post layout resp a =
     (parse_range resp (drop (header_pos a') (sresponse a')) layout, a')"
proof -
  let ?a = "a\<lparr>sresponse := [], header_len := 0, header_pos := 0, flag_eoh := False\<rparr>"
  have "\<exists>opts. post_options C post = Some opts \<and>
      map snd opts @ [Opt_httpheader [cstr (key_header key)], Opt_url (cstr url)] = request_options key url post"
    using assms(2) by (cases "post = []") (simp_all add: post_options_def request_options_def)
  then obtain opts where p: "post_options C post = Some opts" and
    o: "map snd opts @ [Opt_httpheader [cstr (key_header key)], Opt_url (cstr url)] = request_options key url post"
    by blast
  have "setopts C (opts @ [(True, Opt_httpheader [cstr (key_header key)]), (True, Opt_url (cstr url))]) ?a =
      (True, ?a\<lparr>curl_handle := Some (os @ request_options key url post)\<rparr>)"
    using setopts_all [of C ?a os] assms(1,3) o by simp
  moreover have "header_pos a' \<le> length (sresponse a')"
    using callbacks_in_range [of "?a\<lparr>curl_handle := Some (os @ request_options key url post)\<rparr>" evs] assms(5) by simp
  ultimately show ?thesis
    using assms(2,4,5) p by (simp add: curl_request_def Let_def)
qed

lemma last_block_received:
  assumes "\<forall>b \<in> set bs. header_block b" "bs \<noteq> []"
    and "header_pos a = 0" "header_len a = 0" "sresponse a = []" "\<not> flag_eoh a"
    and "a' = fold on_event (map Ev_header (concat bs) @ map Ev_body ds) a"
  shows "drop (header_pos a') (sresponse a') = concat (last bs) @ concat ds"
proof -
  have "bs = butlast bs @ [last bs]" using assms(2) by simp
  then have c: "concat (concat bs) = concat (concat (butlast bs)) @ concat (last bs)"
    by (metis concat_append concat.simps append_Nil2)
  have "tl bs = [] \<Longrightarrow> butlast bs = []" by (cases bs) auto
  then show ?thesis
    using assms(3-6) unfolding assms(7) fold_append o_apply blocks_received [OF assms(1,2)] bodies_received
    by (auto simp: c)
qed
lemma curl_delivered:
  assumes "\<forall>opt. setopt_ok C opt" "\<forall>t. slist_ok C t" "curl_handle a = Some os"
    and "perform C (os @ request_options key url post) = (map Ev_header (concat bs) @ map Ev_body ds, True)"
    and "\<forall>b \<in> set bs. header_block b" "bs \<noteq> []"
    and "concat (last bs) = render_head m" "concat ds = body @ rest"
    and "head_ok m" "code_ok (m_code m)" "\<not> chunked (headers_parser m)"
    and "contentSize (headers_parser m) = of_nat (length body)" "length body < 2 ^ 63"
  shows "\<exists>a'. curl_request C key url post layout empty_response a =
     (Answered True ((decide_keep_alive (parsed_head m))\<lparr>content := body\<rparr>), a') \<and>
     [t. Opt_httpheader ts \<leftarrow> request_options key url post, t \<leftarrow> ts] = [cstr (key_header key)]"
proof -
  let ?a = "a\<lparr>sresponse := [], header_len := 0, header_pos := 0, flag_eoh := False,
      curl_handle := Some (os @ request_options key url post)\<rparr>"
  define a' where "a' = fold on_event (map Ev_header (concat bs) @ map Ev_body ds) ?a"
  have "curl_request C key url post layout empty_response a =
      (parse_range empty_response (drop (header_pos a') (sresponse a')) layout, a')"
    by (rule curl_request_performs [OF assms(1-4)]) (simp add: a'_def)
  moreover have "drop (header_pos a') (sresponse a') = render_head m @ body @ rest"
    using last_block_received [OF assms(5,6), of ?a a' ds] assms(7,8) by (simp add: a'_def)
  moreover have "\<exists>q. consume (init_parser, empty_response) (render_head m @ body @ rest) =
      (Some ParsingCompleted, (q, (decide_keep_alive (parsed_head m))\<lparr>content := body\<rparr>))"
    using consume_length_body [OF assms(9-13), of rest] by blast
  ultimately show ?thesis by (auto simp: parse_range_stops request_options_def)
qed

section \<open>The interface of the agents\<close>

text \<open>
  \<open>returns net key url post x\<close>: over the network \<open>net\<close> the agent's request comes back with \<open>x\<close>;
  \<open>answers net m body\<close>: every transfer over \<open>net\<close> yields that response. An agent promises to
  deliver a well-formed response to a POST; the attestation service client relies on no more.
\<close>

definition well_formed :: "http_head \<Rightarrow> string \<Rightarrow> bool" where
  "well_formed m body \<longleftrightarrow> head_ok m \<and> code_ok (m_code m) \<and> \<not> chunked (headers_parser m) \<and>
     contentSize (headers_parser m) = of_nat (length body) \<and> length body < 2 ^ 63"

definition response_of :: "http_head \<Rightarrow> string \<Rightarrow> response" where
  "response_of m body = (decide_keep_alive (parsed_head m))\<lparr>content := body\<rparr>"

lemma response_code: "statusCode (response_of m body) = of_nat (m_code m)"
  by (simp add: response_of_def parsed_head_def decide_keep_alive_def split: option.split)

locale http_agent =
  fixes answers :: "'net \<Rightarrow> http_head \<Rightarrow> string \<Rightarrow> bool"
    and returns :: "'net \<Rightarrow> string \<Rightarrow> string \<Rightarrow> string \<Rightarrow> bool \<times> response \<Rightarrow> bool"
  assumes delivered: "answers net m body \<Longrightarrow> well_formed m body \<Longrightarrow> post \<noteq> [] \<Longrightarrow>
      returns net key url post (True, response_of m body)"
begin

text \<open>\<open>a\<close> is the agent of the connection, working over \<open>net\<close>.\<close>

lemma report_refused:
  assumes "answers net m body" "well_formed m body" "(of_nat (m_code m) :: 32 word) \<noteq> IAS_OK"
    and "new_agent (Some a) c = (Some a, c')"
    and "\<And>key url post x. returns net key url post x \<Longrightarrow> a key url post = x"
  shows "report L B allocs (Some a) version payload content0 messages0 c s =
     (of_nat (m_code m), content0, messages0, delete_agent c', s)"
proof -
  have "a key url (report_body_text payload) = (True, response_of m body)" for key url
    by (rule assms(5), rule delivered [OF assms(1,2)]) (simp add: report_body_text_def)
  then show ?thesis
    using assms(3,4) by (simp add: report_def Let_def response_code)
qed

lemma report_accepted:
  assumes "answers net m body" "well_formed m body" "m_code m = 200"
    and "new_agent (Some a) c = (Some a, c')" "c_store c' = Some store"
    and "\<And>key url post x. returns net key url post x \<Longrightarrow> a key url post = x"
    and "verify_response L B allocs store version (response_of m body) content0 messages0 s =
       (rc, txt, messages, s')"
  shows "report L B allocs (Some a) version payload content0 messages0 c s =
     (rc, txt, messages, delete_agent c', s')"
proof -
  have "a key url (report_body_text payload) = (True, response_of m body)" for key url
    by (rule assms(6), rule delivered [OF assms(1,2)]) (simp add: report_body_text_def)
  moreover have "statusCode (response_of m body) = IAS_OK"
    by (simp add: response_code assms(3) IAS_OK_def)
  ultimately show ?thesis
    using assms(4,5,7) by (simp add: report_def Let_def)
qed

end

text \<open>
  The agent on \<open>wget\<close>: the child runs and prints the response. Its network is the run, its
  arguments and the file of the data.
\<close>

definition wget_answers :: "wget_run \<Rightarrow> http_head \<Rightarrow> string \<Rightarrow> bool" where
  "wget_answers run m body \<longleftrightarrow> mkstemp_ok run \<and> pipe_ok run \<and> fork_ok run \<and> Write_err \<notin> set (writes run) \<and>
     Pipe_err \<notin> set (pipe_reads run) \<and> Pipe_data [] \<notin> set (pipe_reads run) \<and>
     output_of (pipe_reads run) = render_head m @ body \<and> wait_result run = Wait_exited 0"

lemma wget_delivers:
  assumes "wget_answers run m body" "well_formed m body" "post \<noteq> []"
  shows "wget_agent verbose tmp run st c key url post = (True, response_of m body)"
proof -
  obtain argv st' where "wget_request verbose (proxy_conf.truncate c) key tmp run url post empty_response st =
      ((True, response_of m body), Some (Some post, argv), st')"
    using wget_delivered [where run = run and rest = "[]"] assms
    unfolding wget_answers_def well_formed_def response_of_def append_Nil2 by blast
  then show ?thesis by (simp add: wget_agent_def)
qed

interpretation wget: http_agent wget_answers "\<lambda>run key url post x. wget_agent verbose tmp run st c key url post = x"
  for verbose tmp st c
  by unfold_locales (rule wget_delivers)

text \<open>
  The agent on libcurl: the library's calls succeed and the transfer delivers the response in
  the last of some header blocks. Its network is the library and the layout of the memory.
\<close>

definition curl_answers :: "curl_lib \<times> memory_layout \<Rightarrow> http_head \<Rightarrow> string \<Rightarrow> bool" where
  "curl_answers net m body \<longleftrightarrow> (\<forall>opt. setopt_ok (fst net) opt) \<and> (\<forall>t. slist_ok (fst net) t) \<and>
     (\<forall>os. \<exists>bs ds. perform (fst net) os = (map Ev_header (concat bs) @ map Ev_body ds, True) \<and>
        (\<forall>b \<in> set bs. header_block b) \<and> bs \<noteq> [] \<and> concat (last bs) = render_head m \<and> concat ds = body)"

interpretation curl: http_agent curl_answers
  "\<lambda>net key url post x. fst (curl_request (fst net) key url post (snd net) empty_response
      (new_agent_curl\<lparr>curl_handle := Some os\<rparr>)) = Answered (fst x) (snd x)" for os
proof
  fix net m body post key url
  assume "curl_answers net m body" and w: "well_formed m body"
  then obtain bs ds where "perform (fst net) (os @ request_options key url post) =
      (map Ev_header (concat bs) @ map Ev_body ds, True)" "\<forall>b \<in> set bs. header_block b" "bs \<noteq> []"
    "concat (last bs) = render_head m" "concat ds = body" "\<forall>opt. setopt_ok (fst net) opt" "\<forall>t. slist_ok (fst net) t"
    unfolding curl_answers_def by blast
  then have "\<exists>a'. curl_request (fst net) key url post (snd net) empty_response
      (new_agent_curl\<lparr>curl_handle := Some os\<rparr>) = (Answered True (response_of m body), a')"
    using curl_delivered [of "fst net" "new_agent_curl\<lparr>curl_handle := Some os\<rparr>" os key url post bs ds m body "[]" "snd net"] w
    by (simp add: well_formed_def response_of_def)
  then show "fst (curl_request (fst net) key url post (snd net) empty_response
      (new_agent_curl\<lparr>curl_handle := Some os\<rparr>)) = Answered (fst (True, response_of m body)) (snd (True, response_of m body))"
    by auto
qed

section \<open>Properties\<close>

text \<open>
  C30. However many header blocks arrive before the server's own (a proxy's answer, an interim
  answer), the agent parses the last block and the body after it, its request succeeds with
  exactly that response, and neither the foreign end pointer it gives the parser nor the
  response's tail matters. The only header it sends is the key's.
\<close>

theorem curl_answers_with_last_block:
  assumes "\<forall>opt. setopt_ok C opt" "\<forall>t. slist_ok C t" "curl_handle a = Some os"
    and "perform C (os @ request_options key url post) = (map Ev_header (concat bs) @ map Ev_body ds, True)"
    and "\<forall>b \<in> set bs. header_block b" "bs \<noteq> []"
    and "concat (last bs) = render_head m" "concat ds = body @ rest"
    and "head_ok m" "code_ok (m_code m)" "\<not> chunked (headers_parser m)"
    and "contentSize (headers_parser m) = of_nat (length body)" "length body < 2 ^ 63"
  shows "\<exists>a'. curl_request C key url post layout empty_response a =
     (Answered True ((decide_keep_alive (parsed_head m))\<lparr>content := body\<rparr>), a') \<and>
     [t. Opt_httpheader ts \<leftarrow> request_options key url post, t \<leftarrow> ts] = [cstr (key_header key)]"
  using assms by (rule curl_delivered)

definition sample_blocks :: "string list list" where
  "sample_blocks = [[''HTTP/1.1 200 Connection established'' @ [CR, LF], [CR, LF]],
     [''HTTP/1.1 200 OK'' @ [CR, LF], ''Content-Length: 3'' @ [CR, LF], [CR, LF]]]"

definition sample_curl :: "curl_event list \<Rightarrow> curl_lib" where
  "sample_curl evs = \<lparr>easy_init_ok = True, setopt_ok = (\<lambda>_. True), slist_ok = (\<lambda>_. True), perform = (\<lambda>_. (evs, True))\<rparr>"

lemma sample_blocks_facts:
  "\<forall>b \<in> set sample_blocks. header_block b" "sample_blocks \<noteq> []"
  "concat (last sample_blocks) = render_head (sample_head ''Content-Length'' ''3'')"
  by code_simp+

theorem curl_answers_with_last_block_witness:
  "\<exists>a'. curl_request (sample_curl (map Ev_header (concat sample_blocks) @ map Ev_body [''a'', ''bc'']))
       ''KEY'' ''https://x'' ''{}'' (Never_ends []) empty_response (new_agent_curl\<lparr>curl_handle := Some []\<rparr>) =
     (Answered True ((decide_keep_alive (parsed_head (sample_head ''Content-Length'' ''3'')))\<lparr>content := ''abc''\<rparr>), a') \<and>
     [t. Opt_httpheader ts \<leftarrow> request_options ''KEY'' ''https://x'' ''{}'', t \<leftarrow> ts] = [cstr (key_header ''KEY'')]"
  by (rule curl_answers_with_last_block [where rest = "[]" and os = "[]" and bs = sample_blocks and ds = "[''a'', ''bc'']"])
    (simp_all add: sample_curl_def new_agent_curl_def sample_blocks_facts sample_length_facts)


definition sample_refusal :: http_head where
  "sample_refusal = (sample_head ''Content-Length'' ''3'')\<lparr>m_code := 401, m_reason := ''Unauthorized''\<rparr>"

definition refusing_run :: wget_run where
  "refusing_run = sample_run\<lparr>pipe_reads := [Pipe_data (render_head sample_refusal), Pipe_data ''abc'']\<rparr>"

definition refusing_agent :: agent where
  "refusing_agent = wget_agent False ''tmp'' refusing_run \<lparr>wget_args = [], environ = Map.empty\<rparr> sample_conn"

lemma sample_refusal_facts:
  "well_formed sample_refusal ''abc''" "(of_nat (m_code sample_refusal) :: 32 word) = 401"
proof -
  have "head_ok sample_refusal" "\<not> chunked (headers_parser sample_refusal)"
    "contentSize (headers_parser sample_refusal) = 3"
    by code_simp+
  then show "well_formed sample_refusal ''abc''" "(of_nat (m_code sample_refusal) :: 32 word) = 401"
    by (simp_all add: well_formed_def code_ok_def sample_refusal_def)
qed

lemma sample_conn_agent: "new_agent (Some a) sample_conn = (Some a, sample_conn\<lparr>c_agent := Live_agent\<rparr>)"
proof -
  have "c_agent_name sample_conn = []" by code_simp
  then show ?thesis by (simp add: new_agent_def)
qed


text \<open>
  A trailer (headers after the body, which the library reports like any header) begins a new
  block, and the mark, which counts header bytes only, then points to the body.
\<close>

theorem curl_trailer_misplaces:
  assumes "\<forall>b \<in> set bs. header_block b" "bs \<noteq> []" "\<not> blank t"
    and "a' = fold on_event (map Ev_header (concat bs) @ map Ev_body ds @ [Ev_header t])
               (new_agent_curl\<lparr>curl_handle := Some os\<rparr>)"
  shows "drop (header_pos a') (sresponse a') = concat ds @ t"
  using blocks_received [OF assms(1,2)]
  by (simp add: assms(3,4) bodies_received first_line_received new_agent_curl_def)

text \<open>
  When the answer ends before the parser is satisfied, the agent reads what happens to lie
  behind its copy of the answer: to the end of the memory, or as part of the response.
\<close>

theorem curl_short_answer_reads_on:
  assumes "consume (init_parser, resp) copy = (None, s)"
  shows "parse_range resp copy (Never_ends []) = Reads_off_memory"
    and "parse_range resp copy (Ends_after gap) =
      (case consume s gap of (Some res, (p, r)) \<Rightarrow> Answered (res = ParsingCompleted) r
       | (None, (p, r)) \<Rightarrow> Answered False r)"
  using assms by (auto simp: parse_range_def parse_def http.run_None_append split: prod.splits option.splits)

end
