(* ===== verification/Getopt.thy ===== *)
theory Getopt
  imports Prelude
begin

text \<open>
  The options of the programs: what \<open>getopt_long\<close> of the C library makes of the arguments
  (with the reordering that GNU systems do). An option is its character and its argument; an
  argument that is no option is kept for the end.
\<close>

datatype has_arg = No_argument | Required_argument | Optional_argument

type_synonym option_event = "char \<times> string option"
type_synonym long_options = "(string \<times> has_arg \<times> char) list"

text \<open>The string of short options: a colon after a letter means an argument.\<close>

fun short_spec :: "string \<Rightarrow> (char \<times> has_arg) list" where
  "short_spec [] = []"
| "short_spec [c] = [(c, No_argument)]"
| "short_spec (c # d # cs) =
     (if d = CHR '':'' then (c, Required_argument) # short_spec cs else (c, No_argument) # short_spec (d # cs))"

fun short_cluster ::
    "(char \<times> has_arg) list \<Rightarrow> string \<Rightarrow> string list \<Rightarrow> option_event list \<times> string list" where
  "short_cluster spec [] args = ([], args)"
| "short_cluster spec (c # cs) args =
     (case map_of spec c of
        None \<Rightarrow> (let (evs, r) = short_cluster spec cs args in ((CHR ''?'', None) # evs, r))
      | Some No_argument \<Rightarrow> (let (evs, r) = short_cluster spec cs args in ((c, None) # evs, r))
      | Some Optional_argument \<Rightarrow> ([(c, if cs = [] then None else Some cs)], args)
      | Some Required_argument \<Rightarrow>
          if cs \<noteq> [] then ([(c, Some cs)], args)
          else (case args of [] \<Rightarrow> ([(CHR ''?'', None)], []) | a # r \<Rightarrow> ([(c, Some a)], r)))"

text \<open>A long option may be given by any prefix that names one option only.\<close>

definition long_matches :: "long_options \<Rightarrow> string \<Rightarrow> long_options" where
  "long_matches longs name =
     (case filter (\<lambda>(n, _). n = name) longs of
        m # _ \<Rightarrow> [m]
      | [] \<Rightarrow> filter (\<lambda>(n, _). take (length name) n = name) longs)"

definition long_option ::
    "long_options \<Rightarrow> string \<Rightarrow> string list \<Rightarrow> option_event \<times> string list" where
  "long_option longs txt args =
     (let name = takeWhile (\<lambda>c. c \<noteq> CHR ''='') txt;
          val = (if length name < length txt then Some (drop (Suc (length name)) txt) else None);
          bad = ((CHR ''?'', None), args) in
      case long_matches longs name of
        [] \<Rightarrow> bad
      | (n, h, c) # ms \<Rightarrow>
          if \<exists>(n', h', c') \<in> set ms. h' \<noteq> h \<or> c' \<noteq> c then bad
          else case h of
            No_argument \<Rightarrow> if val = None then ((c, None), args) else bad
          | Optional_argument \<Rightarrow> ((c, val), args)
          | Required_argument \<Rightarrow>
              (case val of Some v \<Rightarrow> ((c, Some v), args)
               | None \<Rightarrow> (case args of [] \<Rightarrow> bad | a # r \<Rightarrow> ((c, Some a), r))))"

lemma short_cluster_le: "length (snd (short_cluster spec cs args)) \<le> length args"
  by (induction spec cs args rule: short_cluster.induct)
    (auto split: option.split has_arg.split list.split prod.split simp: case_prod_beta)

lemma long_option_le: "length (snd (long_option longs txt args)) \<le> length args"
  by (auto simp: long_option_def Let_def split: option.split has_arg.split list.split prod.split)

function getopt_long ::
    "(char \<times> has_arg) list \<Rightarrow> long_options \<Rightarrow> string list \<Rightarrow> option_event list \<times> string list" where
  "getopt_long spec longs [] = ([], [])"
| "getopt_long spec longs (a # args) =
     (if a = ''--'' then ([], args)
      else if take 2 a = ''--'' then
        (let p = long_option longs (drop 2 a) args; q = getopt_long spec longs (snd p)
         in (fst p # fst q, snd q))
      else if length a > 1 \<and> hd a = CHR ''-'' then
        (let p = short_cluster spec (tl a) args; q = getopt_long spec longs (snd p)
         in (fst p @ fst q, snd q))
      else (let q = getopt_long spec longs args in (fst q, a # snd q)))"
  by pat_completeness auto
termination
  by (relation "measure (\<lambda>(spec, longs, args). length args)")
    (auto simp: le_imp_less_Suc short_cluster_le long_option_le)

declare getopt_long.simps [simp del]

end
