(* ===== verification/Protocol.thy ===== *)
theory Protocol
  imports Prelude
begin

text \<open>
  The model of \<open>service-provider/protocol.h\<close>, which the service provider and the client share:
  the attestation status and message 4, and the byte images of the numbers in the messages (the
  machines are little endian). The order of the statuses is that of the enumeration.
\<close>

datatype attestation_status =
  NotTrusted | NotTrusted_ItsComplicated | Trusted_ItsComplicated | Trusted

fun status_value :: "attestation_status \<Rightarrow> 32 word" where
  "status_value NotTrusted = 0"
| "status_value NotTrusted_ItsComplicated = 1"
| "status_value Trusted_ItsComplicated = 2"
| "status_value Trusted = 3"

instantiation attestation_status :: linorder
begin

definition less_eq_attestation_status :: "attestation_status \<Rightarrow> attestation_status \<Rightarrow> bool" where
  "less_eq_attestation_status a b \<longleftrightarrow> status_value a \<le> status_value b"

definition less_attestation_status :: "attestation_status \<Rightarrow> attestation_status \<Rightarrow> bool" where
  "less_attestation_status a b \<longleftrightarrow> status_value a < status_value b"

instance
proof
  show "a \<le> b \<Longrightarrow> b \<le> a \<Longrightarrow> a = b" for a b :: attestation_status
    by (cases a; cases b) (simp_all add: less_eq_attestation_status_def word_le_nat_alt)
qed (auto simp: less_eq_attestation_status_def less_attestation_status_def)

end

text \<open>The size of the platform information blob is that of a structure of the SGX SDK.\<close>

record msg4 =
  m4_status :: attestation_status
  m4_pib :: bytes
  m4_ciphertext :: bytes

definition le16 :: "16 word \<Rightarrow> bytes" where
  "le16 w = [ucast w, ucast (drop_bit 8 w)]"

definition le32 :: "32 word \<Rightarrow> bytes" where
  "le32 w = [ucast w, ucast (drop_bit 8 w), ucast (drop_bit 16 w), ucast (drop_bit 24 w)]"

definition word_le32 :: "bytes \<Rightarrow> 32 word" where
  "word_le32 bs = ucast (bs ! 0) OR push_bit 8 (ucast (bs ! 1)) OR push_bit 16 (ucast (bs ! 2))
     OR push_bit 24 (ucast (bs ! 3))"

text \<open>The bytes of a field: \<open>n\<close> bytes from offset \<open>i\<close> on.\<close>

definition field :: "bytes \<Rightarrow> nat \<Rightarrow> nat \<Rightarrow> bytes" where
  "field b i n = take n (drop i b)"

lemma length_le16 [simp]: "length (le16 w) = 2"
  by (simp add: le16_def)

lemma length_le32 [simp]: "length (le32 w) = 4"
  by (simp add: le32_def)

lemma length_field [simp]: "i + n \<le> length b \<Longrightarrow> length (field b i n) = n"
  by (simp add: field_def)

lemma word_le32_le32: "word_le32 (le32 w) = w"
proof (rule bit_eqI)
  fix n assume "possible_bit TYPE(32 word) n"
  then have n: "n < 32" by simp
  have "n < 8 \<or> (8 \<le> n \<and> n < 16) \<or> (16 \<le> n \<and> n < 24) \<or> (24 \<le> n \<and> n < 32)" using n by linarith
  then show "bit (word_le32 (le32 w)) n \<longleftrightarrow> bit w n"
    using n by (auto simp: word_le32_def le32_def bit_or_iff bit_push_bit_iff bit_ucast_iff bit_drop_bit_eq)
qed

lemma status_value_inject: "status_value a = status_value b \<longleftrightarrow> a = b"
  by (cases a; cases b) simp_all

end
