(* ===== verification/Sp_Attest.thy ===== *)
theory Sp_Attest
  imports Ias Json Enclave_Verify Protocol
begin

text \<open>
  The model of \<open>get_attestation_report\<close> and \<open>get_sigrl\<close> of \<open>service-provider/sp.cpp\<close>: the
  requests to the attestation service and the trust decision on its answer.

  The surroundings of the service provider are the record \<open>sp_env\<close>: OpenSSL, the agent that is
  made for a request, results of allocations, the content of uninitialised memory, and the
  sizes and offsets of the structures of the SGX SDK. What a program run comes to is a \<open>run\<close>:
  a result, undefined behaviour (a read or write outside of a buffer, an uninitialised
  pointer), an exception nobody catches, or waiting for the peer.
\<close>

datatype 'a run = Done 'a | Undefined | Throws std_error | Waits

record sp_env =
  e_lib :: openssl
  e_bio :: bio
  e_aes :: "bytes \<Rightarrow> bytes \<Rightarrow> bytes"
  e_agent :: "agent option"
  e_new :: bool
  e_alloc_quote :: bool
  e_alloc_sigrl :: bool
  e_allocs_report :: "bool \<times> bool"
  e_junk :: "nat \<Rightarrow> byte"
  e_msg3_size :: nat
  e_pib_size :: nat
  e_gid_off :: nat
  e_body_off :: nat
  e_body_size :: nat
  e_sig_off :: nat
  e_body_of :: "bytes \<Rightarrow> report_body"
  e_debug_mask :: "64 word"

section \<open>The decision\<close>

definition ias_decision :: "bool \<Rightarrow> string \<Rightarrow> attestation_status" where
  "ias_decision strict_trust q =
     (if q = ''OK'' then Trusted
      else if q = ''SW_HARDENING_NEEDED'' \<or> q = ''CONFIGURATION_AND_SW_HARDENING_NEEDED'' then
        (if strict_trust then NotTrusted_ItsComplicated else Trusted_ItsComplicated)
      else if q = ''GROUP_OUT_OF_DATE'' then NotTrusted_ItsComplicated
      else NotTrusted)"

text \<open>
  The platform information blob: the text without its first eight characters is decoded into
  the zeroed array of the structure. \<open>None\<close> is an erasure or a write beyond the ends.
\<close>

definition decode_pib :: "(nat \<Rightarrow> byte) \<Rightarrow> nat \<Rightarrow> string \<Rightarrow> bytes option" where
  "decode_pib junk pib_size t =
     (if length t < 4 * 2 then None
      else let p = drop (4 * 2) t; ds = snd (from_hexstring junk p (length p div 2)) in
        if pib_size < length ds then None
        else Some (ds @ replicate (pib_size - length ds) 0))"

definition version_ok :: "32 word \<Rightarrow> json \<Rightarrow> bool" where
  "version_ok version j =
     (if has_key ''version'' j then word_of_int (to_int (snd (at_key ''version'' j))) = version
      else \<not> 3 \<le> sint version)"

definition judge_report ::
    "(nat \<Rightarrow> byte) \<Rightarrow> nat \<Rightarrow> bool \<Rightarrow> 32 word \<Rightarrow> json \<Rightarrow> msg4 option run" where
  "judge_report junk pib_size strict_trust version j =
     (if \<not> version_ok version j then Done None
      else let m4 = \<lparr>m4_status = ias_decision strict_trust (to_string (snd (at_key ''isvEnclaveQuoteStatus'' j))),
                     m4_pib = replicate pib_size 0, m4_ciphertext = replicate 16 0\<rparr>;
               p = snd (at_key ''platformInfoBlob'' j)
           in if is_null p then Done (Some m4)
              else case decode_pib junk pib_size (to_string p) of
                None \<Rightarrow> Undefined
              | Some b \<Rightarrow> Done (Some (m4\<lparr>m4_pib := b\<rparr>)))"

text \<open>In verbose mode the members are printed: \<open>operator[]\<close> inserts those that are missing.\<close>

definition printed_keys :: "32 word \<Rightarrow> string list" where
  "printed_keys version =
     (if 3 \<le> sint version then [''version''] else [])
     @ [''id'', ''timestamp'', ''isvEnclaveQuoteStatus'', ''isvEnclaveQuoteBody'', ''platformInfoBlob'',
        ''revocationReason'', ''pseManifestStatus'', ''pseManifestHash'', ''nonce'', ''epidPseudonym'']
     @ (if 4 \<le> sint version then [''advisoryURL'', ''advisoryIDs''] else [])"

definition touch_keys :: "string list \<Rightarrow> json \<Rightarrow> json" where
  "touch_keys ks j = fold (\<lambda>k j. fst (at_key k j)) ks j"

definition get_attestation_report ::
    "sp_env \<Rightarrow> bool \<Rightarrow> 32 word \<Rightarrow> string \<Rightarrow> bool \<Rightarrow> conn \<Rightarrow> cstate \<Rightarrow> msg4 option run \<times> conn \<times> cstate" where
  "get_attestation_report E verbose version b64quote strict_trust c s =
     (if \<not> e_new E then (Done None, c, s)
      else let (st, txt, messages, c', s') = report (e_lib E) (e_bio E) (e_allocs_report E) (e_agent E)
                 (ucast version) [(''isvEnclaveQuote'', b64quote)] [] [] c s
        in if st \<noteq> IAS_OK then (Done None, c', s')
           else (case load txt of
               J_ok j \<Rightarrow> judge_report (e_junk E) (e_pib_size E) strict_trust version
                 (if verbose then touch_keys (printed_keys version) j else j)
             | J_throw e \<Rightarrow> Throws e
             | _ \<Rightarrow> Undefined, c', s'))"

section \<open>The revocation list\<close>

lemma sigrl_keeps_key: "currentKeyID (snd (snd (sigrl ctor v gid t c))) = currentKeyID c"
  by (auto simp: sigrl_def new_agent_def delete_agent_def Let_def split: option.splits prod.splits if_splits)

lemma sigrl_keeps_key': "sigrl ctor v gid t c = (r, txt, c') \<Longrightarrow> currentKeyID c = currentKeyID c'"
  using sigrl_keeps_key [of ctor v gid t c] by simp

function sigrl_loop ::
    "agent option \<Rightarrow> 16 word \<Rightarrow> 32 word \<Rightarrow> string \<Rightarrow> conn \<Rightarrow> string option \<times> conn" where
  "sigrl_loop ctor version gid sigrlstr ias =
     (let (r, txt, ias') = sigrl ctor version gid sigrlstr ias in
      if r = IAS_UNAUTHORIZED \<and> currentKeyID ias' = Primary then
        sigrl_loop ctor version gid txt (ias'\<lparr>currentKeyID := Secondary\<rparr>)
      else if r \<noteq> IAS_OK then (None, ias') else (Some txt, ias'))"
  by pat_completeness auto
termination
  by (relation "measure (\<lambda>(ctor, v, gid, t, c). if currentKeyID c = Primary then 1 else 0)")
    (auto dest!: sym [of _ "sigrl _ _ _ _ _"] simp: sigrl_keeps_key')

declare sigrl_loop.simps [simp del]

definition get_sigrl ::
    "sp_env \<Rightarrow> 32 word \<Rightarrow> bytes \<Rightarrow> conn \<Rightarrow> (bytes \<times> 32 word) option \<times> conn" where
  "get_sigrl E version gid ias =
     (if \<not> e_new E then (None, ias)
      else case sigrl_loop (e_agent E) (ucast version) (word_le32 gid) [] ias of
        (None, ias') \<Rightarrow> (None, ias')
      | (Some txt, ias') \<Rightarrow>
          (case base64_decode (e_bio E) (e_alloc_sigrl E) txt of
             None \<Rightarrow> (None, ias')
           | Some (buf, sz) \<Rightarrow> (Some (buf, ucast sz), ias')))"

section \<open>Lemmas\<close>

lemma at_key_after: "snd (at_key k (fst (at_key k' j))) = snd (at_key k j)"
  by (cases j) (auto simp: at_key_def set_type_def map_of_put split: option.splits)

lemma has_key_after:
  "has_key k (fst (at_key k' j)) \<longleftrightarrow> k = k' \<or> has_key k j"
  by (cases j) (auto simp: at_key_def has_key_def set_type_def map_of_put split: option.splits)

lemma at_key_touch [simp]: "snd (at_key k (touch_keys ks j)) = snd (at_key k j)"
  by (induction ks arbitrary: j) (simp_all add: touch_keys_def at_key_after)

lemma has_key_touch [simp]: "has_key k (touch_keys ks j) \<longleftrightarrow> k \<in> set ks \<or> has_key k j"
  by (induction ks arbitrary: j) (auto simp: touch_keys_def has_key_after)

lemma at_key_missing: "\<not> has_key k j \<Longrightarrow> snd (at_key k j) = JNull"
  by (cases j) (auto simp: at_key_def has_key_def set_type_def)

lemma version_ok_touch: "version_ok v (touch_keys (printed_keys v) j) \<longleftrightarrow> version_ok v j"
proof (cases "3 \<le> sint v")
  case True
  then have "v \<noteq> 0" by auto
  then show ?thesis
    using True at_key_missing [of "''version''" j] by (simp add: version_ok_def printed_keys_def to_int_def)
next
  case False
  then show ?thesis by (simp add: version_ok_def printed_keys_def)
qed

lemma judge_touch: "judge_report junk n strict v (touch_keys (printed_keys v) j) = judge_report junk n strict v j"
  by (simp add: judge_report_def version_ok_touch)

text \<open>What a positive answer rests on.\<close>

lemma attestation_report_ok:
  assumes "get_attestation_report E vb v b64 strict c s = (Done (Some m4), c', s')"
  shows "\<exists>txt msgs j. report (e_lib E) (e_bio E) (e_allocs_report E) (e_agent E) (ucast v)
       [(''isvEnclaveQuote'', b64)] [] [] c s = (IAS_OK, txt, msgs, c', s') \<and>
     load txt = J_ok j \<and> version_ok v j \<and>
     m4_status m4 = ias_decision strict (to_string (snd (at_key ''isvEnclaveQuoteStatus'' j)))"
proof -
  obtain st t msgs c1 s1 where r: "report (e_lib E) (e_bio E) (e_allocs_report E) (e_agent E) (ucast v)
       [(''isvEnclaveQuote'', b64)] [] [] c s = (st, t, msgs, c1, s1)" by (rule prod_cases5)
  have st: "st = IAS_OK" "c1 = c'" "s1 = s'"
    using assms by (auto simp: get_attestation_report_def r split: if_splits)
  obtain j where j: "load t = J_ok j"
    and jr: "judge_report (e_junk E) (e_pib_size E) strict v (if vb then touch_keys (printed_keys v) j else j)
      = Done (Some m4)"
    using assms by (auto simp: get_attestation_report_def r split: if_splits jres.splits)
  then have "judge_report (e_junk E) (e_pib_size E) strict v j = Done (Some m4)"
    by (simp add: judge_touch split: if_splits)
  then have "version_ok v j \<and> m4_status m4 = ias_decision strict (to_string (snd (at_key ''isvEnclaveQuoteStatus'' j)))"
    by (auto simp: judge_report_def Let_def split: if_splits option.splits)
  with r st j show ?thesis by auto
qed

section \<open>Properties\<close>


text \<open>
  Printing the report in verbose mode inserts the missing members into it, among them the
  version, and still never changes the outcome of the attestation.
\<close>

theorem verbose_same_report:
  "get_attestation_report E True version b64 strict c s = get_attestation_report E False version b64 strict c s"
  by (simp add: get_attestation_report_def judge_touch Let_def split: prod.split jres.split)

text \<open>
  The revocation list is asked for at most twice, the second time with the secondary
  subscription key, exactly when the primary key was refused; the secondary key then stays
  selected.
\<close>

theorem sigrl_falls_back_once:
  "sigrl_loop ctor version gid t ias =
     (let (r1, t1, ias1) = sigrl ctor version gid t ias in
      if r1 = IAS_UNAUTHORIZED \<and> currentKeyID ias = Primary then
        let (r2, t2, ias2) = sigrl ctor version gid t1 (ias1\<lparr>currentKeyID := Secondary\<rparr>)
        in (if r2 = IAS_OK then Some t2 else None, ias2)
      else (if r1 = IAS_OK then Some t1 else None, ias1)) \<and>
   \<not> (fst (sigrl ctor version gid t ias) = IAS_UNAUTHORIZED \<and>
      currentKeyID (snd (sigrl_loop ctor version gid t ias)) = Primary)"
proof -
  obtain r1 t1 ias1 where a: "sigrl ctor version gid t ias = (r1, t1, ias1)" by (rule prod_cases3)
  obtain r2 t2 ias2 where b: "sigrl ctor version gid t1 (ias1\<lparr>currentKeyID := Secondary\<rparr>) = (r2, t2, ias2)"
    by (rule prod_cases3)
  have k: "currentKeyID ias = currentKeyID ias1" "currentKeyID ias2 = Secondary"
    using sigrl_keeps_key' [OF a] sigrl_keeps_key' [OF b] by simp_all
  have "sigrl_loop ctor version gid t1 (ias1\<lparr>currentKeyID := Secondary\<rparr>) =
      (if r2 = IAS_OK then Some t2 else None, ias2)"
    using b k by (subst sigrl_loop.simps) simp
  then show ?thesis
    using a b k by (subst (1 2) sigrl_loop.simps) auto
qed

text \<open>
  A platform information blob that fits is decoded into message 4 and padded with zeros;
  a longer one is written beyond the end of the structure, since its length is never compared
  with the size of the array.
\<close>

theorem pib_decoded_or_overflows:
  assumes "version_ok version j" and "snd (at_key ''platformInfoBlob'' j) = JString t"
    and "json_escape t = header @ print_hexstring blob" and "length header = 8"
  shows "judge_report junk pib_size strict version j =
    (if length blob \<le> pib_size then
       Done (Some \<lparr>m4_status = ias_decision strict (to_string (snd (at_key ''isvEnclaveQuoteStatus'' j))),
                   m4_pib = blob @ replicate (pib_size - length blob) 0, m4_ciphertext = replicate 16 0\<rparr>)
     else Undefined)"
proof -
  have "snd (from_hexstring junk (print_hexstring blob) (length blob)) = blob"
    using hexc.dec_enc [of junk blob "[]"] by simp
  then show ?thesis
    using assms
    by (simp add: judge_report_def is_null_def to_string_def decode_pib_def hexc.enc_length)
qed

theorem pib_decoded_or_overflows_witness:
  "judge_report (\<lambda>_. 0) 3 False 4 (JObject [(''isvEnclaveQuoteStatus'', JString ''OK''),
      (''platformInfoBlob'', JString ''15020065aabb''), (''version'', JIntegral 4)]) =
    (if length [0xaa, 0xbb :: byte] \<le> 3 then
       Done (Some \<lparr>m4_status = ias_decision False (to_string (snd (at_key ''isvEnclaveQuoteStatus''
          (JObject [(''isvEnclaveQuoteStatus'', JString ''OK''),
           (''platformInfoBlob'', JString ''15020065aabb''), (''version'', JIntegral 4)])))),
          m4_pib = [0xaa, 0xbb] @ replicate (3 - length [0xaa, 0xbb :: byte]) 0, m4_ciphertext = replicate 16 0\<rparr>)
     else Undefined)"
proof (rule pib_decoded_or_overflows [where header = "''15020065''" and t = "''15020065aabb''"])
  have "print_hexstring [0xaa, 0xbb] = ''aabb''" by code_simp
  then show "json_escape ''15020065aabb'' = ''15020065'' @ print_hexstring [0xaa, 0xbb]"
    by (simp add: json_escape_def escape_char_def)
qed (simp_all add: version_ok_def has_key_def at_key_def set_type_def to_int_def)

end
