(* ===== verification/Sp_Session.thy ===== *)
theory Sp_Session
  imports Sp_Attest Msgio Byteorder
begin

text \<open>
  The model of the sessions of \<open>service-provider/sp.cpp\<close>: \<open>process_msg01\<close>, \<open>derive_kdk\<close> and
  \<open>process_msg3\<close>. The structures of the messages are read from the received
  buffer at the offsets of their fields; a read beyond the end of the buffer is \<open>Undefined\<close>.
  \<open>reverse_bytes\<close> is used through its specification (list reversal), as proved for its model.
  The debug output and the copies in the log are left out.
\<close>

section \<open>State\<close>

record ra_session =
  g_a :: bytes
  g_b :: bytes
  kdk :: bytes
  smk :: bytes
  sk :: bytes
  mk :: bytes
  vk :: bytes

definition zero_session :: ra_session where
  "zero_session = \<lparr>g_a = replicate 64 0, g_b = replicate 64 0, kdk = replicate 16 0, smk = replicate 16 0,
     sk = replicate 16 0, mk = replicate 16 0, vk = replicate 16 0\<rparr>"

record config =
  spid :: bytes
  pri_subscription_key :: string
  sec_subscription_key :: string
  quote_type :: "16 word"
  service_private_key :: "pkey option"
  proxy_server :: "string option"
  ca_bundle :: "string option"
  user_agent :: "string option"
  proxy_port :: "32 word"
  store :: "cert list option"
  signing_ca :: "cert option"
  apiver :: "32 word"
  strict_trust :: bool
  req_mrsigner :: bytes
  req_isv_product_id :: "16 word"
  min_isvsvn :: "16 word"
  allow_debug_enclave :: bool
  debug :: bool
  verbose :: bool

record msg1 =
  m1_g_a :: bytes
  m1_gid :: bytes

record msg2 =
  m2_g_b :: bytes
  m2_spid :: bytes
  m2_quote_type :: "16 word"
  m2_kdf_id :: "16 word"
  m2_sign_gb_ga :: bytes
  m2_mac :: bytes
  m2_sig_rl_size :: "32 word"

text \<open>The part of message 2 that its MAC covers (148 bytes), and the fixed part as it is sent.\<close>

definition msg2_a :: "msg2 \<Rightarrow> bytes" where
  "msg2_a m = m2_g_b m @ m2_spid m @ le16 (m2_quote_type m) @ le16 (m2_kdf_id m) @ m2_sign_gb_ga m"

definition msg2_bytes :: "msg2 \<Rightarrow> bytes" where
  "msg2_bytes m = msg2_a m @ m2_mac m @ le32 (m2_sig_rl_size m)"

record sp_state =
  s_io :: msgio
  s_world :: world
  s_ias :: conn
  s_crypto :: cstate

definition junk_bytes :: "sp_env \<Rightarrow> nat \<Rightarrow> bytes" where
  "junk_bytes E n = map (e_junk E) [0..<n]"

text \<open>The derivation labels \<open>0x01 || name || 0x00 || 0x80 || 0x00\<close>.\<close>

definition label_SMK :: bytes where "label_SMK = [1, 83, 77, 75, 0, 128, 0]"
definition label_VK :: bytes where "label_VK = [1, 86, 75, 0, 128, 0]"
definition label_MK :: bytes where "label_MK = [1, 77, 75, 0, 128, 0]"
definition label_SK :: bytes where "label_SK = [1, 83, 75, 0, 128, 0]"

section \<open>Messages 0, 1 and 2\<close>

definition derive_kdk :: "openssl \<Rightarrow> pkey \<Rightarrow> bytes \<Rightarrow> bytes \<Rightarrow> cstate \<Rightarrow> bool \<times> bytes \<times> cstate" where
  "derive_kdk L Gb kdk0 ga s =
     (case key_from_sgx_ec256 L (take 32 ga, drop 32 ga) s of
        (None, s) \<Rightarrow> (False, kdk0, s)
      | (Some Ga, s) \<Rightarrow>
          (case key_shared_secret L Gb Ga s of
             (None, s) \<Rightarrow> (False, kdk0, s)
           | (Some Gab_x, s) \<Rightarrow>
               let (_, k, s) = cmac128 L (replicate 16 0) (rev Gab_x) kdk0 s in (True, k, s)))"

text \<open>From the received buffer on. The result is messages 1 and 2, the revocation list, the session.\<close>

definition answer_msg01 ::
    "sp_env \<Rightarrow> config \<Rightarrow> ra_session \<Rightarrow> bytes \<Rightarrow> conn \<Rightarrow> cstate
      \<Rightarrow> (msg1 \<times> msg2 \<times> bytes \<times> ra_session) option run \<times> conn \<times> cstate" where
  "answer_msg01 E cfg ses b ias s =
     (if length b < 4 then (Undefined, ias, s)
      else if word_le32 b \<noteq> 0 then (Done None, ias, s)
      else if length b < 72 then (Undefined, ias, s)
      else let L = e_lib E; m1 = \<lparr>m1_g_a = field b 4 64, m1_gid = field b 68 4\<rparr> in
        case key_generate L s of
          (None, s) \<Rightarrow> (Done None, ias, s)
        | (Some Gb, s) \<Rightarrow>
            (case derive_kdk L Gb (kdk ses) (m1_g_a m1) s of
               (False, _, s) \<Rightarrow> (Done None, ias, s)
             | (True, k, s) \<Rightarrow>
                 let (_, sm, s) = cmac128 L k label_SMK (smk ses) s;
                     (_, (gx, gy), s) = key_to_sgx_ec256 L (replicate 32 0, replicate 32 0) Gb s;
                     gb = gx @ gy
                 in case get_sigrl E (apiver cfg) (m1_gid m1) ias of
                      (None, ias) \<Rightarrow> (Done None, ias, s)
                    | (Some (rl, sigsz), ias) \<Rightarrow>
                        (case service_private_key cfg of
                           None \<Rightarrow> (Undefined, ias, s)
                         | Some key \<Rightarrow>
                             let (_, (r, sg, _), s) = ecdsa_sign L (gb @ m1_g_a m1) key
                                   (junk_bytes E 32, junk_bytes E 32, junk_bytes E 32) s;
                                 m2 = \<lparr>m2_g_b = gb, m2_spid = spid cfg, m2_quote_type = quote_type cfg,
                                       m2_kdf_id = 1, m2_sign_gb_ga = rev r @ rev sg,
                                       m2_mac = replicate 16 0, m2_sig_rl_size = sigsz\<rparr>;
                                 (_, mac, s) = cmac128 L sm (msg2_a m2) (m2_mac m2) s
                             in (Done (Some (m1, m2\<lparr>m2_mac := mac\<rparr>, rl,
                                   ses\<lparr>g_a := m1_g_a m1, g_b := gb, kdk := k, smk := sm\<rparr>)), ias, s))))"

definition process_msg01 ::
    "sp_env \<Rightarrow> config \<Rightarrow> ra_session \<Rightarrow> sp_state \<Rightarrow> (msg1 \<times> msg2 \<times> bytes \<times> ra_session) option run \<times> sp_state" where
  "process_msg01 E cfg ses st =
     (case read (e_junk E) (s_io st) (s_world st) of (r, io, w) \<Rightarrow>
        let st = st\<lparr>s_io := io, s_world := w\<rparr> in
        case r of
          Blocked \<Rightarrow> (Waits, st)
        | Returned rv dest _ \<Rightarrow>
            if rv = -1 \<or> rv = 0 then (Done None, st)
            else (case dest of
                None \<Rightarrow> (Undefined, st)
              | Some b \<Rightarrow> let (res, ias, s) = answer_msg01 E cfg ses b (s_ias st) (s_crypto st)
                  in (res, st\<lparr>s_ias := ias, s_crypto := s\<rparr>)))"

section \<open>Messages 3 and 4\<close>

text \<open>\<open>(uint32_t)((sz / 2) - sizeof(sgx_ra_msg3_t))\<close>, which wraps.\<close>

definition quote_size :: "nat \<Rightarrow> nat \<Rightarrow> 32 word" where
  "quote_size msg3_size sz = word_of_int (int (sz div 2) - int msg3_size)"

text \<open>The checks of message 3 up to the identity of the enclave.\<close>

definition check_report ::
    "sp_env \<Rightarrow> config \<Rightarrow> ra_session \<Rightarrow> bytes \<Rightarrow> msg4 \<Rightarrow> cstate \<Rightarrow> (msg4 \<times> ra_session) option \<times> cstate" where
  "check_report E cfg ses body m4 s =
     (let L = e_lib E; r = e_body_of E body;
          (_, v, s) = cmac128 L (kdk ses) label_VK (vk ses) s;
          (_, h, s) = sha256_digest L (g_a ses @ g_b ses @ v) s
      in if h @ replicate 32 0 \<noteq> report_data r then (None, s)
         else (Some (if verify_enclave_identity (e_debug_mask E) (req_mrsigner cfg) (req_isv_product_id cfg)
                          (min_isvsvn cfg) (allow_debug_enclave cfg) r
                     then m4 else m4\<lparr>m4_status := NotTrusted\<rparr>, ses\<lparr>vk := v\<rparr>), s))"

text \<open>
  In verbose mode the signature of the quote is printed. Its length stands before it, in the
  quote, that is, in the message of the client; it is not compared with the bytes that arrived.
  \<open>None\<close>: they are read past the end.
\<close>

definition signature_shown :: "sp_env \<Rightarrow> bytes \<Rightarrow> string option" where
  "signature_shown E quote =
     (if length quote < e_sig_off E then None
      else let n = unat (word_le32 (field quote (e_sig_off E - 4) 4)) in
        if length quote < e_sig_off E + n then None else Some (print_hexstring (field quote (e_sig_off E) n)))"

definition check_msg3 ::
    "sp_env \<Rightarrow> config \<Rightarrow> ra_session \<Rightarrow> msg1 \<Rightarrow> bytes \<Rightarrow> nat \<Rightarrow> conn \<Rightarrow> cstate
      \<Rightarrow> (msg4 \<times> ra_session) option run \<times> conn \<times> cstate" where
  "check_msg3 E cfg ses m1 b sz ias s =
     (let qsz = unat (quote_size (e_msg3_size E) sz) in
      if length b < 16 + 64 then (Undefined, ias, s)
      else if field b 16 64 \<noteq> m1_g_a m1 then (Done None, ias, s)
      else if length b < e_msg3_size E + qsz then (Undefined, ias, s)
      else
        let (_, mac, s) = cmac128 (e_lib E) (smk ses) (field b 16 (e_msg3_size E - 16 + qsz)) (junk_bytes E 16) s;
            quote = field b (e_msg3_size E) qsz
        in if take 16 b \<noteq> mac then (Done None, ias, s)
           else case base64_encode (e_bio E) (e_alloc_quote E) quote of
             None \<Rightarrow> (Done None, ias, s)
           | Some b64quote \<Rightarrow>
               if verbose cfg \<and> signature_shown E quote = None then (Undefined, ias, s)
               else if qsz < e_gid_off E + 4 then (Undefined, ias, s)
               else if memcmp (m1_gid m1) (field quote (e_gid_off E) 4) \<noteq> 0 then (Done None, ias, s)
               else case get_attestation_report E (verbose cfg) (apiver cfg) b64quote (strict_trust cfg) ias s of
                 (Done (Some m4), ias, s) \<Rightarrow>
                   if qsz < e_body_off E + e_body_size E then (Undefined, ias, s)
                   else let (res, s) = check_report E cfg ses (field quote (e_body_off E) (e_body_size E)) m4 s
                     in (Done res, ias, s)
               | (Done None, ias, s) \<Rightarrow> (Done None, ias, s)
               | (Undefined, ias, s) \<Rightarrow> (Undefined, ias, s)
               | (Throws e, ias, s) \<Rightarrow> (Throws e, ias, s)
               | (Waits, ias, s) \<Rightarrow> (Waits, ias, s))"

text \<open>Only the first block of the plain text is encrypted.\<close>

definition greeting :: string where
  "greeting = ''Hello, Client! welcome to india !!!!!!!!!! go baby go ''"

definition send_msg4 ::
    "sp_env \<Rightarrow> msg4 \<Rightarrow> ra_session \<Rightarrow> sp_state \<Rightarrow> msg4 \<times> ra_session \<times> sp_state" where
  "send_msg4 E m4 ses st =
     (let (io, w) = send_partial (le32 (status_value (m4_status m4))) (s_io st) (s_world st);
          (io, w) = send_partial (m4_pib m4) io w
      in if m4_status m4 = Trusted \<or> m4_status m4 = Trusted_ItsComplicated then
           let L = e_lib E;
               (_, m, s) = cmac128 L (kdk ses) label_MK (mk ses) (s_crypto st);
               (_, k, s) = cmac128 L (kdk ses) label_SK (sk ses) s;
               (_, _, s) = sha256_digest L m s;
               (_, _, s) = sha256_digest L k s;
               ct = e_aes E k (to_bytes (take 16 greeting));
               (io, w) = send ct io w
           in (m4\<lparr>m4_ciphertext := ct\<rparr>, ses\<lparr>mk := m, sk := k\<rparr>, st\<lparr>s_io := io, s_world := w, s_crypto := s\<rparr>)
         else (m4, ses, st\<lparr>s_io := io, s_world := w\<rparr>))"

definition process_msg3 ::
    "sp_env \<Rightarrow> config \<Rightarrow> msg1 \<Rightarrow> ra_session \<Rightarrow> sp_state \<Rightarrow> (msg4 \<times> ra_session) option run \<times> sp_state" where
  "process_msg3 E cfg m1 ses st =
     (case read (e_junk E) (s_io st) (s_world st) of (r, io, w) \<Rightarrow>
        let st = st\<lparr>s_io := io, s_world := w\<rparr> in
        case r of
          Blocked \<Rightarrow> (Waits, st)
        | Returned rv dest szo \<Rightarrow>
            if rv = -1 \<or> rv = 0 then (Done None, st)
            else (case (dest, szo) of
                (Some b, Some sz) \<Rightarrow>
                  (case check_msg3 E cfg ses m1 b sz (s_ias st) (s_crypto st) of (res, ias, s) \<Rightarrow>
                    let st = st\<lparr>s_ias := ias, s_crypto := s\<rparr> in
                    case res of
                      Done (Some (m4, ses)) \<Rightarrow>
                        (let (m4, ses, st) = send_msg4 E m4 ses st in (Done (Some (m4, ses)), st))
                    | _ \<Rightarrow> (res, st))
              | _ \<Rightarrow> (Undefined, st)))"

section \<open>Lemmas\<close>

text \<open>The library calls when none of them fails.\<close>

lemma cmac128_value:
  "\<forall>n. ret L n = 1 \<Longrightarrow> \<exists>s'. cmac128 L key msg mac s = (True, cmac_aes L key msg, s')"
  by (simp add: cmac128_def crypto_simps)

lemma sha256_digest_ok:
  "\<forall>n. ret L n = 1 \<Longrightarrow> \<exists>s'. sha256_digest L msg s = (True, sha256 L msg, s')"
  by (simp add: sha256_digest_def crypto_simps)

lemma key_to_sgx_ec256_ok:
  "\<forall>n. ret L n = 1 \<Longrightarrow> has_ec key \<Longrightarrow> pub key = Some (x, y) \<Longrightarrow>
   \<exists>s'. key_to_sgx_ec256 L k0 key s = (True, (bn2lebinpad L x 32, bn2lebinpad L y 32), s')"
  by (simp add: key_to_sgx_ec256_def crypto_simps)

lemma ecdsa_sign_ok:
  "\<forall>n. ret L n = 1 \<Longrightarrow> has_ec key \<Longrightarrow>
   \<exists>s'. ecdsa_sign L msg key outs s =
     (True, (bn2binpad L (fst (ecdsa L (sha256 L msg) key)) 32, bn2binpad L (snd (ecdsa L (sha256 L msg) key)) 32,
             sha256 L msg), s')"
  by (cases outs) (simp add: ecdsa_sign_def sha256_digest_def crypto_simps split: prod.splits)

lemma key_generate_ok:
  "\<forall>n. ret L n = 1 \<Longrightarrow> \<exists>n s'. key_generate L s = (Some (keygen L n), s')"
  by (simp add: key_generate_def crypto_simps, blast)

lemma derive_kdk_ok:
  assumes "\<forall>n. ret L n = 1" and "derive_kdk L Gb k0 ga s = (True, k, s')"
  shows "on_curve L (lebin2bn L (take 32 ga), lebin2bn L (drop 32 ga)) \<and>
    k = cmac_aes L (replicate 16 0) (rev (ecdh L Gb
      \<lparr>has_ec = True, prv = None, pub = Some (lebin2bn L (take 32 ga), lebin2bn L (drop 32 ga))\<rparr>))"
  using assms
  by (auto simp: derive_kdk_def key_from_sgx_ec256_def key_shared_secret_def cmac128_def crypto_simps
      split: if_splits)

lemma check_report_ok:
  assumes "\<forall>n. ret (e_lib E) n = 1" and "check_report E cfg ses body m4 s = (Some (m4', ses'), s')"
  shows "let v = cmac_aes (e_lib E) (kdk ses) label_VK; r = e_body_of E body in
     ses' = ses\<lparr>vk := v\<rparr> \<and>
     report_data r = sha256 (e_lib E) (g_a ses @ g_b ses @ v) @ replicate 32 0 \<and>
     m4_status m4' = (if verify_enclave_identity (e_debug_mask E) (req_mrsigner cfg) (req_isv_product_id cfg)
        (min_isvsvn cfg) (allow_debug_enclave cfg) r then m4_status m4 else NotTrusted)"
proof -
  obtain s1 where c: "cmac128 (e_lib E) (kdk ses) label_VK (vk ses) s =
      (True, cmac_aes (e_lib E) (kdk ses) label_VK, s1)" using cmac128_value [OF assms(1)] by blast
  obtain s2 where h: "sha256_digest (e_lib E) (g_a ses @ g_b ses @ cmac_aes (e_lib E) (kdk ses) label_VK) s1 =
      (True, sha256 (e_lib E) (g_a ses @ g_b ses @ cmac_aes (e_lib E) (kdk ses) label_VK), s2)"
    using sha256_digest_ok [OF assms(1)] by blast
  show ?thesis using assms(2) by (auto simp: check_report_def c h Let_def split: if_splits)
qed

text \<open>
  What message 3 has to be for the service provider to go on: the quote is what follows the
  fixed part.
\<close>

definition msg3_genuine ::
    "sp_env \<Rightarrow> config \<Rightarrow> ra_session \<Rightarrow> msg1 \<Rightarrow> bytes \<Rightarrow> nat \<Rightarrow> bool" where
  "msg3_genuine E cfg ses m1 b n \<longleftrightarrow>
     field b 16 64 = m1_g_a m1 \<and>
     take 16 b = cmac_aes (e_lib E) (smk ses) (field b 16 (e_msg3_size E - 16 + n)) \<and>
     memcmp (m1_gid m1) (field (field b (e_msg3_size E) n) (e_gid_off E) 4) = 0 \<and>
     report_data (e_body_of E (field (field b (e_msg3_size E) n) (e_body_off E) (e_body_size E))) =
       sha256 (e_lib E) (g_a ses @ g_b ses @ cmac_aes (e_lib E) (kdk ses) label_VK) @ replicate 32 0"

lemma check_msg3_ok:
  assumes "\<forall>n. ret (e_lib E) n = 1"
    and "check_msg3 E cfg ses m1 b sz ias s = (Done (Some (m4, ses')), ias', s')"
  defines "n \<equiv> unat (quote_size (e_msg3_size E) sz)"
  shows "e_msg3_size E + n \<le> length b \<and> msg3_genuine E cfg ses m1 b n \<and>
    ses' = ses\<lparr>vk := cmac_aes (e_lib E) (kdk ses) label_VK\<rparr> \<and>
    (\<exists>b64 m4' s1 s2. base64_encode (e_bio E) (e_alloc_quote E) (field b (e_msg3_size E) n) = Some b64 \<and>
       get_attestation_report E (verbose cfg) (apiver cfg) b64 (strict_trust cfg) ias s1 = (Done (Some m4'), ias', s2) \<and>
       m4_status m4 = (if verify_enclave_identity (e_debug_mask E) (req_mrsigner cfg) (req_isv_product_id cfg)
         (min_isvsvn cfg) (allow_debug_enclave cfg)
         (e_body_of E (field (field b (e_msg3_size E) n) (e_body_off E) (e_body_size E))) then m4_status m4' else NotTrusted))"
proof -
  let ?q = "field b (e_msg3_size E) n"
  obtain s1 where mac: "cmac128 (e_lib E) (smk ses) (field b 16 (e_msg3_size E - 16 + n)) (junk_bytes E 16) s =
      (True, cmac_aes (e_lib E) (smk ses) (field b 16 (e_msg3_size E - 16 + n)), s1)"
    using cmac128_value [OF assms(1)] by blast
  note unf = assms(2) [unfolded check_msg3_def Let_def, folded n_def, unfolded mac prod.case]
  from unf have guards: "field b 16 64 = m1_g_a m1" "e_msg3_size E + n \<le> length b"
      "take 16 b = cmac_aes (e_lib E) (smk ses) (field b 16 (e_msg3_size E - 16 + n))"
    by (auto split: if_splits)
  from unf guards obtain b64 where b64: "base64_encode (e_bio E) (e_alloc_quote E) ?q = Some b64"
    by (auto split: if_splits option.splits)
  obtain r ias2 s2 where ar: "get_attestation_report E (verbose cfg) (apiver cfg) b64 (strict_trust cfg) ias s1 = (r, ias2, s2)"
    by (rule prod_cases3)
  from unf guards b64 ar have gid: "memcmp (m1_gid m1) (field ?q (e_gid_off E) 4) = 0"
    by (auto split: if_splits)
  from unf guards b64 ar gid obtain m4' where r: "r = Done (Some m4')"
    by (cases r) (auto split: if_splits option.splits)
  from unf guards b64 ar gid r have cr: "ias2 = ias'"
    "check_report E cfg ses (field ?q (e_body_off E) (e_body_size E)) m4' s2 = (Some (m4, ses'), s')"
    by (auto split: if_splits prod.splits)
  from check_report_ok [OF assms(1) cr(2)] guards gid b64 ar r cr(1) show ?thesis
    by (auto simp: msg3_genuine_def Let_def)
qed

lemma send_msg4_status: "send_msg4 E m4 ses st = (m4', ses', st') \<Longrightarrow> m4_status m4' = m4_status m4"
  by (auto simp: send_msg4_def Let_def split: prod.splits if_splits)

text \<open>A message 3 that was answered was read, checked, and answered by message 4.\<close>

lemma process_msg3_ok:
  assumes "process_msg3 E cfg m1 ses st = (Done (Some (m4, ses')), st')"
  obtains rv b sz io w ias s m4' ses1 where
    "read (e_junk E) (s_io st) (s_world st) = (Returned rv (Some b) (Some sz), io, w)"
    "check_msg3 E cfg ses m1 b sz (s_ias st) (s_crypto st) = (Done (Some (m4', ses1)), ias, s)"
    "send_msg4 E m4' ses1 (st\<lparr>s_io := io, s_world := w, s_ias := ias, s_crypto := s\<rparr>) = (m4, ses', st')"
proof -
  obtain r io w where rd: "read (e_junk E) (s_io st) (s_world st) = (r, io, w)" by (rule prod_cases3)
  obtain rv b sz where r: "r = Returned rv (Some b) (Some sz)"
    using assms rd by (cases r) (auto simp: process_msg3_def Let_def split: if_splits option.splits)
  obtain res ias s where ck: "check_msg3 E cfg ses m1 b sz (s_ias st) (s_crypto st) = (res, ias, s)"
    by (rule prod_cases3)
  obtain m4' ses1 where res: "res = Done (Some (m4', ses1))"
    using assms rd r ck by (cases res) (auto simp: process_msg3_def Let_def split: if_splits option.splits)
  have "send_msg4 E m4' ses1 (st\<lparr>s_io := io, s_world := w, s_ias := ias, s_crypto := s\<rparr>) = (m4, ses', st')"
    using assms rd r ck res by (auto simp: process_msg3_def Let_def split: if_splits prod.splits)
  with rd r ck res show thesis by (intro that) simp_all
qed

lemma quote_size_exact: "n < 2 ^ 32 \<Longrightarrow> unat (quote_size m (2 * (m + n))) = n"
proof -
  assume "n < 2 ^ 32"
  then have "unat (of_nat n :: 32 word) = n" by (simp add: unsigned_of_nat take_bit_nat_eq_self)
  then show ?thesis by (simp add: quote_size_def)
qed

lemma check_report_complete:
  assumes "\<forall>n. ret (e_lib E) n = 1"
    and "report_data (e_body_of E body) =
      sha256 (e_lib E) (g_a ses @ g_b ses @ cmac_aes (e_lib E) (kdk ses) label_VK) @ replicate 32 0"
  shows "\<exists>s'. check_report E cfg ses body m4 s = (Some (
     if verify_enclave_identity (e_debug_mask E) (req_mrsigner cfg) (req_isv_product_id cfg) (min_isvsvn cfg)
       (allow_debug_enclave cfg) (e_body_of E body) then m4 else m4\<lparr>m4_status := NotTrusted\<rparr>,
     ses\<lparr>vk := cmac_aes (e_lib E) (kdk ses) label_VK\<rparr>), s')"
proof -
  obtain s1 where c: "cmac128 (e_lib E) (kdk ses) label_VK (vk ses) s =
      (True, cmac_aes (e_lib E) (kdk ses) label_VK, s1)" using cmac128_value [OF assms(1)] by blast
  obtain s2 where h: "sha256_digest (e_lib E) (g_a ses @ g_b ses @ cmac_aes (e_lib E) (kdk ses) label_VK) s1 =
      (True, sha256 (e_lib E) (g_a ses @ g_b ses @ cmac_aes (e_lib E) (kdk ses) label_VK), s2)"
    using sha256_digest_ok [OF assms(1)] by blast
  show ?thesis using assms(2) by (simp add: check_report_def c h Let_def)
qed

lemma check_msg3_complete:
  assumes "\<forall>n. ret (e_lib E) n = 1" and "msg3_genuine E cfg ses m1 b n"
    and "length b = e_msg3_size E + n" and "n < 2 ^ 32" and "80 \<le> e_msg3_size E"
    and "e_gid_off E + 4 \<le> n" and "e_body_off E + e_body_size E \<le> n \<and>
      (verbose cfg \<longrightarrow> signature_shown E (field b (e_msg3_size E) n) \<noteq> None)"
    and "base64_encode (e_bio E) (e_alloc_quote E) (field b (e_msg3_size E) n) = Some b64"
    and "\<forall>s. \<exists>s'. get_attestation_report E (verbose cfg) (apiver cfg) b64 (strict_trust cfg) ias s =
      (Done (Some m4), ias', s')"
  shows "\<exists>s'. check_msg3 E cfg ses m1 b (2 * length b) ias s = (Done (Some (
     if verify_enclave_identity (e_debug_mask E) (req_mrsigner cfg) (req_isv_product_id cfg) (min_isvsvn cfg)
       (allow_debug_enclave cfg) (e_body_of E (field (field b (e_msg3_size E) n) (e_body_off E) (e_body_size E)))
     then m4 else m4\<lparr>m4_status := NotTrusted\<rparr>,
     ses\<lparr>vk := cmac_aes (e_lib E) (kdk ses) label_VK\<rparr>)), ias', s')"
proof -
  have n: "unat (quote_size (e_msg3_size E) (2 * length b)) = n"
    using quote_size_exact [OF assms(4)] assms(3) by simp
  obtain s1 where mac: "cmac128 (e_lib E) (smk ses) (field b 16 (e_msg3_size E - 16 + n)) (junk_bytes E 16) s =
      (True, cmac_aes (e_lib E) (smk ses) (field b 16 (e_msg3_size E - 16 + n)), s1)"
    using cmac128_value [OF assms(1)] by blast
  obtain s2 where ar: "get_attestation_report E (verbose cfg) (apiver cfg) b64 (strict_trust cfg) ias s1 =
      (Done (Some m4), ias', s2)" using assms(9) by blast
  have g: "field b 16 64 = m1_g_a m1"
     "take 16 b = cmac_aes (e_lib E) (smk ses) (field b 16 (e_msg3_size E - 16 + n))"
     "memcmp (m1_gid m1) (field (field b (e_msg3_size E) n) (e_gid_off E) 4) = 0"
     "report_data (e_body_of E (field (field b (e_msg3_size E) n) (e_body_off E) (e_body_size E))) =
       sha256 (e_lib E) (g_a ses @ g_b ses @ cmac_aes (e_lib E) (kdk ses) label_VK) @ replicate 32 0"
    using assms(2) by (simp_all add: msg3_genuine_def)
  from check_report_complete [OF assms(1) g(4), of cfg m4 s2] obtain s3 where
    "check_report E cfg ses (field (field b (e_msg3_size E) n) (e_body_off E) (e_body_size E)) m4 s2 = (Some (
     if verify_enclave_identity (e_debug_mask E) (req_mrsigner cfg) (req_isv_product_id cfg) (min_isvsvn cfg)
       (allow_debug_enclave cfg) (e_body_of E (field (field b (e_msg3_size E) n) (e_body_off E) (e_body_size E)))
     then m4 else m4\<lparr>m4_status := NotTrusted\<rparr>,
     ses\<lparr>vk := cmac_aes (e_lib E) (kdk ses) label_VK\<rparr>), s3)" by blast
  moreover have "\<not> length b < 80" "\<not> length b < e_msg3_size E + n" using assms(3,5) by simp_all
  ultimately show ?thesis
    using assms(6-8) ar by (simp add: check_msg3_def n mac g Let_def del: mult_Suc_right)
qed

lemma process_msg3_complete:
  assumes "\<forall>n. ret (e_lib E) n = 1" and "msg3_genuine E cfg ses m1 b n"
    and "length b = e_msg3_size E + n" and "n < 2 ^ 32" and "80 \<le> e_msg3_size E"
    and "e_gid_off E + 4 \<le> n" and "e_body_off E + e_body_size E \<le> n \<and>
      (verbose cfg \<longrightarrow> signature_shown E (field b (e_msg3_size E) n) \<noteq> None)"
    and "base64_encode (e_bio E) (e_alloc_quote E) (field b (e_msg3_size E) n) = Some b64"
    and "\<forall>s. \<exists>s'. get_attestation_report E (verbose cfg) (apiver cfg) b64 (strict_trust cfg) (s_ias st) s =
      (Done (Some m4), ias', s')"
    and "read (e_junk E) (s_io st) (s_world st) = (Returned 1 (Some b) (Some (2 * length b)), io, w)"
  shows "\<exists>m4' ses' st'. process_msg3 E cfg m1 ses st = (Done (Some (m4', ses')), st') \<and>
     m4_status m4' =
       (if verify_enclave_identity (e_debug_mask E) (req_mrsigner cfg) (req_isv_product_id cfg) (min_isvsvn cfg)
          (allow_debug_enclave cfg) (e_body_of E (field (field b (e_msg3_size E) n) (e_body_off E) (e_body_size E)))
        then m4_status m4 else NotTrusted)"
proof -
  let ?m4 = "if verify_enclave_identity (e_debug_mask E) (req_mrsigner cfg) (req_isv_product_id cfg) (min_isvsvn cfg)
       (allow_debug_enclave cfg) (e_body_of E (field (field b (e_msg3_size E) n) (e_body_off E) (e_body_size E)))
     then m4 else m4\<lparr>m4_status := NotTrusted\<rparr>"
  let ?ses = "ses\<lparr>vk := cmac_aes (e_lib E) (kdk ses) label_VK\<rparr>"
  obtain s' where ck: "check_msg3 E cfg ses m1 b (2 * length b) (s_ias st) (s_crypto st) =
      (Done (Some (?m4, ?ses)), ias', s')"
    using check_msg3_complete [OF assms(1-9), of "s_crypto st"] by blast
  obtain m4' ses' st' where sd: "send_msg4 E ?m4 ?ses
      (st\<lparr>s_io := io, s_world := w, s_ias := ias', s_crypto := s'\<rparr>) = (m4', ses', st')" by (rule prod_cases3)
  have "process_msg3 E cfg m1 ses st = (Done (Some (m4', ses')), st')"
    unfolding process_msg3_def assms(10) prod.case read_result.case Let_def option.case
    using ck sd by simp
  with send_msg4_status [OF sd] show ?thesis by (intro exI conjI) (assumption, simp)
qed

section \<open>Properties\<close>

lemma trusted_verified:
  assumes "\<forall>n. ret (e_lib E) n = 1"
    and "process_msg3 E cfg m1 ses st = (Done (Some (m4, ses')), st')"
    and "m4_status m4 = Trusted \<or> m4_status m4 = Trusted_ItsComplicated"
  shows "\<exists>rv b sz io w n b64 s1 s2 ias' answer messages j.
     read (e_junk E) (s_io st) (s_world st) = (Returned rv (Some b) (Some sz), io, w) \<and>
     e_msg3_size E + n \<le> length b \<and> msg3_genuine E cfg ses m1 b n \<and>
     base64_encode (e_bio E) (e_alloc_quote E) (field b (e_msg3_size E) n) = Some b64 \<and>
     report (e_lib E) (e_bio E) (e_allocs_report E) (e_agent E) (ucast (apiver cfg))
       [(''isvEnclaveQuote'', b64)] [] [] (s_ias st) s1 = (IAS_OK, answer, messages, ias', s2) \<and>
     load answer = J_ok j \<and> version_ok (apiver cfg) j \<and>
     m4_status m4 = ias_decision (strict_trust cfg) (to_string (snd (at_key ''isvEnclaveQuoteStatus'' j))) \<and>
     verify_enclave_identity (e_debug_mask E) (req_mrsigner cfg) (req_isv_product_id cfg) (min_isvsvn cfg)
       (allow_debug_enclave cfg)
       (e_body_of E (field (field b (e_msg3_size E) n) (e_body_off E) (e_body_size E)))"
proof -
  obtain rv b sz io w ias s m4' ses1 where
    rd: "read (e_junk E) (s_io st) (s_world st) = (Returned rv (Some b) (Some sz), io, w)" and
    ck: "check_msg3 E cfg ses m1 b sz (s_ias st) (s_crypto st) = (Done (Some (m4', ses1)), ias, s)" and
    sd: "send_msg4 E m4' ses1 (st\<lparr>s_io := io, s_world := w, s_ias := ias, s_crypto := s\<rparr>) = (m4, ses', st')"
    by (rule process_msg3_ok [OF assms(2)])
  have st: "m4_status m4' \<noteq> NotTrusted" "m4_status m4 = m4_status m4'"
    using assms(3) send_msg4_status [OF sd] by auto
  let ?n = "unat (quote_size (e_msg3_size E) sz)"
  from check_msg3_ok [OF assms(1) ck] st obtain b64 m4'' s1 s2 where
    c: "e_msg3_size E + ?n \<le> length b" "msg3_genuine E cfg ses m1 b ?n"
       "base64_encode (e_bio E) (e_alloc_quote E) (field b (e_msg3_size E) ?n) = Some b64"
       "m4_status m4' = m4_status m4''"
       "verify_enclave_identity (e_debug_mask E) (req_mrsigner cfg) (req_isv_product_id cfg) (min_isvsvn cfg)
         (allow_debug_enclave cfg)
         (e_body_of E (field (field b (e_msg3_size E) ?n) (e_body_off E) (e_body_size E)))" and
    ar: "get_attestation_report E (verbose cfg) (apiver cfg) b64 (strict_trust cfg) (s_ias st) s1
      = (Done (Some m4''), ias, s2)" by (auto split: if_splits)
  from attestation_report_ok [OF ar] c rd st(2) show ?thesis by auto blast
qed



section \<open>A sample session\<close>

definition sample_report_text :: string where
  "sample_report_text = ''{'' @ [DQUOTE] @ ''isvEnclaveQuoteStatus'' @ [DQUOTE] @ '':'' @ [DQUOTE] @ ''OK'' @ [DQUOTE]
     @ '','' @ [DQUOTE] @ ''version'' @ [DQUOTE] @ '':4 }''"

definition sample_sp :: sp_env where
  "sample_sp = \<lparr>e_lib = sample_lib (\<lambda>_. 1), e_bio = sample_bio, e_aes = (\<lambda>k b. b),
     e_agent = Some (\<lambda>k u p. (True, sample_answer sample_report_text)), e_new = True, e_alloc_quote = True,
     e_alloc_sigrl = True, e_allocs_report = (True, True), e_junk = (\<lambda>_. 0), e_msg3_size = 80, e_pib_size = 101,
     e_gid_off = 0, e_body_off = 4, e_body_size = 1, e_sig_off = 9,
     e_body_of = (\<lambda>_. \<lparr>mr_enclave = [], mr_signer = [7], isv_prod_id = 1, isv_svn = 2, flags = 0,
        report_data = replicate 32 144 @ replicate 32 0\<rparr>),
     e_debug_mask = 2\<rparr>"

definition sample_cfg :: config where
  "sample_cfg = \<lparr>spid = replicate 16 1, pri_subscription_key = [], sec_subscription_key = [], quote_type = 0,
     service_private_key = Some \<lparr>has_ec = True, prv = Some 7, pub = Some (7, 8)\<rparr>, proxy_server = None,
     ca_bundle = None, user_agent = None, proxy_port = 80, store = Some [1], signing_ca = Some 1, apiver = 4,
     strict_trust = False, req_mrsigner = [7], req_isv_product_id = 1, min_isvsvn = 1,
     allow_debug_enclave = True, debug = False, verbose = False\<rparr>"

definition sample_m1 :: msg1 where
  "sample_m1 = \<lparr>m1_g_a = replicate 64 5, m1_gid = [0, 0, 0, 0]\<rparr>"

definition sample_ses :: ra_session where
  "sample_ses = zero_session\<lparr>g_a := replicate 64 5\<rparr>"

definition sample_msg3 :: bytes where
  "sample_msg3 = replicate 16 69 @ replicate 64 5 @ [0, 0, 0, 0, 9]"

lemma sample_genuine: "msg3_genuine sample_sp sample_cfg sample_ses sample_m1 sample_msg3 5"
  by (simp add: msg3_genuine_def sample_sp_def sample_lib_def sample_m1_def sample_ses_def sample_msg3_def
      zero_session_def field_def label_VK_def)

lemma sample_load: "load sample_report_text =
    J_ok (JObject [(''isvEnclaveQuoteStatus'', JString ''OK''), (''version'', JIntegral 4)])"
  by code_simp

lemma sample_sp_simps:
  "e_lib sample_sp = sample_lib (\<lambda>_. 1)" "e_bio sample_sp = sample_bio" "e_allocs_report sample_sp = (True, True)"
  "e_agent sample_sp = Some (\<lambda>k u p. (True, sample_answer sample_report_text))" "e_new sample_sp"
  "e_alloc_quote sample_sp" "e_pib_size sample_sp = 101" "e_msg3_size sample_sp = 80" "e_junk sample_sp = (\<lambda>_. 0)"
  by (simp_all add: sample_sp_def)

lemma sample_attestation_any:
  assumes "c_agent_name c = []"
  shows "\<exists>s'. get_attestation_report sample_sp False 4 b64 False c s =
     (Done (Some \<lparr>m4_status = Trusted, m4_pib = replicate 101 0, m4_ciphertext = replicate 16 0\<rparr>),
      c\<lparr>c_agent := Deleted_agent\<rparr>, s')"
proof -
  obtain s' where r: "report (sample_lib (\<lambda>_. 1)) sample_bio (True, True)
      (Some (\<lambda>k u p. (True, sample_answer sample_report_text))) 4 [(''isvEnclaveQuote'', b64)] [] [] c s =
      (IAS_OK, sample_report_text, [], c\<lparr>c_agent := Deleted_agent\<rparr>, s')"
    using sample_report_any [OF assms] by blast
  show ?thesis
    by (simp add: get_attestation_report_def sample_sp_simps r sample_load judge_report_def version_ok_def has_key_def
        at_key_def set_type_def to_int_def to_string_def json_escape_def escape_char_def ias_decision_def is_null_def)
qed

lemmas sample_attestation = sample_attestation_any [OF sample_conn_simps(2)]

definition sample_state :: sp_state where
  "sample_state = \<lparr>s_io = sample_io,
     s_world = sample_world [Rcv_data (print_hexstring sample_msg3 @ [LF])] [] [],
     s_ias = sample_conn, s_crypto = crypto_init\<rparr>"

lemma sample_msg3_length: "length sample_msg3 = 85"
  by (simp add: sample_msg3_def)

lemma sample_read:
  "\<exists>io w. read (\<lambda>_. 0) (s_io sample_state) (s_world sample_state) =
     (Returned 1 (Some sample_msg3) (Some (2 * length sample_msg3)), io, w)"
proof -
  let ?evs = "[Rcv_data (print_hexstring sample_msg3 @ [LF])]"
  have "sample_msg3 \<noteq> []" using sample_msg3_length by auto
  then obtain evs' where "read_loop (\<lambda>_. 0) ?evs sample_io (sample_world ?evs [] []) =
      (Returned 1 (Some sample_msg3) (Some (2 * length sample_msg3)), sample_io\<lparr>rbuffer := []\<rparr>,
       (sample_world ?evs [] [])\<lparr>recvs := evs'\<rparr>)"
    using read_loop_frame [of ?evs sample_msg3 "sample_world ?evs [] []" sample_io "\<lambda>_. 0"]
    by (auto simp: live_def sample_io_def sample_world_def)
  then show ?thesis by (simp add: read_def sample_state_def sample_io_def sample_world_def)
qed

lemma sample_identity:
  "verify_enclave_identity (e_debug_mask sample_sp) (req_mrsigner sample_cfg) (req_isv_product_id sample_cfg)
     (min_isvsvn sample_cfg) (allow_debug_enclave sample_cfg) (e_body_of sample_sp b)"
  by (simp add: verify_enclave_identity_def sample_sp_def sample_cfg_def)

lemma sample_ret: "\<forall>n. ret (e_lib sample_sp) n = 1"
  by (simp add: sample_sp_simps sample_lib_simps)

lemma sample_base64:
  "base64_encode (e_bio sample_sp) (e_alloc_quote sample_sp) (field sample_msg3 (e_msg3_size sample_sp) 5) =
     Some ''AAAAA''"
  by (simp add: base64_encode_def sample_sp_simps sample_bio_def sample_msg3_def field_def)

lemma sample_attestation_all:
  "\<forall>s. \<exists>s'. get_attestation_report sample_sp (verbose sample_cfg) (apiver sample_cfg) ''AAAAA''
     (strict_trust sample_cfg) (s_ias sample_state) s =
     (Done (Some \<lparr>m4_status = Trusted, m4_pib = replicate 101 0, m4_ciphertext = replicate 16 0\<rparr>),
      sample_conn\<lparr>c_agent := Deleted_agent\<rparr>, s')"
  using sample_attestation by (simp add: sample_cfg_def sample_state_def)

lemma sample_sizes:
  "length sample_msg3 = e_msg3_size sample_sp + 5" "(5 :: nat) < 2 ^ 32" "80 \<le> e_msg3_size sample_sp"
  "e_gid_off sample_sp + 4 \<le> 5" "e_body_off sample_sp + e_body_size sample_sp \<le> 5 \<and>
    (verbose sample_cfg \<longrightarrow> signature_shown sample_sp (field sample_msg3 (e_msg3_size sample_sp) 5) \<noteq> None)"
  by (simp_all add: sample_msg3_length sample_sp_def sample_cfg_def)

lemmas sample_hyps = sample_ret sample_genuine sample_sizes sample_base64 sample_attestation_all



section \<open>The signature printed in verbose mode\<close>

text \<open>
  C40. In verbose mode a peer that knows the session's keys, trusted or not, makes the service provider
  read past the end of message 3 when it prints the quote: it only has to write a length of the
  signature that is larger than what it sends. This happens before the attestation service is asked.
\<close>

theorem verbose_reads_past_message:
  assumes "\<forall>n. ret (e_lib E) n = 1" and "verbose cfg"
    and "length b = e_msg3_size E + n" and "n < 2 ^ 32" and "80 \<le> e_msg3_size E"
    and "field b 16 64 = m1_g_a m1" and "take 16 b = cmac_aes (e_lib E) (smk ses) (field b 16 (e_msg3_size E - 16 + n))"
    and "base64_encode (e_bio E) (e_alloc_quote E) (field b (e_msg3_size E) n) = Some b64"
    and "n < e_sig_off E + unat (word_le32 (field (field b (e_msg3_size E) n) (e_sig_off E - 4) 4))"
    and "read (e_junk E) (s_io st) (s_world st) = (Returned 1 (Some b) (Some (2 * length b)), io, w)"
  shows "\<exists>st'. process_msg3 E cfg m1 ses st = (Undefined, st') \<and> s_ias st' = s_ias st"
proof -
  have n: "unat (quote_size (e_msg3_size E) (2 * length b)) = n"
    using quote_size_exact [OF assms(4)] assms(3) by simp
  obtain s1 where mac: "cmac128 (e_lib E) (smk ses) (field b 16 (e_msg3_size E - 16 + n)) (junk_bytes E 16) (s_crypto st) =
      (True, take 16 b, s1)" using cmac128_value [OF assms(1)] assms(7) by metis
  have "length (field b (e_msg3_size E) n) = n" using assms(3) by simp
  then have "signature_shown E (field b (e_msg3_size E) n) = None"
    using assms(9) by (simp add: signature_shown_def Let_def)
  moreover have "\<not> length b < 80" "\<not> length b < e_msg3_size E + n" using assms(3,5) by simp_all
  ultimately have "check_msg3 E cfg ses m1 b (2 * length b) (s_ias st) (s_crypto st) = (Undefined, s_ias st, s1)"
    using assms(2,6,8) by (simp add: check_msg3_def n mac Let_def del: mult_Suc_right)
  then show ?thesis
    unfolding process_msg3_def assms(10) prod.case read_result.case Let_def option.case by simp
qed

theorem verbose_reads_past_message_witness:
  "\<exists>st'. process_msg3 (sample_sp\<lparr>e_sig_off := 5\<rparr>) (sample_cfg\<lparr>verbose := True\<rparr>) sample_m1 sample_ses sample_state =
     (Undefined, st') \<and> s_ias st' = s_ias sample_state"
proof -
  obtain io w where rd: "read (e_junk (sample_sp\<lparr>e_sig_off := 5\<rparr>)) (s_io sample_state) (s_world sample_state) =
     (Returned 1 (Some sample_msg3) (Some (2 * length sample_msg3)), io, w)"
    using sample_read by (auto simp: sample_sp_simps)
  have len: "0 < unat (word_le32 (field (field sample_msg3 (e_msg3_size sample_sp) 5) (Suc 0) 4))"
    by (simp add: sample_sp_simps sample_msg3_def field_def word_le32_def push_bit_eq_mult)
  show ?thesis
    by (rule verbose_reads_past_message [where n = 5, OF _ _ _ _ _ _ _ _ _ rd])
      (use sample_genuine [unfolded msg3_genuine_def] sample_ret sample_sizes sample_base64 len in simp_all)
qed

end
