(* ===== verification/Sp_Server.thy ===== *)
theory Sp_Server
  imports Sp_Session
begin

text \<open>
  The server loop of \<open>main\<close> in \<open>service-provider/sp.cpp\<close>, as a function and as a step relation
  with its reachable states, and the properties of sessions: the keys and message 2, what
  stays of one session in the next, and what failures the code does not notice.
\<close>

section \<open>The server\<close>

text \<open>
  One session. The revocation list is sent with the size of its decoded data, as far as that
  lies in the buffer.
\<close>

definition run_session :: "sp_env \<Rightarrow> config \<Rightarrow> sp_state \<Rightarrow> unit run \<times> sp_state" where
  "run_session E cfg st =
     (case process_msg01 E cfg zero_session st of
        (Done None, st) \<Rightarrow> (Done (), st)
      | (Done (Some (m1, m2, rl, ses)), st) \<Rightarrow>
          if length rl < unat (m2_sig_rl_size m2) then (Undefined, st)
          else let (io, w) = send_partial (msg2_bytes m2) (s_io st) (s_world st);
                   (io, w) = send (take (unat (m2_sig_rl_size m2)) rl) io w
            in (case process_msg3 E cfg m1 ses (st\<lparr>s_io := io, s_world := w\<rparr>) of
                  (Done _, st) \<Rightarrow> (Done (), st)
                | (Undefined, st) \<Rightarrow> (Undefined, st)
                | (Throws e, st) \<Rightarrow> (Throws e, st)
                | (Waits, st) \<Rightarrow> (Waits, st))
      | (Undefined, st) \<Rightarrow> (Undefined, st)
      | (Throws e, st) \<Rightarrow> (Throws e, st)
      | (Waits, st) \<Rightarrow> (Waits, st))"

text \<open>
  The server loop on the peers that connect: what \<open>accept\<close> returns and how the peer's socket
  behaves. \<open>Running\<close> means that the loop goes on when the list is exhausted.
\<close>

record peer =
  p_accepted :: int
  p_recvs :: "recv_event list"
  p_sends :: "send_event list"

datatype server_end = Running | Ended | Stopped "unit run"

fun serve :: "sp_env \<Rightarrow> config \<Rightarrow> peer list \<Rightarrow> sp_state \<Rightarrow> server_end \<times> sp_state" where
  "serve E cfg [] st = (Running, st)"
| "serve E cfg (p # ps) st =
     (let (go, io, w) = server_loop (p_accepted p) (s_io st) (s_world st);
          st = st\<lparr>s_io := io, s_world := w\<lparr>recvs := p_recvs p, sends := p_sends p\<rparr>\<rparr>
      in if \<not> go then (Ended, st)
         else case run_session E cfg st of
           (Done _, st) \<Rightarrow>
             (let (io, w) = disconnect (s_io st) (s_world st) in serve E cfg ps (st\<lparr>s_io := io, s_world := w\<rparr>))
         | (r, st) \<Rightarrow> (Stopped r, st))"

section \<open>The session keys and message 2\<close>

text \<open>
  What an answered message 1 leads to: \<open>L\<close>'s operations, when no call of the library fails.
\<close>

definition msg2_for ::
    "openssl \<Rightarrow> config \<Rightarrow> pkey \<Rightarrow> pkey \<Rightarrow> msg1 \<Rightarrow> msg2 \<Rightarrow> ra_session \<Rightarrow> bool" where
  "msg2_for L cfg key Gb m1 m2 ses \<longleftrightarrow>
     (case pub Gb of None \<Rightarrow> False | Some (x, y) \<Rightarrow> m2_g_b m2 = bn2lebinpad L x 32 @ bn2lebinpad L y 32) \<and>
     (let Ga = \<lparr>has_ec = True, prv = None,
                pub = Some (lebin2bn L (take 32 (m1_g_a m1)), lebin2bn L (drop 32 (m1_g_a m1)))\<rparr>;
          sg = ecdsa L (sha256 L (m2_g_b m2 @ m1_g_a m1)) key
      in g_a ses = m1_g_a m1 \<and> g_b ses = m2_g_b m2 \<and>
         kdk ses = cmac_aes L (replicate 16 0) (rev (ecdh L Gb Ga)) \<and>
         smk ses = cmac_aes L (kdk ses) label_SMK \<and>
         m2_spid m2 = spid cfg \<and> m2_quote_type m2 = quote_type cfg \<and> m2_kdf_id m2 = 1 \<and>
         m2_sign_gb_ga m2 = rev (bn2binpad L (fst sg) 32) @ rev (bn2binpad L (snd sg) 32) \<and>
         m2_mac m2 = cmac_aes L (smk ses) (msg2_a m2))"

lemma session_keys_of_protocol:
  assumes "\<forall>n. ret (e_lib E) n = 1"
    and "\<forall>n. has_ec (keygen (e_lib E) n) \<and> pub (keygen (e_lib E) n) \<noteq> None"
    and "service_private_key cfg = Some key" and "has_ec key"
    and "answer_msg01 E cfg ses b ias s = (Done (Some (m1, m2, rl, ses')), ias', s')"
  shows "word_le32 b = 0 \<and> m1_g_a m1 = field b 4 64 \<and> m1_gid m1 = field b 68 4 \<and>
    (\<exists>n. msg2_for (e_lib E) cfg key (keygen (e_lib E) n) m1 m2 ses')"
proof -
  let ?L = "e_lib E" and ?m1 = "\<lparr>m1_g_a = field b 4 64, m1_gid = field b 68 4\<rparr>"
  have len: "\<not> length b < 4" "word_le32 b = 0" "\<not> length b < 72"
    using assms(5) by (auto simp: answer_msg01_def split: if_splits)
  obtain n s1 where kg: "key_generate ?L s = (Some (keygen ?L n), s1)" using key_generate_ok [OF assms(1)] by blast
  obtain x y where xy: "has_ec (keygen ?L n)" "pub (keygen ?L n) = Some (x, y)" using assms(2) by fastforce
  let ?gb = "bn2lebinpad ?L x 32 @ bn2lebinpad ?L y 32"
  obtain ok k s2 where dk: "derive_kdk ?L (keygen ?L n) (kdk ses) (field b 4 64) s1 = (ok, k, s2)" by (rule prod_cases3)
  then have ok: ok using assms(5) len kg by (auto simp: answer_msg01_def Let_def split: if_splits bool.splits)
  obtain s3 where sm: "cmac128 ?L k label_SMK (smk ses) s2 = (True, cmac_aes ?L k label_SMK, s3)"
    using cmac128_value [OF assms(1)] by blast
  obtain s4 where ks: "key_to_sgx_ec256 ?L (replicate 32 0, replicate 32 0) (keygen ?L n) s3 =
      (True, (bn2lebinpad ?L x 32, bn2lebinpad ?L y 32), s4)" using key_to_sgx_ec256_ok [OF assms(1) xy] by blast
  obtain g ias2 where gs0: "get_sigrl E (apiver cfg) (field b 68 4) ias = (g, ias2)" by (rule prod.exhaust)
  note steps = len kg dk ok sm ks
  have "g \<noteq> None" using assms(5) by (cases g) (simp_all add: answer_msg01_def steps gs0 Let_def)
  then obtain rl2 sz where gs: "get_sigrl E (apiver cfg) (field b 68 4) ias = (Some (rl2, sz), ias2)" using gs0 by auto
  obtain s5 where sg: "ecdsa_sign ?L (?gb @ field b 4 64) key (junk_bytes E 32, junk_bytes E 32, junk_bytes E 32) s4 =
     (True, (bn2binpad ?L (fst (ecdsa ?L (sha256 ?L (?gb @ field b 4 64)) key)) 32,
        bn2binpad ?L (snd (ecdsa ?L (sha256 ?L (?gb @ field b 4 64)) key)) 32, sha256 ?L (?gb @ field b 4 64)), s5)"
    using ecdsa_sign_ok [OF assms(1,4)] by blast
  let ?sig = "ecdsa ?L (sha256 ?L (?gb @ field b 4 64)) key"
  let ?m2 = "\<lparr>m2_g_b = ?gb, m2_spid = spid cfg, m2_quote_type = quote_type cfg, m2_kdf_id = 1,
     m2_sign_gb_ga = rev (bn2binpad ?L (fst ?sig) 32) @ rev (bn2binpad ?L (snd ?sig) 32),
     m2_mac = replicate 16 0, m2_sig_rl_size = sz\<rparr>"
  obtain s6 where mac: "cmac128 ?L (cmac_aes ?L k label_SMK) (msg2_a ?m2) (replicate 16 0) s5 =
      (True, cmac_aes ?L (cmac_aes ?L k label_SMK) (msg2_a ?m2), s6)" using cmac128_value [OF assms(1)] by blast
  have "m1 = ?m1 \<and> m2 = ?m2\<lparr>m2_mac := cmac_aes ?L (cmac_aes ?L k label_SMK) (msg2_a ?m2)\<rparr> \<and>
     ses' = ses\<lparr>g_a := field b 4 64, g_b := ?gb, kdk := k, smk := cmac_aes ?L k label_SMK\<rparr>"
    using assms(5) by (simp add: answer_msg01_def steps gs assms(3) sg mac Let_def del: append_assoc)
  moreover from derive_kdk_ok [OF assms(1), of "keygen ?L n" "kdk ses" "field b 4 64" s1 k s2] dk ok
  have "k = cmac_aes ?L (replicate 16 0) (rev (ecdh ?L (keygen ?L n) \<lparr>has_ec = True, prv = None,
      pub = Some (lebin2bn ?L (take 32 (field b 4 64)), lebin2bn ?L (drop 32 (field b 4 64)))\<rparr>))" by simp
  ultimately show ?thesis
    using len(2) xy(2) by (auto simp: msg2_for_def Let_def msg2_a_def intro!: exI [of _ n])
qed

text \<open>
  C7. When no call of the library fails, a session that gets as far as message 2 has the keys
  of the protocol: the key derivation key is the MAC of the reversed shared secret under the
  zero key, the MAC key comes from it, and message 2 carries the public session key, the signature
  of both public keys and the MAC of its first 148 bytes.
\<close>

theorem session_keys_derived:
  assumes "\<forall>n. ret (e_lib E) n = 1"
    and "\<forall>n. has_ec (keygen (e_lib E) n) \<and> pub (keygen (e_lib E) n) \<noteq> None"
    and "service_private_key cfg = Some key" and "has_ec key"
    and "answer_msg01 E cfg ses b ias s = (Done (Some (m1, m2, rl, ses')), ias', s')"
  shows "word_le32 b = 0 \<and> m1_g_a m1 = field b 4 64 \<and> m1_gid m1 = field b 68 4 \<and>
    (\<exists>n. msg2_for (e_lib E) cfg key (keygen (e_lib E) n) m1 m2 ses')"
  using assms by (rule session_keys_of_protocol)

definition sample_msg01 :: bytes where
  "sample_msg01 = [0, 0, 0, 0] @ replicate 64 5 @ [0, 0, 0, 0]"

lemma sample_sigrl_any:
  assumes "c_agent_name c = []"
  shows "\<exists>x. get_sigrl sample_sp 4 gid c = (Some x, c\<lparr>c_agent := Deleted_agent\<rparr>)"
proof -
  have "sigrl_loop (Some (\<lambda>k u p. (True, sample_answer sample_report_text))) 4 g [] c =
      (Some sample_report_text, c\<lparr>c_agent := Deleted_agent\<rparr>)" for g
    using assms by (subst sigrl_loop.simps)
      (simp add: sigrl_def new_agent_def delete_agent_def sample_answer_simps IAS_OK_def
        IAS_UNAUTHORIZED_def content_string_def)
  then show ?thesis
    by (simp add: get_sigrl_def sample_sp_simps base64_decode_def sample_bio_def sample_sp_def [THEN arg_cong, of e_alloc_sigrl] Let_def)
qed

lemmas sample_sigrl = sample_sigrl_any [OF sample_conn_simps(2)]

lemma sample_answered:
  "\<exists>m1 m2 rl ses ias s. answer_msg01 sample_sp sample_cfg zero_session sample_msg01 sample_conn crypto_init =
     (Done (Some (m1, m2, rl, ses)), ias, s)"
proof -
  have b: "length sample_msg01 = 72" "word_le32 sample_msg01 = 0"
    by (simp_all add: sample_msg01_def word_le32_def)
  obtain x where x: "get_sigrl sample_sp (apiver sample_cfg) (field sample_msg01 68 4) sample_conn =
      (Some x, sample_conn\<lparr>c_agent := Deleted_agent\<rparr>)"
    using sample_sigrl [of "field sample_msg01 68 4"] by (auto simp: sample_cfg_def)
  have k: "service_private_key sample_cfg = Some \<lparr>has_ec = True, prv = Some 7, pub = Some (7, 8)\<rparr>"
    by (simp add: sample_cfg_def)
  show ?thesis
    by (cases x) (simp add: answer_msg01_def b x k sample_sp_simps sample_lib_simps key_generate_def derive_kdk_def
        key_from_sgx_ec256_def key_shared_secret_def key_to_sgx_ec256_def ecdsa_sign_def sha256_digest_def cmac128_def
        sample_lib_def crypto_simps del: append_assoc)
qed

theorem session_keys_derived_witness:
  "\<exists>m1 m2 rl ses ias s n. answer_msg01 sample_sp sample_cfg zero_session sample_msg01 sample_conn crypto_init =
     (Done (Some (m1, m2, rl, ses)), ias, s) \<and>
   msg2_for (sample_lib (\<lambda>_. 1)) sample_cfg \<lparr>has_ec = True, prv = Some 7, pub = Some (7, 8)\<rparr>
     (keygen (sample_lib (\<lambda>_. 1)) n) m1 m2 ses"
proof -
  obtain m1 m2 rl ses ias s where a: "answer_msg01 sample_sp sample_cfg zero_session sample_msg01 sample_conn
      crypto_init = (Done (Some (m1, m2, rl, ses)), ias, s)" using sample_answered by blast
  have "\<forall>n. has_ec (keygen (e_lib sample_sp) n) \<and> pub (keygen (e_lib sample_sp) n) \<noteq> None"
    by (simp add: sample_sp_simps sample_lib_def)
  from session_keys_derived [OF sample_ret this _ _ a] a show ?thesis
    by (auto simp: sample_cfg_def sample_sp_simps)
qed

section \<open>Failures the code does not notice\<close>

text \<open>
  A failing MAC computation in \<open>derive_kdk\<close> (the thirteenth call of the library) is
  reported as success, and the key derivation key stays all zero, as the session was cleared.
\<close>

theorem kdk_zero_after_failure:
  assumes "\<forall>n. ret L n = (if n = calls s + 12 then 0 else 1)"
    and "on_curve L (lebin2bn L (take 32 ga), lebin2bn L (drop 32 ga))"
  shows "\<exists>s'. derive_kdk L Gb (kdk zero_session) ga s = (True, replicate 16 0, s')"
  using assms
  by (simp add: derive_kdk_def key_from_sgx_ec256_def key_shared_secret_def cmac128_def crypto_simps zero_session_def)

theorem kdk_zero_after_failure_witness:
  "\<exists>s'. derive_kdk (sample_lib (\<lambda>n. if n = 12 then 0 else 1)) new_pkey (kdk zero_session) (replicate 64 5) crypto_init =
     (True, replicate 16 0, s')"
  by (rule kdk_zero_after_failure) (simp_all add: sample_lib_def crypto_init_def)

text \<open>
  A failing digest leaves the value the report data is compared with all zero, so that a
  report with empty data is accepted: the report is then not bound to the keys of the session.
\<close>

theorem empty_report_data_accepted:
  assumes "\<forall>n. ret (e_lib E) n = (if n = calls s + 4 then 0 else 1)"
    and "report_data (e_body_of E body) = replicate 64 0"
    and "verify_enclave_identity (e_debug_mask E) (req_mrsigner cfg) (req_isv_product_id cfg) (min_isvsvn cfg)
      (allow_debug_enclave cfg) (e_body_of E body)"
  shows "\<exists>ses' s'. check_report E cfg ses body m4 s = (Some (m4, ses'), s')"
  using assms replicate_add [of 32 32 "0 :: byte"]
  by (simp add: check_report_def cmac128_def sha256_digest_def crypto_simps)

definition failing_sp :: sp_env where
  "failing_sp = sample_sp\<lparr>e_lib := sample_lib (\<lambda>n. if n = 4 then 0 else 1),
     e_body_of := (\<lambda>_. \<lparr>mr_enclave = [], mr_signer = [7], isv_prod_id = 1, isv_svn = 2, flags = 0,
        report_data = replicate 64 0\<rparr>)\<rparr>"

theorem empty_report_data_accepted_witness:
  "let m4 = \<lparr>m4_status = Trusted, m4_pib = replicate 101 0, m4_ciphertext = replicate 16 0\<rparr> in
   \<exists>ses' s'. check_report failing_sp sample_cfg sample_ses [] m4 crypto_init = (Some (m4, ses'), s')"
  unfolding Let_def
  by (rule empty_report_data_accepted)
    (simp_all add: failing_sp_def sample_lib_simps crypto_init_def verify_enclave_identity_def sample_cfg_def)

lemma uint_quote_size:
  assumes "k < m" and "m < 2 ^ 32"
  shows "unat (quote_size m (2 * k)) = k + 2 ^ 32 - m"
proof -
  have "(int k - int m) mod 2 ^ 32 = (int k - int m + 2 ^ 32) mod 2 ^ 32" by (metis mod_add_self2)
  also have "\<dots> = int k - int m + 2 ^ 32" using assms by (intro mod_pos_pos_trivial) auto
  finally have m: "(int k - int m) mod 2 ^ 32 = int k - int m + 2 ^ 32" .
  have "uint (word_of_int i :: 32 word) = i mod 2 ^ 32" for i by (simp add: unsigned_of_int take_bit_eq_mod)
  from this [of "int k - int m"] m have "uint (quote_size m (2 * k)) = int k - int m + 2 ^ 32"
    by (simp only: quote_size_def) simp
  then show ?thesis using assms(2) by (simp add: unat_eq_nat_uint nat_eq_iff)
qed

text \<open>
  A message 3 that is shorter than its fixed part wraps the size of the quote: after the
  comparison of the keys the MAC is computed over more than four gigabytes from the buffer on.
\<close>

theorem short_msg3_reads_beyond:
  assumes "80 \<le> length b" and "length b < e_msg3_size E" and "e_msg3_size E < 2 ^ 32"
    and "field b 16 64 = m1_g_a m1"
  shows "check_msg3 E cfg ses m1 b (2 * length b) ias s = (Undefined, ias, s) \<and>
     e_msg3_size E + unat (quote_size (e_msg3_size E) (2 * length b)) = length b + 2 ^ 32"
  using assms uint_quote_size [OF assms(2,3)] by (simp add: check_msg3_def)

theorem short_msg3_reads_beyond_witness:
  "check_msg3 (sample_sp\<lparr>e_msg3_size := 336\<rparr>) sample_cfg sample_ses sample_m1 sample_msg3 (2 * length sample_msg3)
     sample_conn crypto_init = (Undefined, sample_conn, crypto_init) \<and>
   e_msg3_size (sample_sp\<lparr>e_msg3_size := 336\<rparr>) +
     unat (quote_size (e_msg3_size (sample_sp\<lparr>e_msg3_size := 336\<rparr>)) (2 * length sample_msg3)) =
     length sample_msg3 + 2 ^ 32"
  by (rule short_msg3_reads_beyond) (simp_all add: sample_msg3_def sample_m1_def field_def)

text \<open>
  C39. An enclave that is not trusted gets no answer at all, since message 4 is only put into
  the write buffer; the buffer survives the session, and the line sent first to the next peer
  begins with that message 4.
\<close>

theorem distrust_corrupts_next_session:
  assumes "\<not> use_stdio (s_io st)" and "wbuffer (s_io st) = []"
    and "m4_status m4 = NotTrusted \<or> m4_status m4 = NotTrusted_ItsComplicated"
    and "send_msg4 E m4 ses st = (m4', ses', st')"
    and "disconnect (s_io st') (s_world st') = (io1, w1)" and "server_loop a io1 w1 = (True, io2, w2)"
    and "Snd_err \<notin> set sd"
    and "(let (io, w) = send_partial x io2 (w2\<lparr>sends := sd\<rparr>) in send y io w) = (io3, w3)"
  shows "wire (s_world st') = wire (s_world st) \<and>
    wire w3 = wire (s_world st) @ print_hexstring (le32 (status_value (m4_status m4)) @ m4_pib m4 @ x @ y) @ [LF]"
proof -
  let ?h = "print_hexstring (le32 (status_value (m4_status m4)) @ m4_pib m4)"
  have st': "s_io st' = (s_io st)\<lparr>wbuffer := ?h\<rparr>" "s_world st' = s_world st"
    using assms(1-4) by (auto simp: send_msg4_def send_partial_def print_hexstring_append)
  then have "wbuffer (s_io st') = ?h" "use_stdio (s_io st') = use_stdio (s_io st)" by simp_all
  then have io: "wbuffer io2 = ?h" "\<not> use_stdio io2" "wire w2 = wire (s_world st)"
    using assms(1,5,6) st'(2) by (auto simp: disconnect_def server_loop_def close_fd_def split: if_splits)
  obtain evs where "send_loop sd (?h @ print_hexstring x @ print_hexstring y @ [LF]) (w2\<lparr>sends := sd\<rparr>) =
      ([], (put_wire (?h @ print_hexstring x @ print_hexstring y @ [LF]) (w2\<lparr>sends := sd\<rparr>))\<lparr>sends := evs\<rparr>)"
    using send_loop_all [OF assms(7)] by blast
  then have "wire w3 = wire w2 @ ?h @ print_hexstring x @ print_hexstring y @ [LF]"
    using assms(8) io by (auto simp: send_partial_def send_def put_wire_def)
  then show ?thesis using st' io by (simp add: print_hexstring_append)
qed

definition sample_m4 :: msg4 where
  "sample_m4 = \<lparr>m4_status = NotTrusted, m4_pib = [3], m4_ciphertext = []\<rparr>"

theorem distrust_corrupts_next_session_witness:
  "\<exists>m4' ses' st' io1 w1 io2 w2 io3 w3. send_msg4 sample_sp sample_m4 sample_ses sample_state = (m4', ses', st') \<and>
     disconnect (s_io st') (s_world st') = (io1, w1) \<and> server_loop 9 io1 w1 = (True, io2, w2) \<and>
     (let (io, w) = send_partial [1] io2 (w2\<lparr>sends := []\<rparr>) in send [2] io w) = (io3, w3) \<and>
     wire w3 = print_hexstring (le32 0 @ [3] @ [1] @ [2]) @ [LF]"
proof -
  obtain m4' ses' st' where s: "send_msg4 sample_sp sample_m4 sample_ses sample_state = (m4', ses', st')"
    by (rule prod_cases3)
  obtain io1 w1 where d: "disconnect (s_io st') (s_world st') = (io1, w1)" by (rule prod.exhaust)
  have u: "\<not> use_stdio io1"
    using s d by (auto simp: send_msg4_def send_partial_def sample_m4_def sample_state_def sample_io_def disconnect_def
        split: if_splits)
  then obtain io2 w2 where l: "server_loop 9 io1 w1 = (True, io2, w2)" by (simp add: server_loop_def)
  obtain io3 w3 where n: "(let (io, w) = send_partial [1] io2 (w2\<lparr>sends := []\<rparr>) in send [2] io w) = (io3, w3)"
    by (rule prod.exhaust)
  have "\<not> use_stdio (s_io sample_state)" "wbuffer (s_io sample_state) = []"
    by (simp_all add: sample_state_def sample_io_def)
  from distrust_corrupts_next_session [OF this _ s d l _ n] s d l n show ?thesis
    by (fastforce simp: sample_m4_def sample_state_def sample_world_def)
qed

section \<open>End of input in stdio mode\<close>

definition at_eof :: "sp_state \<Rightarrow> bool" where
  "at_eof st \<longleftrightarrow> use_stdio (s_io st) \<and> stdin (s_world st) = [] \<and> mallocs (s_world st) = []"

lemma read_at_eof:
  assumes "at_eof st"
  shows "\<exists>rv dest sz w. read junk (s_io st) (s_world st) = (Returned rv dest sz, s_io st, w) \<and>
     (rv = -1 \<or> rv = 0) \<and> at_eof (st\<lparr>s_world := w\<rparr>)"
proof -
  have "read_msg_loop [] w = (Inl (if stdin_err w then -1 else 0), w)" if "stdin w = []" for w
    using that by (subst read_msg_loop.simps) (simp add: fgets_take_def)
  then show ?thesis
    using assms by (auto simp: at_eof_def read_def read_msg_def malloc_def)
qed

lemma run_session_at_eof:
  assumes "at_eof st"
  shows "\<exists>st'. run_session E cfg st = (Done (), st') \<and> at_eof st'"
proof -
  obtain rv dest sz w where r: "read (e_junk E) (s_io st) (s_world st) = (Returned rv dest sz, s_io st, w)"
    "rv = -1 \<or> rv = 0" "at_eof (st\<lparr>s_world := w\<rparr>)" using read_at_eof [OF assms] by blast
  then show ?thesis by (auto simp: run_session_def process_msg01_def)
qed

text \<open>
  With the standard streams, the end of the input is an error of the session only: the
  server loop never ends, whatever number of iterations is allowed.
\<close>

theorem stdio_server_spins_at_eof:
  assumes "at_eof st"
  shows "fst (serve E cfg ps st) = Running"
  using assms
proof (induction ps arbitrary: st)
  case (Cons p ps)
  let ?st = "st\<lparr>s_world := (s_world st)\<lparr>recvs := p_recvs p, sends := p_sends p\<rparr>\<rparr>"
  have e: "server_loop (p_accepted p) (s_io st) (s_world st) = (True, s_io st, s_world st)" "at_eof ?st"
    using Cons.prems by (simp_all add: at_eof_def server_loop_def)
  obtain st' where r: "run_session E cfg ?st = (Done (), st')" "at_eof st'"
    using run_session_at_eof [OF e(2)] by blast
  then have d: "disconnect (s_io st') (s_world st') = (s_io st', s_world st')"
    by (simp add: at_eof_def disconnect_def)
  show ?case using Cons.IH [OF r(2)] by (simp add: e(1) r(1) d)
qed simp

theorem stdio_server_spins_at_eof_witness:
  "fst (serve sample_sp sample_cfg (replicate 1000 \<lparr>p_accepted = 0, p_recvs = [], p_sends = []\<rparr>)
     (sample_state\<lparr>s_io := msgio_stdio\<rparr>)) = Running"
  by (rule stdio_server_spins_at_eof) (simp add: at_eof_def sample_state_def sample_world_def msgio_stdio_def)

section \<open>The server as a step relation\<close>

datatype phase = Listening | Connected | Finished

inductive server_step :: "sp_env \<Rightarrow> config \<Rightarrow> phase \<times> sp_state \<Rightarrow> phase \<times> sp_state \<Rightarrow> bool" for E cfg where
  accept: "server_loop a (s_io st) (s_world st) = (True, io, w) \<Longrightarrow>
    server_step E cfg (Listening, st) (Connected, st\<lparr>s_io := io, s_world := w\<lparr>recvs := rs, sends := ss\<rparr>\<rparr>)"
| refuse: "server_loop a (s_io st) (s_world st) = (False, io, w) \<Longrightarrow>
    server_step E cfg (Listening, st) (Finished, st\<lparr>s_io := io, s_world := w\<lparr>recvs := rs, sends := ss\<rparr>\<rparr>)"
| session: "run_session E cfg st = (Done (), st') \<Longrightarrow> disconnect (s_io st') (s_world st') = (io, w) \<Longrightarrow>
    server_step E cfg (Connected, st) (Listening, st'\<lparr>s_io := io, s_world := w\<rparr>)"

inductive reachable :: "sp_env \<Rightarrow> config \<Rightarrow> sp_state \<Rightarrow> phase \<times> sp_state \<Rightarrow> bool" for E cfg st0 where
  start: "reachable E cfg st0 (Listening, st0)"
| step: "reachable E cfg st0 p \<Longrightarrow> server_step E cfg p q \<Longrightarrow> reachable E cfg st0 q"

inductive_cases server_stepE: "server_step E cfg (ph, st) (ph', st')"

text \<open>
  What never changes of the connection to the attestation service (everything but the agent
  and the selected key), and of the message object.
\<close>

definition stable :: "conn \<Rightarrow> conn \<Rightarrow> bool" where
  "stable c c' \<longleftrightarrow>
     c'\<lparr>c_agent := No_agent, currentKeyID := Primary\<rparr> = c\<lparr>c_agent := No_agent, currentKeyID := Primary\<rparr> \<and>
     (c_agent c' = Live_agent \<longrightarrow> c_agent c = Live_agent) \<and>
     (currentKeyID c' = currentKeyID c \<or> currentKeyID c' = Secondary)"

definition same_io :: "msgio \<Rightarrow> msgio \<Rightarrow> bool" where
  "same_io io io' \<longleftrightarrow> use_stdio io' = use_stdio io \<and> lsock io' = lsock io"

lemma stable_refl [simp]: "stable c c"
  by (simp add: stable_def)

lemma stable_trans: "stable a b \<Longrightarrow> stable b c \<Longrightarrow> stable a c"
  by (auto simp: stable_def)

lemma stable_request:
  "new_agent ctor c = (a, c') \<Longrightarrow> stable c (delete_agent c')"
  "new_agent ctor c = (None, c') \<Longrightarrow> stable c c'"
  by (auto simp: new_agent_def delete_agent_def stable_def split: if_splits option.splits)

lemma stable_sigrl: "sigrl ctor v g t c = (r, t', c') \<Longrightarrow> stable c c'"
  by (auto simp: sigrl_def Let_def stable_request split: option.splits prod.splits if_splits)

lemma stable_report: "report L B al ctor v p t m c s = (r, t', m', c', s') \<Longrightarrow> stable c c'"
  by (auto simp: report_def Let_def stable_request split: option.splits prod.splits if_splits)

lemma stable_Secondary: "stable c (c\<lparr>currentKeyID := Secondary\<rparr>)"
  by (simp add: stable_def)

lemma stable_sigrl_loop: "stable c (snd (sigrl_loop ctor v g t c))"
proof (induction ctor v g t c rule: sigrl_loop.induct)
  case (1 ctor v g t c)
  obtain r t' c' where s: "sigrl ctor v g t c = (r, t', c')" by (rule prod_cases3)
  show ?case
  proof (cases "r = IAS_UNAUTHORIZED \<and> currentKeyID c' = Primary")
    case True
    then show ?thesis
      using 1 [OF s [symmetric] refl refl] stable_sigrl [OF s] stable_Secondary [of c'] s
      by (subst sigrl_loop.simps) (auto intro: stable_trans)
  next
    case False
    then show ?thesis using stable_sigrl [OF s] s by (subst sigrl_loop.simps) auto
  qed
qed

lemma stable_get_sigrl: "get_sigrl E v g c = (x, c') \<Longrightarrow> stable c c'"
  using stable_sigrl_loop [of c "e_agent E" "ucast v" "word_le32 g" "[]"]
  by (auto simp: get_sigrl_def split: option.splits if_splits prod.splits)

lemma stable_attestation: "get_attestation_report E vb v b st c s = (x, c', s') \<Longrightarrow> stable c c'"
  by (auto simp: get_attestation_report_def Let_def stable_report split: if_splits prod.splits)

lemma stable_answer_msg01: "answer_msg01 E cfg ses b c s = (x, c', s') \<Longrightarrow> stable c c'"
  by (auto simp: answer_msg01_def Let_def stable_get_sigrl split: if_splits option.splits prod.splits bool.splits)

lemma stable_check_msg3: "check_msg3 E cfg ses m1 b sz c s = (x, c', s') \<Longrightarrow> stable c c'"
  by (auto simp: check_msg3_def Let_def stable_attestation
      split: if_splits option.splits prod.splits run.splits)

lemma same_io_refl [simp]: "same_io io io"
  by (simp add: same_io_def)

lemma same_io_trans: "same_io a b \<Longrightarrow> same_io b c \<Longrightarrow> same_io a c"
  by (simp add: same_io_def)

lemma same_io_read: "read junk io w = (r, io', w') \<Longrightarrow> same_io io io'"
proof -
  have tl: "take_line junk i ws io w = (r, io', w') \<Longrightarrow> same_io io io'" for junk i ws io w r io' w'
    by (auto simp: take_line_def same_io_def Let_def split: if_splits prod.splits)
  have "read_loop junk evs io w = (r, io', w') \<Longrightarrow> same_io io io'" for junk evs io w r io' w'
  proof (induction junk evs io w rule: read_loop.induct)
    case (4 junk d evs io w)
    then show ?case
      by (auto dest!: tl simp: Let_def same_io_def split: if_splits option.splits prod.splits)
  qed auto
  then show "read junk io w = (r, io', w') \<Longrightarrow> same_io io io'"
    by (auto simp: read_def split: if_splits prod.splits)
qed

lemma same_io_send: "send m io w = (io', w') \<Longrightarrow> same_io io io'"
  "send_partial m io w = (io', w') \<Longrightarrow> same_io io io'"
  by (auto simp: send_def send_partial_def same_io_def Let_def split: if_splits prod.splits)

text \<open>All of it for the state of the server.\<close>

definition kept :: "sp_state \<Rightarrow> sp_state \<Rightarrow> bool" where
  "kept st st' \<longleftrightarrow> stable (s_ias st) (s_ias st') \<and> same_io (s_io st) (s_io st')"

lemma kept_refl [simp]: "kept st st"
  by (simp add: kept_def)

lemma kept_trans: "kept a b \<Longrightarrow> kept b c \<Longrightarrow> kept a c"
  using stable_trans same_io_trans by (auto simp: kept_def)

lemma kept_msg01: "process_msg01 E cfg ses st = (r, st') \<Longrightarrow> kept st st'"
  by (auto simp: process_msg01_def kept_def Let_def dest!: same_io_read stable_answer_msg01
      split: prod.splits read_result.splits if_splits option.splits)

lemma kept_send_msg4: "send_msg4 E m4 ses st = (m4', ses', st') \<Longrightarrow> kept st st'"
  by (auto simp: send_msg4_def kept_def Let_def dest!: same_io_send intro: same_io_trans
      split: prod.splits if_splits)

lemma kept_msg3: "process_msg3 E cfg m1 ses st = (r, st') \<Longrightarrow> kept st st'"
proof -
  assume p: "process_msg3 E cfg m1 ses st = (r, st')"
  obtain rr io w where rd: "read (e_junk E) (s_io st) (s_world st) = (rr, io, w)" by (rule prod_cases3)
  have k1: "kept st (st\<lparr>s_io := io, s_world := w\<rparr>)" using same_io_read [OF rd] by (simp add: kept_def)
  show ?thesis
  proof (cases "\<exists>rv b sz. rr = Returned rv (Some b) (Some sz) \<and> rv \<noteq> -1 \<and> rv \<noteq> 0")
    case True
    then obtain rv b sz where rr: "rr = Returned rv (Some b) (Some sz)" "rv \<noteq> -1" "rv \<noteq> 0" by blast
    obtain x ias s where ck: "check_msg3 E cfg ses m1 b sz (s_ias st) (s_crypto st) = (x, ias, s)" by (rule prod_cases3)
    let ?st = "st\<lparr>s_io := io, s_world := w, s_ias := ias, s_crypto := s\<rparr>"
    have k2: "kept st ?st" using same_io_read [OF rd] stable_check_msg3 [OF ck] by (simp add: kept_def)
    have "kept ?st st'"
    proof (cases "\<exists>m4 ses1. x = Done (Some (m4, ses1))")
      case True
      then show ?thesis using p rd rr ck
        by (auto simp: process_msg3_def Let_def dest!: kept_send_msg4 split: prod.splits)
    next
      case False
      then have "st' = ?st" using p rd rr ck
        by (cases x) (auto simp: process_msg3_def Let_def split: option.splits)
      then show ?thesis by simp
    qed
    with k2 show ?thesis by (rule kept_trans)
  next
    case False
    then have "st' = st\<lparr>s_io := io, s_world := w\<rparr>" using p rd
      by (auto simp: process_msg3_def Let_def split: read_result.splits if_splits option.splits)
    with k1 show ?thesis by simp
  qed
qed

lemma kept_session: "run_session E cfg st = (r, st') \<Longrightarrow> kept st st'"
proof -
  assume p: "run_session E cfg st = (r, st')"
  obtain x st1 where m: "process_msg01 E cfg zero_session st = (x, st1)" by (rule prod.exhaust)
  have k1: "kept st st1" by (rule kept_msg01 [OF m])
  show ?thesis
  proof (cases "\<exists>m1 m2 rl ses. x = Done (Some (m1, m2, rl, ses)) \<and> \<not> length rl < unat (m2_sig_rl_size m2)")
    case True
    then obtain m1 m2 rl ses where x: "x = Done (Some (m1, m2, rl, ses))" "\<not> length rl < unat (m2_sig_rl_size m2)"
      by blast
    obtain io1 w1 where s1: "send_partial (msg2_bytes m2) (s_io st1) (s_world st1) = (io1, w1)" by (rule prod.exhaust)
    obtain io2 w2 where s2: "send (take (unat (m2_sig_rl_size m2)) rl) io1 w1 = (io2, w2)" by (rule prod.exhaust)
    obtain y st3 where m3: "process_msg3 E cfg m1 ses (st1\<lparr>s_io := io2, s_world := w2\<rparr>) = (y, st3)"
      by (rule prod.exhaust)
    have "kept st1 (st1\<lparr>s_io := io2, s_world := w2\<rparr>)"
      using same_io_trans [OF same_io_send(2) [OF s1] same_io_send(1) [OF s2]] by (simp add: kept_def)
    from kept_trans [OF k1 this] kept_msg3 [OF m3] have "kept st st3" by (rule kept_trans)
    moreover have "st' = st3" using p m x s1 s2 m3 by (cases y) (auto simp: run_session_def)
    ultimately show ?thesis by simp
  next
    case False
    then have "st' = st1" using p m by (auto simp: run_session_def split: run.splits option.splits if_splits prod.splits)
    with k1 show ?thesis by simp
  qed
qed

lemma base_url_frame: "base_url (c\<lparr>c_agent := a, currentKeyID := k\<rparr>) = base_url c"
  by (simp add: base_url_def)

lemma kept_hangup:
  "disconnect io w = (io', w') \<Longrightarrow> same_io io io'"
  "server_loop a io w = (go, io', w') \<Longrightarrow> same_io io io'"
  by (auto simp: same_io_def disconnect_def server_loop_def split: if_splits)

lemma kept_step: "server_step E cfg p q \<Longrightarrow> kept (snd p) (snd q)"
proof (induction rule: server_step.induct)
  case (session st st' io w)
  have "kept st' (st'\<lparr>s_io := io, s_world := w\<rparr>)"
    using kept_hangup(1) [OF session(2)] by (simp add: kept_def)
  with kept_session [OF session(1)] show ?case using kept_trans by simp
qed (auto simp: kept_def dest: kept_hangup)

lemma reachable_kept: "reachable E cfg st0 p \<Longrightarrow> kept st0 (snd p)"
  by (induction rule: reachable.induct) (auto intro: kept_trans kept_step)

text \<open>
  C6. In every reachable state of the server the trust anchors are those of the start: the
  certificate store, the subscription keys and the address of the attestation service are
  never changed by what peers or the service send, the agent of a request never outlives it, the
  selected key changes from the primary to the secondary one only, and the listening socket
  stays.
\<close>

theorem server_keeps_trust_anchor:
  assumes "reachable E cfg st0 (ph, st)" and "c_agent (s_ias st0) \<noteq> Live_agent"
  shows "c_store (s_ias st) = c_store (s_ias st0) \<and> key_enc (s_ias st) = key_enc (s_ias st0) \<and>
    key_xor (s_ias st) = key_xor (s_ias st0) \<and> base_url (s_ias st) = base_url (s_ias st0) \<and>
    c_agent (s_ias st) \<noteq> Live_agent \<and>
    currentKeyID (s_ias st) \<in> {currentKeyID (s_ias st0), Secondary} \<and>
    lsock (s_io st) = lsock (s_io st0)"
proof -
  from reachable_kept [OF assms(1)] have k: "stable (s_ias st0) (s_ias st)" "same_io (s_io st0) (s_io st)"
    by (simp_all add: kept_def)
  let ?c = "(s_ias st)\<lparr>c_agent := No_agent, currentKeyID := Primary\<rparr>"
    and ?d = "(s_ias st0)\<lparr>c_agent := No_agent, currentKeyID := Primary\<rparr>"
  have c: "?c = ?d" using k(1) by (simp add: stable_def)
  have e: "c_store ?c = c_store ?d" "key_enc ?c = key_enc ?d" "key_xor ?c = key_xor ?d" "base_url ?c = base_url ?d"
    by (rule arg_cong [OF c])+
  have "c_store (s_ias st) = c_store (s_ias st0)" "key_enc (s_ias st) = key_enc (s_ias st0)"
    "key_xor (s_ias st) = key_xor (s_ias st0)" "base_url (s_ias st) = base_url (s_ias st0)"
    using e by (simp_all add: base_url_frame)
  moreover have "c_agent (s_ias st) \<noteq> Live_agent" "lsock (s_io st) = lsock (s_io st0)"
    "currentKeyID (s_ias st) \<in> {currentKeyID (s_ias st0), Secondary}"
    using k assms(2) unfolding stable_def same_io_def by blast+
  ultimately show ?thesis by blast
qed

theorem server_keeps_trust_anchor_witness:
  "\<exists>st. reachable sample_sp sample_cfg sample_state (Connected, st) \<and> c_store (s_ias st) = Some [1] \<and>
     lsock (s_io st) = 3"
proof -
  have "server_loop 9 (s_io sample_state) (s_world sample_state) =
      (True, (s_io sample_state)\<lparr>sock := 9\<rparr>, s_world sample_state)"
    by (simp add: server_loop_def sample_state_def sample_io_def)
  from reachable.step [OF reachable.start server_step.accept [OF this]]
  obtain st where r: "reachable sample_sp sample_cfg sample_state (Connected, st)" by blast
  have "c_agent (s_ias sample_state) \<noteq> Live_agent" "c_store (s_ias sample_state) = Some [1]"
    "lsock (s_io sample_state) = 3"
    by (simp_all add: sample_state_def sample_io_def sample_conn_simps sample_conn_def ias_connection_def
        setSubscriptionKey_def Let_def)
  with server_keeps_trust_anchor [OF r] r show ?thesis by auto
qed

lemma serve_reachable:
  "reachable E cfg st0 (Listening, st) \<Longrightarrow> serve E cfg ps st = (e, st') \<Longrightarrow>
   (\<forall>r. e \<noteq> Stopped r) \<Longrightarrow> reachable E cfg st0 (if e = Running then Listening else Finished, st')"
proof (induction ps arbitrary: st)
  case (Cons p ps)
  obtain go io w where l: "server_loop (p_accepted p) (s_io st) (s_world st) = (go, io, w)" by (rule prod_cases3)
  let ?st = "st\<lparr>s_io := io, s_world := w\<lparr>recvs := p_recvs p, sends := p_sends p\<rparr>\<rparr>"
  show ?case
  proof (cases go)
    case True
    obtain x st1 where rs: "run_session E cfg ?st = (x, st1)" by (rule prod.exhaust)
    obtain io1 w1 where d: "disconnect (s_io st1) (s_world st1) = (io1, w1)" by (rule prod.exhaust)
    have x: "x = Done ()" using Cons.prems l True rs by (cases x) auto
    have "reachable E cfg st0 (Connected, ?st)"
      using Cons.prems(1) l True by (auto intro: reachable.step server_step.accept)
    then have "reachable E cfg st0 (Listening, st1\<lparr>s_io := io1, s_world := w1\<rparr>)"
      using rs x d by (auto intro: reachable.step server_step.session)
    then show ?thesis using Cons.IH Cons.prems l True rs x d by simp
  next
    case False
    then have "e = Ended" "st' = ?st" using Cons.prems l by auto
    moreover have "reachable E cfg st0 (Finished, ?st)"
      using Cons.prems(1) l False by (auto intro: reachable.step server_step.refuse)
    ultimately show ?thesis by simp
  qed
qed simp



end
