(* ===== verification/Sp_Types.thy ===== *)
theory Sp_Types
  imports Sp_Server
begin

text \<open>
  The sizes of what a session stores. The structures of \<open>service-provider/sp.cpp\<close> are arrays of
  fixed length; in the model they are lists, and this theory shows that they keep their length
  through every operation, whatever library calls fail, so that message 2 has the size of its
  structure.
\<close>

section \<open>Sizes\<close>

definition lib_typed :: "openssl \<Rightarrow> bool" where
  "lib_typed L \<longleftrightarrow> (\<forall>k m. length (cmac_aes L k m) = 16) \<and> (\<forall>m. length (sha256 L m) = 32) \<and>
     (\<forall>n. length (bn2lebinpad L n 32) = 32) \<and> (\<forall>n. length (bn2binpad L n 32) = 32)"

definition session_typed :: "ra_session \<Rightarrow> bool" where
  "session_typed ses \<longleftrightarrow> length (g_a ses) = 64 \<and> length (g_b ses) = 64 \<and> length (kdk ses) = 16 \<and>
     length (smk ses) = 16 \<and> length (sk ses) = 16 \<and> length (mk ses) = 16 \<and> length (vk ses) = 16"

definition msg1_typed :: "msg1 \<Rightarrow> bool" where
  "msg1_typed m \<longleftrightarrow> length (m1_g_a m) = 64 \<and> length (m1_gid m) = 4"

definition msg2_typed :: "msg2 \<Rightarrow> bool" where
  "msg2_typed m \<longleftrightarrow> length (m2_g_b m) = 64 \<and> length (m2_spid m) = 16 \<and> length (m2_sign_gb_ga m) = 64 \<and>
     length (m2_mac m) = 16"

lemma zero_session_typed [simp]: "session_typed zero_session"
  by (simp add: session_typed_def zero_session_def)

lemma msg2_size: "msg2_typed m \<Longrightarrow> length (msg2_a m) = 148 \<and> length (msg2_bytes m) = 168"
  by (simp add: msg2_typed_def msg2_a_def msg2_bytes_def le16_def le32_def)

section \<open>Preservation\<close>

lemma cmac128_typed:
  "lib_typed L \<Longrightarrow> length mac = 16 \<Longrightarrow> cmac128 L k m mac s = (ok, mac', s') \<Longrightarrow> length mac' = 16"
  by (auto simp: lib_typed_def cmac128_def crypto_simps split: if_splits)

lemma sha256_digest_typed: "lib_typed L \<Longrightarrow> sha256_digest L m s = (ok, d, s') \<Longrightarrow> length d = 32"
  by (auto simp: lib_typed_def sha256_digest_def crypto_simps split: if_splits)

lemma key_to_sgx_ec256_typed:
  "lib_typed L \<Longrightarrow> length (fst k) = 32 \<and> length (snd k) = 32 \<Longrightarrow> key_to_sgx_ec256 L k key s = (ok, (gx, gy), s') \<Longrightarrow>
     length gx = 32 \<and> length gy = 32"
  by (auto simp: lib_typed_def key_to_sgx_ec256_def crypto_simps split: if_splits prod.splits)

lemma ecdsa_sign_typed:
  assumes "lib_typed L" "length r = 32" "length sg = 32" "ecdsa_sign L m key (r, sg, d) s = (ok, (r', sg', d'), s')"
  shows "length r' = 32 \<and> length sg' = 32"
  using assms by (auto simp: lib_typed_def ecdsa_sign_def crypto_simps split: if_splits prod.splits)

lemma derive_kdk_typed:
  assumes "lib_typed L" "length kdk0 = 16" "derive_kdk L Gb kdk0 ga s = (ok, k, s')"
  shows "length k = 16"
  using assms
  by (auto simp: derive_kdk_def Let_def split: prod.splits option.splits intro: cmac128_typed)

lemma send_msg4_typed:
  assumes "lib_typed (e_lib E)" "session_typed ses" "send_msg4 E m4 ses st = (m4', ses', st')"
  shows "session_typed ses'"
  using assms
  by (auto simp: send_msg4_def session_typed_def Let_def split: prod.splits if_splits intro: cmac128_typed)

lemma check_report_typed:
  assumes "lib_typed (e_lib E)" "session_typed ses" "check_report E cfg ses body m4 s = (Some (m4', ses'), s')"
  shows "session_typed ses'"
  using assms
  by (auto simp: check_report_def session_typed_def Let_def split: prod.splits if_splits intro: cmac128_typed)

lemma answer_msg01_typed:
  assumes "lib_typed (e_lib E)" "length (spid cfg) = 16" "session_typed ses"
    and "answer_msg01 E cfg ses b ias s = (Done (Some (m1, m2, rl, ses')), ias', s')"
  shows "msg1_typed m1 \<and> msg2_typed m2 \<and> session_typed ses'"
proof -
  let ?L = "e_lib E" and ?ga = "field b 4 64"
  have len: "\<not> length b < 4" "word_le32 b = 0" "\<not> length b < 72"
    using assms(4) by (auto simp: answer_msg01_def split: if_splits)
  obtain Gbo s1 where kg0: "key_generate ?L s = (Gbo, s1)" by (rule prod.exhaust)
  then obtain Gb where kg: "key_generate ?L s = (Some Gb, s1)"
    using assms(4) len by (cases Gbo) (auto simp: answer_msg01_def Let_def)
  obtain ok k s2 where dk: "derive_kdk ?L Gb (kdk ses) ?ga s1 = (ok, k, s2)" by (rule prod_cases3)
  have ok: ok using assms(4) len kg dk by (auto simp: answer_msg01_def Let_def split: bool.splits)
  obtain ok2 sm s3 where cm: "cmac128 ?L k label_SMK (smk ses) s2 = (ok2, sm, s3)" by (rule prod_cases3)
  obtain ok3 gx gy s4 where ks: "key_to_sgx_ec256 ?L (replicate 32 0, replicate 32 0) Gb s3 = (ok3, (gx, gy), s4)"
    by (metis prod.exhaust)
  obtain g ias2 where gs: "get_sigrl E (apiver cfg) (field b 68 4) ias = (g, ias2)" by (rule prod.exhaust)
  note steps = len kg dk ok cm ks gs
  obtain rl2 sz key where g: "g = Some (rl2, sz)" "service_private_key cfg = Some key"
    using assms(4) by (cases g; cases "service_private_key cfg") (auto simp: answer_msg01_def steps Let_def)
  obtain ok4 r sg d s5 where sn: "ecdsa_sign ?L ((gx @ gy) @ ?ga) key (junk_bytes E 32, junk_bytes E 32, junk_bytes E 32) s4 =
      (ok4, (r, sg, d), s5)" by (metis prod.exhaust)
  define m where "m = \<lparr>m2_g_b = gx @ gy, m2_spid = spid cfg, m2_quote_type = quote_type cfg, m2_kdf_id = 1,
      m2_sign_gb_ga = rev r @ rev sg, m2_mac = replicate 16 0, m2_sig_rl_size = sz\<rparr>"
  obtain ok5 mac s6 where mc: "cmac128 ?L sm (msg2_a m) (replicate 16 0) s5 = (ok5, mac, s6)" by (rule prod_cases3)
  have res: "m1 = \<lparr>m1_g_a = ?ga, m1_gid = field b 68 4\<rparr>" "m2 = m\<lparr>m2_mac := mac\<rparr>"
    "ses' = ses\<lparr>g_a := ?ga, g_b := gx @ gy, kdk := k, smk := sm\<rparr>"
    using assms(4) sn mc by (auto simp: answer_msg01_def steps g Let_def m_def)
  have "length (junk_bytes E 32) = 32" by (simp add: junk_bytes_def)
  note sizes = cmac128_typed [OF assms(1) _ cm] cmac128_typed [OF assms(1) _ mc]
    key_to_sgx_ec256_typed [OF assms(1) _ ks] derive_kdk_typed [OF assms(1) _ dk]
    ecdsa_sign_typed [OF assms(1) this this sn]
  show ?thesis
    using sizes len(3) assms(2,3)
    by (simp add: res m_def msg1_typed_def msg2_typed_def session_typed_def field_def)
qed

lemma check_msg3_typed:
  assumes "lib_typed (e_lib E)" "session_typed ses"
    and "check_msg3 E cfg ses m1 b sz ias s = (Done (Some (m4, ses')), ias', s')"
  shows "session_typed ses'"
  using assms(3)
  by (auto simp: check_msg3_def Let_def split: if_splits prod.splits option.splits run.splits
      intro: check_report_typed [OF assms(1,2)])


definition first_state :: sp_state where
  "first_state = sample_state\<lparr>s_world := sample_world [Rcv_data (print_hexstring sample_msg01 @ [LF])] [] []\<rparr>"

lemma first_state_read:
  "\<exists>io w. read (\<lambda>_. 0) (s_io first_state) (s_world first_state) =
     (Returned 1 (Some sample_msg01) (Some (2 * length sample_msg01)), io, w)"
proof -
  let ?evs = "[Rcv_data (print_hexstring sample_msg01 @ [LF])]"
  have "sample_msg01 \<noteq> []" by (simp add: sample_msg01_def)
  then obtain evs' where "read_loop (\<lambda>_. 0) ?evs sample_io (sample_world ?evs [] []) =
      (Returned 1 (Some sample_msg01) (Some (2 * length sample_msg01)), sample_io\<lparr>rbuffer := []\<rparr>,
       (sample_world ?evs [] [])\<lparr>recvs := evs'\<rparr>)"
    using read_loop_frame [of ?evs sample_msg01 "sample_world ?evs [] []" sample_io "\<lambda>_. 0"]
    by (auto simp: live_def sample_io_def sample_world_def)
  then show ?thesis by (simp add: read_def first_state_def sample_state_def sample_io_def sample_world_def)
qed


end
