(* ===== verification/Sp_Options.thy ===== *)
theory Sp_Options
  imports Sp_Server Getopt Fileio
begin

text \<open>
  The start of \<open>service-provider/sp.cpp\<close>: \<open>get_proxy\<close>, the options, the checks after them, the
  connection to the attestation service and the message object, up to the server loop.

  The flags are of type \<open>char\<close> and are counted up. \<open>Usage\<close> is the exit through \<open>usage()\<close>. An
  argument is followed in memory by \<open>oe_after\<close>, which the hex decoder reads when the text is
  too short. Printing is left out.
\<close>

section \<open>The proxy address\<close>

text \<open>
  The result, the server and the port. The search for the first colon gives \<open>npos\<close> when there
  is none; \<open>npos + 1\<close> is 0.
\<close>

definition get_proxy :: "bool \<Rightarrow> string \<Rightarrow> string option \<Rightarrow> 32 word \<Rightarrow> bool \<times> string option \<times> 32 word" where
  "get_proxy new_ok url server0 port0 =
     (let lcurl = map tolower (cstr url);
          idx1 = find_if_from (\<lambda>c. c = CHR '':'') lcurl 0;
          proto = (case idx1 of None \<Rightarrow> lcurl | Some i \<Rightarrow> take i lcurl) in
      if proto \<noteq> ''https'' \<and> proto \<noteq> ''http'' then (False, server0, port0)
      else
        let port = (if proto = ''https'' then 443 else 80);
            start = (case idx1 of None \<Rightarrow> 0 | Some i \<Rightarrow> i + 1) in
        case find_if_from (\<lambda>c. c \<noteq> CHR ''/'') lcurl start of
          None \<Rightarrow> (False, server0, port)
        | Some i1 \<Rightarrow>
            (case find_if_from (\<lambda>c. c = CHR '':'') lcurl i1 of
               None \<Rightarrow>
                 (let srv = (case find_if_from (\<lambda>c. c = CHR ''/'') lcurl i1 of
                      None \<Rightarrow> drop i1 lcurl | Some i2 \<Rightarrow> substr lcurl i1 (i2 - i1))
                  in if new_ok then (True, Some (cstr srv), port) else (False, server0, port))
             | Some i2 \<Rightarrow>
                 (let srv = substr lcurl i1 (i2 - i1);
                      j1 = i2 + 1;
                      sport = (case find_if_from (\<lambda>c. c = CHR ''/'') lcurl j1 of
                        None \<Rightarrow> drop j1 lcurl | Some j2 \<Rightarrow> substr lcurl j1 (j2 - j1))
                  in case stoul sport of
                       Inl e \<Rightarrow> (False, server0, port)
                     | Inr v \<Rightarrow> if new_ok then (True, Some (cstr srv), ucast v) else (False, server0, ucast v))))"

section \<open>The options\<close>

definition sp_shorts :: string where "sp_shorts = ''A:B:DGI:J:K:N:PR:S:V:X:dg:hk:lp:r:s:i:j:vxz''"

definition sp_longs :: long_options where
  "sp_longs =
    [(''ias-signing-cafile'', Required_argument, CHR ''A''), (''ca-bundle'', Required_argument, CHR ''B''),
     (''no-debug-enclave'', No_argument, CHR ''D''), (''list-agents'', No_argument, CHR ''G''),
     (''ias-pri-api-key-file'', Required_argument, CHR ''I''), (''ias-sec-api-key-file'', Required_argument, CHR ''J''),
     (''service-key-file'', Required_argument, CHR ''K''), (''mrsigner'', Required_argument, CHR ''N''),
     (''production'', No_argument, CHR ''P''), (''isv-product-id'', Required_argument, CHR ''R''),
     (''spid-file'', Required_argument, CHR ''S''), (''min-isv-svn'', Required_argument, CHR ''V''),
     (''strict-trust-mode'', No_argument, CHR ''X''), (''debug'', No_argument, CHR ''d''),
     (''user-agent'', Required_argument, CHR ''g''), (''help'', No_argument, CHR ''h''),
     (''ias-pri-api-key'', Required_argument, CHR ''i''), (''ias-sec-api-key'', Required_argument, CHR ''j''),
     (''key'', Required_argument, CHR ''k''), (''linkable'', No_argument, CHR ''l''),
     (''proxy'', Required_argument, CHR ''p''), (''api-version'', Required_argument, CHR ''r''),
     (''spid'', Required_argument, CHR ''s''), (''verbose'', No_argument, CHR ''v''),
     (''no-proxy'', No_argument, CHR ''x''), (''stdio'', No_argument, CHR ''z'')]"

datatype stop = Return nat | Usage

record opts =
  o_cfg :: config
  flag_spid :: "8 word"
  flag_ca :: "8 word"
  flag_noproxy :: "8 word"
  flag_prod :: "8 word"
  flag_stdio :: "8 word"
  flag_isv_product_id :: "8 word"
  flag_min_isvsvn :: "8 word"
  flag_mrsigner :: "8 word"

record opt_env =
  oe_lib :: openssl
  oe_files :: files
  oe_strdup :: bool
  oe_new :: bool
  oe_malloc :: bool
  oe_junk :: "nat \<Rightarrow> byte"
  oe_after :: string
  oe_heap :: string
  oe_linkable :: "16 word"

definition IAS_API_DEF_VERSION :: "32 word" where "IAS_API_DEF_VERSION = 4"
definition IAS_MIN_VERSION :: "32 word" where "IAS_MIN_VERSION = 3"
definition IAS_MAX_VERSION :: "32 word" where "IAS_MAX_VERSION = 4"

definition default_opts :: opts where
  "default_opts = \<lparr>o_cfg = \<lparr>spid = replicate 16 0, pri_subscription_key = replicate 33 NUL,
       sec_subscription_key = replicate 33 NUL, quote_type = 0, service_private_key = None, proxy_server = None,
       ca_bundle = None, user_agent = None, proxy_port = 0, store = None, signing_ca = None,
       apiver = IAS_API_DEF_VERSION, strict_trust = False, req_mrsigner = replicate 32 0, req_isv_product_id = 0,
       min_isvsvn = 0, allow_debug_enclave = True, debug = False, verbose = False\<rparr>,
     flag_spid = 0, flag_ca = 0, flag_noproxy = 0, flag_prod = 0, flag_stdio = 0, flag_isv_product_id = 0,
     flag_min_isvsvn = 0, flag_mrsigner = 0\<rparr>"

text \<open>A subscription key from a file: it must have 33 characters, of which 32 are read.\<close>

definition key_from_file :: "files \<Rightarrow> string \<Rightarrow> string \<Rightarrow> stop + string" where
  "key_from_file fs name key0 =
     (let (r, offset) = from_file_size fs name IAS_SUBSCRIPTION_KEY_SIZE in
      if offset \<noteq> IAS_SUBSCRIPTION_KEY_SIZE + 1 \<or> \<not> r then Inl (Return 1)
      else case from_file fs name (offset - 1) key0 of
        Exited n \<Rightarrow> Inl (Return n)
      | Value (ok, k) \<Rightarrow> if ok then Inr k else Inl (Return 1))"

text \<open>A number of 16 bits.\<close>

definition number_option :: "string \<Rightarrow> (16 word) option" where
  "number_option arg =
     (let (val, e) = strtoul 10 arg in if e \<noteq> [] \<or> val > 0xFFFF then None else Some (ucast val))"

text \<open>
  What an array of \<open>n\<close> bytes holds after the decoding of an argument: the bytes decoded before a
  failing digit replace the old ones.
\<close>

definition hex_option :: "opt_env \<Rightarrow> string \<Rightarrow> nat \<Rightarrow> bool \<times> bytes" where
  "hex_option V arg n = from_hexstring (oe_junk V) (arg @ NUL # oe_after V) n"

definition update_cfg :: "(config \<Rightarrow> config) \<Rightarrow> opts \<Rightarrow> opts" where
  "update_cfg f q = q\<lparr>o_cfg := f (o_cfg q)\<rparr>"

text \<open>One option. The letters are those of the \<open>switch\<close>; what is not there ends in \<open>usage()\<close>.\<close>

definition opt_step_lower :: "opt_env \<Rightarrow> char \<Rightarrow> string \<Rightarrow> opts \<Rightarrow> cstate \<Rightarrow> stop + (opts \<times> cstate)" where
  "opt_step_lower V c arg q s =
     (let L = oe_lib V; cfg = o_cfg q; fail = Inl (Return 1) in
      if c = CHR ''d'' then Inr (update_cfg (\<lambda>k. k\<lparr>debug := True\<rparr>) q, s)
      else if c = CHR ''g'' then
        (if oe_strdup V then Inr (update_cfg (\<lambda>k. k\<lparr>user_agent := Some arg\<rparr>) q, s) else fail)
      else if c = CHR ''i'' then
        (if length arg \<noteq> IAS_SUBSCRIPTION_KEY_SIZE then fail
         else Inr (update_cfg (\<lambda>k. k\<lparr>pri_subscription_key := arg @ drop 32 (pri_subscription_key k)\<rparr>) q, s))
      else if c = CHR ''j'' then
        (if length arg \<noteq> IAS_SUBSCRIPTION_KEY_SIZE then fail
         else Inr (update_cfg (\<lambda>k. k\<lparr>sec_subscription_key := arg @ drop 32 (sec_subscription_key k)\<rparr>) q, s))
      else if c = CHR ''k'' then
        (case key_load L (Some arg) KEY_PRIVATE (service_private_key cfg) s of
           (True, key, s) \<Rightarrow> Inr (update_cfg (\<lambda>k. k\<lparr>service_private_key := key\<rparr>) q, s)
         | _ \<Rightarrow> fail)
      else if c = CHR ''l'' then Inr (update_cfg (\<lambda>k. k\<lparr>quote_type := oe_linkable V\<rparr>) q, s)
      else if c = CHR ''p'' then
        (if flag_noproxy q \<noteq> 0 then Inl Usage
         else case get_proxy (oe_new V) arg (proxy_server cfg) (proxy_port cfg) of
           (False, _, _) \<Rightarrow> fail
         | (True, srv, port) \<Rightarrow> Inr (update_cfg (\<lambda>k. k\<lparr>proxy_server := srv, proxy_port := port\<rparr>) q, s))
      else if c = CHR ''r'' then
        (let v = atoi arg in
         if v < IAS_MIN_VERSION \<or> v > IAS_MAX_VERSION then fail
         else Inr (update_cfg (\<lambda>k. k\<lparr>apiver := v\<rparr>) q, s))
      else if c = CHR ''s'' then
        (if length arg < 32 then fail
         else let (ok, bs) = hex_option V arg 16 in
           if ok then Inr ((update_cfg (\<lambda>k. k\<lparr>spid := bs\<rparr>) q)\<lparr>flag_spid := flag_spid q + 1\<rparr>, s) else fail)
      else if c = CHR ''v'' then Inr (update_cfg (\<lambda>k. k\<lparr>verbose := True\<rparr>) q, s)
      else if c = CHR ''x'' then
        (if proxy_server cfg \<noteq> None then Inl Usage else Inr (q\<lparr>flag_noproxy := 1\<rparr>, s))
      else if c = CHR ''z'' then Inr (q\<lparr>flag_stdio := 1\<rparr>, s)
      else Inl Usage)"

definition opt_step :: "opt_env \<Rightarrow> option_event \<Rightarrow> opts \<Rightarrow> cstate \<Rightarrow> stop + (opts \<times> cstate)" where
  "opt_step V ev q s =
     (let c = fst ev; arg = (case snd ev of Some t \<Rightarrow> t | None \<Rightarrow> []); L = oe_lib V; fs = oe_files V;
          cfg = o_cfg q; fail = Inl (Return 1) in
      if c = CHR ''A'' then
        (case cert_load_file L arg (fs arg) s of
           (True, Some ca, s) \<Rightarrow>
             (case cert_init_ca L ca s of
                (None, s) \<Rightarrow> fail
              | (Some st, s) \<Rightarrow>
                  Inr ((update_cfg (\<lambda>k. k\<lparr>signing_ca := Some ca, store := Some st\<rparr>) q)\<lparr>flag_ca := flag_ca q + 1\<rparr>, s))
         | _ \<Rightarrow> fail)
      else if c = CHR ''B'' then
        (if oe_strdup V then Inr (update_cfg (\<lambda>k. k\<lparr>ca_bundle := Some arg\<rparr>) q, s) else fail)
      else if c = CHR ''D'' then Inr (update_cfg (\<lambda>k. k\<lparr>allow_debug_enclave := False\<rparr>) q, s)
      else if c = CHR ''G'' then fail
      else if c = CHR ''I'' then
        (case key_from_file fs arg (pri_subscription_key cfg) of Inl e \<Rightarrow> Inl e
         | Inr t \<Rightarrow> Inr (update_cfg (\<lambda>k. k\<lparr>pri_subscription_key := t\<rparr>) q, s))
      else if c = CHR ''J'' then
        (case key_from_file fs arg (sec_subscription_key cfg) of Inl e \<Rightarrow> Inl e
         | Inr t \<Rightarrow> Inr (update_cfg (\<lambda>k. k\<lparr>sec_subscription_key := t\<rparr>) q, s))
      else if c = CHR ''K'' then
        (case key_load_file L arg (fs arg) KEY_PRIVATE s of
           (True, key, s) \<Rightarrow> Inr (update_cfg (\<lambda>k. k\<lparr>service_private_key := key\<rparr>) q, s)
         | _ \<Rightarrow> fail)
      else if c = CHR ''N'' then
        (let (ok, bs) = hex_option V arg 32 in
         if ok then Inr ((update_cfg (\<lambda>k. k\<lparr>req_mrsigner := bs\<rparr>) q)\<lparr>flag_mrsigner := flag_mrsigner q + 1\<rparr>, s) else fail)
      else if c = CHR ''P'' then Inr (q\<lparr>flag_prod := 1\<rparr>, s)
      else if c = CHR ''R'' then
        (case number_option arg of None \<Rightarrow> fail
         | Some v \<Rightarrow> Inr ((update_cfg (\<lambda>k. k\<lparr>req_isv_product_id := v\<rparr>) q)
             \<lparr>flag_isv_product_id := flag_isv_product_id q + 1\<rparr>, s))
      else if c = CHR ''S'' then
        (case from_hexstring_file (oe_junk V) (oe_malloc V) (oe_heap V) fs arg 16 of
           (False, _) \<Rightarrow> fail
         | (True, bs) \<Rightarrow> Inr ((update_cfg (\<lambda>k. k\<lparr>spid := bs\<rparr>) q)\<lparr>flag_spid := flag_spid q + 1\<rparr>, s))
      else if c = CHR ''V'' then
        (case number_option arg of None \<Rightarrow> fail
         | Some v \<Rightarrow> Inr ((update_cfg (\<lambda>k. k\<lparr>min_isvsvn := v\<rparr>) q)\<lparr>flag_min_isvsvn := flag_min_isvsvn q + 1\<rparr>, s))
      else if c = CHR ''X'' then Inr (update_cfg (\<lambda>k. k\<lparr>strict_trust := True\<rparr>) q, s)
      else opt_step_lower V c arg q s)"

fun opt_loop :: "opt_env \<Rightarrow> option_event list \<Rightarrow> opts \<Rightarrow> cstate \<Rightarrow> stop + (opts \<times> cstate)" where
  "opt_loop V [] q s = Inr (q, s)"
| "opt_loop V (ev # evs) q s =
     (case opt_step V ev q s of Inl e \<Rightarrow> Inl e | Inr (q', s') \<Rightarrow> opt_loop V evs q' s')"

section \<open>After the options\<close>

definition DEFAULT_CA_BUNDLE :: string where "DEFAULT_CA_BUNDLE = ''/etc/ssl/certs/ca-certificates.crt''"

definition def_service_private_key :: bytes where
  "def_service_private_key =
    [0x90, 0xe7, 0x6c, 0xbb, 0x2d, 0x52, 0xa1, 0xce, 0x3b, 0x66, 0xde, 0x11, 0x43, 0x9c, 0x87, 0xec,
     0x1f, 0x86, 0x6a, 0x3b, 0x65, 0xb6, 0xae, 0xea, 0xad, 0x57, 0x34, 0x53, 0xd1, 0x03, 0x8c, 0x01]"

definition port_argument :: "opt_env \<Rightarrow> opts \<Rightarrow> string list \<Rightarrow> stop + string" where
  "port_argument V q rest =
     (if length rest > 1 then Inl Usage
      else if flag_stdio q \<noteq> 0 \<and> rest \<noteq> [] then Inl Usage
      else case rest of p # _ \<Rightarrow> Inr p | [] \<Rightarrow> if oe_strdup V then Inr DEFAULT_PORT else Inl (Return 1))"

definition fill_defaults :: "opt_env \<Rightarrow> opts \<Rightarrow> cstate \<Rightarrow> stop + (opts \<times> cstate)" where
  "fill_defaults V q s =
     (if ca_bundle (o_cfg q) = None \<and> \<not> oe_strdup V then Inl (Return 1)
      else
        let q = (if ca_bundle (o_cfg q) = None then update_cfg (\<lambda>k. k\<lparr>ca_bundle := Some DEFAULT_CA_BUNDLE\<rparr>) q else q) in
        if service_private_key (o_cfg q) \<noteq> None then Inr (q, s)
        else case key_private_from_bytes (oe_lib V) def_service_private_key s of
          (None, s) \<Rightarrow> Inl (Return 1)
        | (key, s) \<Rightarrow> Inr (update_cfg (\<lambda>k. k\<lparr>service_private_key := key\<rparr>) q, s))"

definition required_given :: "opts \<Rightarrow> bool" where
  "required_given q \<longleftrightarrow> flag_spid q \<noteq> 0 \<and> flag_ca q \<noteq> 0 \<and> flag_isv_product_id q \<noteq> 0 \<and>
     flag_min_isvsvn q \<noteq> 0 \<and> flag_mrsigner q \<noteq> 0"

text \<open>The connection to the attestation service; \<open>pads\<close> are the random pads of the two keys.\<close>

definition make_connection :: "bytes \<times> bytes \<Rightarrow> opts \<Rightarrow> stop + conn" where
  "make_connection pads q =
     (let cfg = o_cfg q;
          c = ias_connection (fst pads) (snd pads) (if flag_prod q \<noteq> 0 then 1 else 0) 0
                (Some (pri_subscription_key cfg)) (Some (sec_subscription_key cfg));
          c = (if flag_noproxy q \<noteq> 0 then c\<lparr>c_proxy_mode := IAS_PROXY_NONE\<rparr>
               else case proxy_server cfg of None \<Rightarrow> c
                 | Some srv \<Rightarrow> set_proxy srv (ucast (proxy_port cfg)) (c\<lparr>c_proxy_mode := IAS_PROXY_FORCE\<rparr>));
          (ok, c) = (case user_agent cfg of None \<Rightarrow> (True, c) | Some a \<Rightarrow> set_agent a c)
      in if \<not> ok then Inl (Return 0)
         else let c = c\<lparr>c_store := store cfg\<rparr> in
           Inr (case ca_bundle cfg of Some b \<Rightarrow> if cstr b \<noteq> [] then c\<lparr>c_ca_file := cstr b\<rparr> else c | None \<Rightarrow> c))"

text \<open>
  \<open>main\<close> up to the server loop. \<open>resolve\<close> and \<open>listens\<close> are what the network makes of the port.
\<close>

definition sp_start ::
    "opt_env \<Rightarrow> bytes \<times> bytes \<Rightarrow> (string \<Rightarrow> address list option) \<Rightarrow> bool \<Rightarrow> world \<Rightarrow> string list
      \<Rightarrow> stop + (config \<times> sp_state)" where
  "sp_start V pads resolve listens w args =
     (let (evs, rest) = getopt_long (short_spec sp_shorts) sp_longs args in
      case opt_loop V evs default_opts crypto_init of Inl e \<Rightarrow> Inl e
      | Inr (q, s) \<Rightarrow>
        (case port_argument V q rest of Inl e \<Rightarrow> Inl e
         | Inr port \<Rightarrow>
          (case fill_defaults V q s of Inl e \<Rightarrow> Inl e
           | Inr (q, s) \<Rightarrow>
              if \<not> required_given q then Inl Usage
              else case make_connection pads q of Inl e \<Rightarrow> Inl e
                | Inr c \<Rightarrow>
                    if flag_stdio q \<noteq> 0 then
                      Inr (o_cfg q, \<lparr>s_io = msgio_stdio, s_world = w, s_ias = c, s_crypto = s\<rparr>)
                    else (case msgio_open True (resolve port) listens w of
                        (Inl e, w) \<Rightarrow> Inl (Return 1)
                      | (Inr io, w) \<Rightarrow> Inr (o_cfg q, \<lparr>s_io = io, s_world = w, s_ias = c, s_crypto = s\<rparr>)))))"

text \<open>The whole program: its start and its sessions with the peers.\<close>

definition sp_main ::
    "sp_env \<Rightarrow> opt_env \<Rightarrow> bytes \<times> bytes \<Rightarrow> (string \<Rightarrow> address list option) \<Rightarrow> bool \<Rightarrow> world \<Rightarrow> string list
      \<Rightarrow> peer list \<Rightarrow> stop + (server_end \<times> sp_state)" where
  "sp_main E V pads resolve listens w args ps =
     map_sum id (\<lambda>(cfg, st). serve E cfg ps st) (sp_start V pads resolve listens w args)"

text \<open>The signal handler: the destructor closes the sockets, and the exit code is 1.\<close>

definition cleanup_and_exit :: "sp_state \<Rightarrow> stop \<times> world" where
  "cleanup_and_exit st = (Return 1, msgio_destroy (s_io st) (s_world st))"

section \<open>Lemmas\<close>

lemma from_hexstring_loop_length:
  "fst (from_hexstring_loop junk src i n) \<Longrightarrow> length (snd (from_hexstring_loop junk src i n)) = n"
  by (induction junk src i n rule: from_hexstring_loop.induct) (auto split: scan.splits prod.splits)

lemma hex_option_length: "hex_option V arg n = (True, bs) \<Longrightarrow> length bs = n"
  using from_hexstring_loop_length [of "oe_junk V" "arg @ NUL # oe_after V" 0 n]
  by (simp add: hex_option_def from_hexstring_def)

lemma from_hexstring_file_length: "from_hexstring_file junk m heap fs f n = (True, bs) \<Longrightarrow> length bs = 16"
  using from_hexstring_loop_length [of junk "take (n * 2) (the (fs f)) @ heap" 0 16]
  by (auto simp: from_hexstring_file_def from_hexstring_def split: if_splits option.splits)

text \<open>The invariant of the option loop.\<close>

definition opts_ok :: "opts \<Rightarrow> bool" where
  "opts_ok q \<longleftrightarrow>
     (let cfg = o_cfg q in
      IAS_MIN_VERSION \<le> apiver cfg \<and> apiver cfg \<le> IAS_MAX_VERSION \<and>
      length (spid cfg) = 16 \<and> length (req_mrsigner cfg) = 32 \<and>
      (flag_ca q \<noteq> 0 \<longrightarrow> store cfg \<noteq> None) \<and>
      (flag_noproxy q \<noteq> 0 \<longrightarrow> proxy_server cfg = None))"

lemma opts_ok_default: "opts_ok default_opts"
  by (simp add: opts_ok_def default_opts_def IAS_MIN_VERSION_def IAS_MAX_VERSION_def IAS_API_DEF_VERSION_def
      word_le_nat_alt Let_def)

lemma opt_step_other:
  "c \<notin> set ''ABDGIJKNPRSVXdgijklprsvxz'' \<Longrightarrow> opt_step V (c, a) q s = Inl Usage"
  by (simp add: opt_step_def opt_step_lower_def Let_def)

lemma opt_step_letter:
  "opt_step V (c, a) q s = Inr r \<Longrightarrow> c \<in> set ''ABDIJKNPRSVXdgijklprsvxz''"
proof (rule ccontr)
  assume o: "opt_step V (c, a) q s = Inr r" and n: "c \<notin> set ''ABDIJKNPRSVXdgijklprsvxz''"
  show False
  proof (cases "c = CHR ''G''")
    case True
    with o show False by (simp add: opt_step_def opt_step_lower_def Let_def)
  next
    case False
    with n have "c \<notin> set ''ABDGIJKNPRSVXdgijklprsvxz''" by simp
    from opt_step_other [OF this, of V a q s] o show False by simp
  qed
qed

lemma opt_step_ok:
  assumes "opts_ok q" and "opt_step V ev q s = Inr (q', s')"
  shows "opts_ok q'"
proof -
  obtain c a where ev: "ev = (c, a)" by (rule prod.exhaust)
  from opt_step_letter [OF assms(2) [unfolded ev]] have c: "c = CHR ''A'' \<or> c = CHR ''B'' \<or> c = CHR ''D'' \<or>
    c = CHR ''I'' \<or> c = CHR ''J'' \<or> c = CHR ''K'' \<or> c = CHR ''N'' \<or> c = CHR ''P'' \<or> c = CHR ''R'' \<or>
    c = CHR ''S'' \<or> c = CHR ''V'' \<or> c = CHR ''X'' \<or> c = CHR ''d'' \<or> c = CHR ''g'' \<or> c = CHR ''i'' \<or>
    c = CHR ''j'' \<or> c = CHR ''k'' \<or> c = CHR ''l'' \<or> c = CHR ''p'' \<or> c = CHR ''r'' \<or> c = CHR ''s'' \<or>
    c = CHR ''v'' \<or> c = CHR ''x'' \<or> c = CHR ''z''" by simp
  then show ?thesis
    using assms(1) assms(2) [unfolded ev]
    by (elim disjE; simp add: opt_step_def opt_step_lower_def Let_def split: prod.splits option.splits sum.splits if_splits bool.splits;
        (auto simp: opts_ok_def update_cfg_def Let_def not_less dest!: hex_option_length from_hexstring_file_length)?)
qed

lemma opt_loop_ok: "opts_ok q \<Longrightarrow> opt_loop V evs q s = Inr (q', s') \<Longrightarrow> opts_ok q'"
  by (induction evs arbitrary: q s) (auto dest: opt_step_ok split: sum.splits prod.splits)

lemma fill_defaults_ok:
  "opts_ok q \<Longrightarrow> fill_defaults V q s = Inr (q', s') \<Longrightarrow>
   opts_ok q' \<and> service_private_key (o_cfg q') \<noteq> None \<and> ca_bundle (o_cfg q') \<noteq> None \<and>
   flag_ca q' = flag_ca q \<and> flag_stdio q' = flag_stdio q"
  by (auto simp: fill_defaults_def opts_ok_def update_cfg_def Let_def split: if_splits option.splits prod.splits)

lemma make_connection_ok:
  "make_connection pads q = Inr c \<Longrightarrow> c_store c = store (o_cfg q) \<and> c_agent c = No_agent \<and> currentKeyID c = Primary"
  by (auto simp: make_connection_def set_agent_def set_proxy_def ias_connection_def setSubscriptionKey_def Let_def
      split: if_splits option.splits prod.splits)

lemma from_hexstring_loop_add:
  "from_hexstring_loop junk src i (a + b) =
     (let (r, ds) = from_hexstring_loop junk src i a in
      if r then let (r', ds') = from_hexstring_loop junk src (i + a) b in (r', ds @ ds') else (False, ds))"
  by (induction a arbitrary: i) (auto split: scan.splits prod.splits)

lemma from_hexstring_loop_beyond:
  "\<forall>i' \<ge> i. cstr (drop (i' * 2) src) = [] \<Longrightarrow> from_hexstring_loop junk src i n = (True, map junk [i..<i + n])"
proof (induction n arbitrary: i)
  case (Suc n)
  have "cstr (drop (i * 2) src) = []" using Suc.prems by blast
  moreover have "[i..<i + Suc n] = i # [Suc i..<Suc i + n]" by (simp add: upt_rec)
  ultimately show ?case using Suc.IH [of "Suc i"] Suc.prems by (simp add: scan_2x_def)
qed simp

lemma hex_option_short:
  assumes "length m \<le> n" and "oe_after V = []"
  shows "hex_option V (print_hexstring m) n = (True, m @ map (oe_junk V) [length m..<n])"
proof -
  let ?src = "print_hexstring m @ [NUL]"
  have len: "length (print_hexstring m) = 2 * length m" by (simp add: hexc.enc_length)
  have "cstr (drop (i * 2) ?src) = []" if "length m \<le> i" for i
    using that by (cases "i = length m") (simp_all add: len cstr_def)
  then have "from_hexstring_loop (oe_junk V) ?src (length m) (n - length m) =
      (True, map (oe_junk V) [length m..<length m + (n - length m)])"
    by (intro from_hexstring_loop_beyond) blast
  moreover have "from_hexstring_loop (oe_junk V) ?src 0 (length m) = (True, m)"
    using hexc.dec_enc [of "oe_junk V" m "[NUL]"] by (simp add: from_hexstring_def)
  ultimately show ?thesis
    using assms from_hexstring_loop_add [of "oe_junk V" ?src 0 "length m" "n - length m"]
    by (simp add: hex_option_def from_hexstring_def)
qed

text \<open>Searching in text that is put together.\<close>

lemma find_if_from_hit:
  "drop i s = xs @ c # ys \<Longrightarrow> \<forall>x \<in> set xs. \<not> P x \<Longrightarrow> P c \<Longrightarrow> i \<le> length s \<Longrightarrow>
   find_if_from P s i = Some (i + length xs)"
proof -
  assume d: "drop i s = xs @ c # ys" "\<forall>x \<in> set xs. \<not> P x" "P c" "i \<le> length s"
  then have "dropWhile (\<lambda>c. \<not> P c) (drop i s) = c # ys" by (simp add: dropWhile_append)
  moreover have "length s = i + length xs + length (c # ys)"
    using d(4) arg_cong [OF d(1), of length] by (simp only: length_drop length_append)
  ultimately show ?thesis by (simp add: find_if_from_def)
qed

lemma find_if_from_none: "\<forall>x \<in> set (drop i s). \<not> P x \<Longrightarrow> find_if_from P s i = None"
  by (simp add: find_if_from_def)

lemma tolower_other:
  "tolower c = CHR '':'' \<longleftrightarrow> c = CHR '':''" "tolower c = CHR ''/'' \<longleftrightarrow> c = CHR ''/''" "tolower c = NUL \<longleftrightarrow> c = NUL"
proof -
  have "isupper c \<Longrightarrow> code (tolower c) = code c + 32"
    by (simp add: tolower_def isupper_def of_char_of)
  moreover have "tolower c = c" if "\<not> isupper c" using that by (simp add: tolower_def)
  ultimately show "tolower c = CHR '':'' \<longleftrightarrow> c = CHR '':''" "tolower c = CHR ''/'' \<longleftrightarrow> c = CHR ''/''"
    "tolower c = NUL \<longleftrightarrow> c = NUL"
    by (cases "isupper c"; auto simp: isupper_def)+
qed

lemma tolower_show_nat: "map tolower (show_nat n) = show_nat n"
proof (rule map_idI)
  fix c assume "c \<in> set (show_nat n)"
  then have "isdigit c" by (rule show_nat_isdigit)
  then show "tolower c = c" by (simp add: tolower_def char_class)
qed

definition sample_env :: "(string \<times> string) list \<Rightarrow> opt_env" where
  "sample_env fs = \<lparr>oe_lib = sample_lib (\<lambda>_. 1), oe_files = map_of fs, oe_strdup = True, oe_new = True,
     oe_malloc = True, oe_junk = (\<lambda>_. 0), oe_after = [], oe_heap = [], oe_linkable = 1\<rparr>"

section \<open>Properties\<close>

lemma sp_start_configured:
  assumes "sp_start V pads resolve listens w args = Inr (cfg, st)"
  shows "IAS_MIN_VERSION \<le> apiver cfg \<and> apiver cfg \<le> IAS_MAX_VERSION \<and> length (spid cfg) = 16 \<and>
    length (req_mrsigner cfg) = 32 \<and> service_private_key cfg \<noteq> None \<and> ca_bundle cfg \<noteq> None \<and>
    store cfg \<noteq> None \<and> c_store (s_ias st) = store cfg \<and> c_agent (s_ias st) = No_agent \<and>
    currentKeyID (s_ias st) = Primary"
proof -
  obtain evs rest where g: "getopt_long (short_spec sp_shorts) sp_longs args = (evs, rest)" by (rule prod.exhaust)
  obtain q s where l: "opt_loop V evs default_opts crypto_init = Inr (q, s)"
    using assms g by (auto simp: sp_start_def split: sum.splits prod.splits)
  obtain port where p: "port_argument V q rest = Inr port"
    using assms g l by (auto simp: sp_start_def split: sum.splits)
  obtain q1 s1 where f: "fill_defaults V q s = Inr (q1, s1)"
    using assms g l p by (auto simp: sp_start_def split: sum.splits)
  have r: "required_given q1" using assms g l p f by (auto simp: sp_start_def split: if_splits)
  obtain c where c: "make_connection pads q1 = Inr c"
    using assms g l p f r by (auto simp: sp_start_def split: sum.splits)
  have st: "cfg = o_cfg q1" "s_ias st = c"
    using assms g l p f r c by (auto simp: sp_start_def split: if_splits sum.splits prod.splits)
  have "opts_ok q" by (rule opt_loop_ok [OF opts_ok_default l])
  from fill_defaults_ok [OF this f] make_connection_ok [OF c] r st show ?thesis
    by (auto simp: opts_ok_def Let_def required_given_def)
qed


text \<open>
  The short form of the strict mode takes an argument, since its letter is followed by a
  colon in the string of short options: it swallows whatever argument comes next, which the
  long form leaves alone.
\<close>

theorem strict_option_swallows:
  "getopt_long (short_spec sp_shorts) sp_longs (''-X'' # a # args) =
     ((CHR ''X'', Some a) # fst (getopt_long (short_spec sp_shorts) sp_longs args),
      snd (getopt_long (short_spec sp_shorts) sp_longs args)) \<and>
   getopt_long (short_spec sp_shorts) sp_longs (''--strict-trust-mode'' # args) =
     ((CHR ''X'', None) # fst (getopt_long (short_spec sp_shorts) sp_longs args),
      snd (getopt_long (short_spec sp_shorts) sp_longs args))"
proof -
  have s: "short_cluster (short_spec sp_shorts) ''X'' (a # args) = ([(CHR ''X'', Some a)], args)"
    by (simp add: sp_shorts_def)
  have "long_matches sp_longs ''strict-trust-mode'' = [(''strict-trust-mode'', No_argument, CHR ''X'')]"
    by (simp add: long_matches_def sp_longs_def)
  then have l: "long_option sp_longs ''strict-trust-mode'' args = ((CHR ''X'', None), args)"
    by (simp add: long_option_def)
  show ?thesis using s l by (simp add: getopt_long.simps Let_def del: short_cluster.simps)
qed

text \<open>
  The length of the MRSIGNER argument is never checked: a shorter text is accepted, and the
  bytes that are missing are indeterminate.
\<close>

theorem short_mrsigner_accepted:
  assumes "length m < 32" and "oe_after V = []"
  shows "\<exists>q'. opt_step V (CHR ''N'', Some (print_hexstring m)) q s = Inr (q', s) \<and>
     req_mrsigner (o_cfg q') = m @ map (oe_junk V) [length m..<32]"
  using hex_option_short [of m 32 V] assms by (simp add: opt_step_def opt_step_lower_def update_cfg_def)

theorem short_mrsigner_accepted_witness:
  "\<exists>q'. opt_step (sample_env []) (CHR ''N'', Some (print_hexstring [1])) default_opts crypto_init = Inr (q', crypto_init) \<and>
     req_mrsigner (o_cfg q') = [1] @ map (oe_junk (sample_env [])) [length [1 :: byte]..<32]"
  by (rule short_mrsigner_accepted) (simp_all add: sample_env_def)

text \<open>
  An address of the form \<open>http://host:port\<close> is taken apart into the host in lower case
  and the port; the port is kept modulo \<open>2 ^ 32\<close> here and modulo \<open>2 ^ 16\<close> by the connection, so
  that a port above 65535 silently becomes another one.
\<close>

theorem proxy_address_parsed:
  assumes "host \<noteq> []" and "CHR '':'' \<notin> set host" and "CHR ''/'' \<notin> set host" and "NUL \<notin> set host"
    and "n < 2 ^ 64"
  shows "get_proxy True (''http://'' @ host @ '':'' @ show_nat n) srv p = (True, Some (map tolower host), of_nat n) \<and>
    c_proxy_port (set_proxy (map tolower host) (ucast (of_nat n :: 32 word)) c) = of_nat n"
proof -
  let ?host = "map tolower host"
  let ?u = "''http://'' @ ?host @ '':'' @ show_nat n"
  have nul: "NUL \<notin> set (''http://'' @ host @ '':'' @ show_nat n)" "NUL \<notin> set ?host"
    using assms(4) nul_not_in_show_nat [of n] by (simp_all add: image_iff) (metis tolower_other(3))
  have lc: "map tolower (cstr (''http://'' @ host @ '':'' @ show_nat n)) = ?u"
    using nul(1) by (simp add: tolower_show_nat tolower_def char_class)
  have h: "?host \<noteq> []" "\<forall>c \<in> set ?host. c \<noteq> CHR '':''" "\<forall>c \<in> set ?host. c \<noteq> CHR ''/''"
    using assms(1-3) by (auto simp: tolower_other)
  have "\<not> isdigit CHR ''/''" by (simp add: char_class)
  then have d: "\<forall>c \<in> set (show_nat n). c \<noteq> CHR ''/''" using show_nat_isdigit [of _ n] by blast
  have f1: "find_if_from (\<lambda>c. c = CHR '':'') ?u 0 = Some 4"
    using find_if_from_hit [of 0 ?u "''http''" "CHR '':''" "''//'' @ ?host @ '':'' @ show_nat n" "\<lambda>c. c = CHR '':''"] by simp
  obtain x xs where x: "?host = x # xs" using h(1) by (cases ?host) auto
  have f2: "find_if_from (\<lambda>c. c \<noteq> CHR ''/'') ?u 5 = Some 7"
    using find_if_from_hit [of 5 ?u "''//''" x "xs @ '':'' @ show_nat n" "\<lambda>c. c \<noteq> CHR ''/''"] h(3) x by simp
  have f3: "find_if_from (\<lambda>c. c = CHR '':'') ?u 7 = Some (7 + length host)"
    using find_if_from_hit [of 7 ?u ?host "CHR '':''" "show_nat n" "\<lambda>c. c = CHR '':''"] h(2) by simp
  have len: "length (''http://'' @ ?host @ '':'') = 7 + length host + 1" by simp
  have "drop (7 + length host + 1) ((''http://'' @ ?host @ '':'') @ show_nat n) = show_nat n"
    unfolding len [symmetric] by (rule append_eq_conv_conj [THEN iffD1, OF refl, THEN conjunct2, symmetric])
  then have srv: "substr ?u 7 (7 + length host - 7) = ?host" "drop (7 + length host + 1) ?u = show_nat n"
    by (simp_all only: append_assoc) (simp add: substr_def)
  have f4: "find_if_from (\<lambda>c. c = CHR ''/'') ?u (7 + length host + 1) = None"
    by (rule find_if_from_none) (use d in \<open>unfold srv, blast\<close>)
  have "strto 10 (show_nat n) = (Some (False, n), [])" using strto_show_nat [of "[]" n] by simp
  then have st: "stoul (show_nat n) = Inr (of_nat n)"
    using assms(5) nul_not_in_show_nat [of n] by (simp add: stoul_def not_le)
  have "get_proxy True (''http://'' @ host @ '':'' @ show_nat n) srv p =
      (True, Some (map tolower host), ucast (of_nat n :: 64 word))"
    unfolding get_proxy_def lc Let_def f1 option.case
    using f2 f3 f4 srv st nul(2) by simp
  moreover have "ucast (of_nat n :: 64 word) = (of_nat n :: 32 word)" "ucast (of_nat n :: 32 word) = (of_nat n :: 16 word)"
    by (rule bit_word_eqI; simp add: bit_ucast_iff bit_of_nat_iff)+
  ultimately show ?thesis by (simp add: set_proxy_def)
qed

theorem proxy_address_parsed_witness:
  "get_proxy True (''http://'' @ ''Proxy.example'' @ '':'' @ show_nat 65616) None 0 =
     (True, Some (map tolower ''Proxy.example''), of_nat 65616) \<and>
   c_proxy_port (set_proxy (map tolower ''Proxy.example'') (ucast (of_nat 65616 :: 32 word)) sample_conn) = of_nat 65616"
  by (rule proxy_address_parsed) simp_all

definition sample_args :: "string list" where
  "sample_args = [''-A'', ''ca.pem'', ''-R'', ''1'', ''-V'', ''2'', ''--mrsigner=00'', ''-S'', ''spid'', ''-z'']"

lemma sample_getopt:
  "getopt_long (short_spec sp_shorts) sp_longs sample_args =
     ([(CHR ''A'', Some ''ca.pem''), (CHR ''R'', Some ''1''), (CHR ''V'', Some ''2''), (CHR ''N'', Some ''00''),
       (CHR ''S'', Some ''spid''), (CHR ''z'', None)], [])"
  by code_simp

lemma sample_numbers: "number_option ''1'' = Some 1" "number_option ''2'' = Some 2"
proof -
  have "strto 10 ''1'' = (Some (False, 1), [])" "strto 10 ''2'' = (Some (False, 2), [])" by code_simp+
  then show "number_option ''1'' = Some 1" "number_option ''2'' = Some 2"
    by (simp_all add: number_option_def strtoul_def word_le_nat_alt)
qed

lemma sample_env_simps:
  "oe_lib (sample_env fs) = sample_lib (\<lambda>_. 1)" "oe_files (sample_env fs) = map_of fs" "oe_strdup (sample_env fs)"
  "oe_malloc (sample_env fs)" "oe_junk (sample_env fs) = (\<lambda>_. 0)" "oe_after (sample_env fs) = []"
  "oe_heap (sample_env fs) = []"
  by (simp_all add: sample_env_def)

lemma sample_start:
  "\<exists>cfg st. sp_start (sample_env [(''ca.pem'', ''cert''), (''spid'', replicate 32 CHR ''0'')]) ([], []) (\<lambda>_. None) True
     (sample_world [] [] []) sample_args = Inr (cfg, st)"
proof -
  define V where "V = sample_env [(''ca.pem'', ''cert''), (''spid'', replicate 32 CHR ''0'')]"
  have z: "replicate 32 CHR ''0'' = print_hexstring (replicate 16 0)" "''00'' = print_hexstring [0]" by code_simp+
  have h: "hex_option V ''00'' 32 = (True, [0] @ map (\<lambda>_. 0) [1..<32])"
    unfolding z using hex_option_short [of "[0]" 32 V] by (simp add: sample_env_simps V_def)
  have "oe_files V ''spid'' = Some (print_hexstring (replicate 16 0))" by (simp add: V_def sample_env_simps z(1))
  then have f: "from_hexstring_file (\<lambda>_. 0) True [] (oe_files V) ''spid'' 16 = (True, replicate 16 0)"
    using hexc.dec_enc [of "\<lambda>_. 0" "replicate 16 0" "[]"]
    by (simp add: from_hexstring_file_def hexc.enc_length)
  have a: "oe_files V ''ca.pem'' = Some ''cert''" by (simp add: V_def sample_env_simps)
  have e: "oe_lib V = sample_lib (\<lambda>_. 1)" "oe_strdup V" "oe_malloc V" "oe_junk V = (\<lambda>_. 0)" "oe_heap V = []"
    by (simp_all add: V_def sample_env_simps)
  show ?thesis
    unfolding V_def [symmetric]
    by (simp add: sp_start_def sample_getopt opt_step_def opt_step_lower_def e f h a sample_numbers cert_load_file_def cert_init_ca_def
        crypto_simps sample_lib_simps port_argument_def fill_defaults_def key_private_from_bytes_def required_given_def
        make_connection_def update_cfg_def default_opts_def)
qed


end
