(* ===== verification/Trust_Chain.thy ===== *)
theory Trust_Chain
  imports Sp_Types Sp_Options
begin

text \<open>
  What a verdict of trust rests on, from the options of the service provider to the answer of
  the attestation service: the parts of \<open>service-provider/sp.cpp\<close> and \<open>iasrequest.cpp\<close> put
  together over all reachable states of the server.
\<close>

section \<open>Inside a session\<close>

text \<open>
  The state in which \<open>process_msg3\<close> is called in a session that begins in \<open>st\<close>: message 2 and
  the revocation list were sent; what the peer and its socket do next (\<open>rs\<close>, \<open>ss\<close>) is open.
\<close>

definition within_session :: "sp_env \<Rightarrow> config \<Rightarrow> sp_state \<Rightarrow> msg1 \<Rightarrow> ra_session \<Rightarrow> sp_state \<Rightarrow> bool" where
  "within_session E cfg st m1 ses st' \<longleftrightarrow>
     (\<exists>m2 rl st1 io w io' w' rs ss. process_msg01 E cfg zero_session st = (Done (Some (m1, m2, rl, ses)), st1) \<and>
        send_partial (msg2_bytes m2) (s_io st1) (s_world st1) = (io, w) \<and>
        send (take (unat (m2_sig_rl_size m2)) rl) io w = (io', w') \<and>
        st' = st1\<lparr>s_io := io', s_world := w'\<lparr>recvs := rs, sends := ss\<rparr>\<rparr>)"

lemma within_session_stable: "within_session E cfg st m1 ses st' \<Longrightarrow> stable (s_ias st) (s_ias st')"
  unfolding within_session_def by (auto dest!: kept_msg01 simp: kept_def)

text \<open>The session run by \<open>run_session\<close> goes through such a state.\<close>

lemma run_session_within:
  assumes "process_msg01 E cfg zero_session st = (Done (Some (m1, m2, rl, ses)), st1)"
    and "unat (m2_sig_rl_size m2) \<le> length rl"
  shows "\<exists>st'. within_session E cfg st m1 ses st' \<and> run_session E cfg st =
    (case process_msg3 E cfg m1 ses st' of (r, st'') \<Rightarrow> (case r of Done _ \<Rightarrow> Done () | Undefined \<Rightarrow> Undefined
        | Throws e \<Rightarrow> Throws e | Waits \<Rightarrow> Waits, st''))"
proof -
  obtain io w where a: "send_partial (msg2_bytes m2) (s_io st1) (s_world st1) = (io, w)" by (rule prod.exhaust)
  obtain io' w' where b: "send (take (unat (m2_sig_rl_size m2)) rl) io w = (io', w')" by (rule prod.exhaust)
  let ?st = "st1\<lparr>s_io := io', s_world := w'\<rparr>"
  have "?st = st1\<lparr>s_io := io', s_world := w'\<lparr>recvs := recvs w', sends := sends w'\<rparr>\<rparr>" by simp
  then have "within_session E cfg st m1 ses ?st" unfolding within_session_def using assms(1) a b by blast
  moreover obtain r st2 where "process_msg3 E cfg m1 ses ?st = (r, st2)" by (rule prod.exhaust)
  ultimately show ?thesis
    using assms a b by (intro exI [of _ ?st]) (cases r; simp add: run_session_def)
qed

lemma stable_anchor: "stable c c' \<Longrightarrow> c_store c' = c_store c \<and> base_url c' = base_url c"
proof -
  let ?d = "\<lambda>c. c\<lparr>c_agent := No_agent, currentKeyID := Primary\<rparr>"
  assume "stable c c'"
  then have "?d c' = ?d c" by (simp only: stable_def)
  then have "c_store (?d c') = c_store (?d c)" "base_url (?d c') = base_url (?d c)" by (simp_all only:)
  then show ?thesis by (simp add: base_url_frame)
qed

lemma new_agent_ctor: "fst (new_agent ctor c) = Some r \<Longrightarrow> ctor = Some r"
  by (auto simp: new_agent_def split: if_splits option.splits)

section \<open>What trust rests on\<close>


text \<open>A peer that sends message 1 and then message 3 to the sample server is trusted.\<close>

lemma sample_typed: "lib_typed (e_lib sample_sp)" "length (spid sample_cfg) = 16"
  by (simp_all add: lib_typed_def sample_sp_simps sample_lib_def sample_cfg_def)

lemma answered_msg1:
  "answer_msg01 E cfg ses b ias s = (Done (Some (m1, m2, rl, ses')), ias', s') \<Longrightarrow>
   m1_g_a m1 = field b 4 64 \<and> m1_gid m1 = field b 68 4"
  by (auto simp: answer_msg01_def Let_def split: if_splits option.splits prod.splits bool.splits)

lemma stable_agent_name: "stable c c' \<Longrightarrow> c_agent_name c' = c_agent_name c"
proof -
  let ?d = "\<lambda>c. c\<lparr>c_agent := No_agent, currentKeyID := Primary\<rparr>"
  assume "stable c c'"
  then have "?d c' = ?d c" by (simp only: stable_def)
  then have "c_agent_name (?d c') = c_agent_name (?d c)" by (simp only:)
  then show ?thesis by simp
qed

lemma sample_session:
  "\<exists>st m1 ses st1 m4 ses' st2. reachable sample_sp sample_cfg sample_state (Connected, st) \<and>
     within_session sample_sp sample_cfg st m1 ses st1 \<and>
     process_msg3 sample_sp sample_cfg m1 ses st1 = (Done (Some (m4, ses')), st2) \<and> m4_status m4 = Trusted"
proof -
  let ?f = "\<lambda>m. [Rcv_data (print_hexstring m @ [LF])]"
  have l: "server_loop 9 (s_io sample_state) (s_world sample_state) =
      (True, (s_io sample_state)\<lparr>sock := 9\<rparr>, s_world sample_state)"
    by (simp add: server_loop_def sample_state_def sample_io_def)
  define st where "st = sample_state\<lparr>s_io := (s_io sample_state)\<lparr>sock := 9\<rparr>,
    s_world := (s_world sample_state)\<lparr>recvs := ?f sample_msg01, sends := []\<rparr>\<rparr>"
  have r: "reachable sample_sp sample_cfg sample_state (Connected, st)"
    unfolding st_def by (rule reachable.step [OF reachable.start server_step.accept [OF l]])
  have arrives: "socket_arrives (print_hexstring sample_msg01 @ [LF]) (s_io st) (s_world st)"
    by (simp add: socket_arrives_def st_def sample_state_def sample_io_def sample_world_def live_def)
  have "sample_msg01 \<noteq> []" by (simp add: sample_msg01_def)
  from read_socket [OF arrives this] obtain evs where rd: "read (\<lambda>_. 0) (s_io st) (s_world st) =
      (Returned 1 (Some sample_msg01) (Some (2 * length sample_msg01)), s_io st, (s_world st)\<lparr>recvs := evs\<rparr>)" by blast
  obtain m1 m2 rl ses ias s where a: "answer_msg01 sample_sp sample_cfg zero_session sample_msg01 sample_conn crypto_init =
      (Done (Some (m1, m2, rl, ses)), ias, s)" using sample_answered by blast
  define st1 where "st1 = st\<lparr>s_world := (s_world st)\<lparr>recvs := evs\<rparr>, s_ias := ias, s_crypto := s\<rparr>"
  have p: "process_msg01 sample_sp sample_cfg zero_session st = (Done (Some (m1, m2, rl, ses)), st1)"
    using rd a by (simp add: process_msg01_def sample_sp_simps st_def sample_state_def st1_def Let_def)
  have t: "session_typed ses" and m1: "m1_g_a m1 = replicate 64 5" "m1_gid m1 = [0, 0, 0, 0]"
    using answer_msg01_typed [OF sample_typed zero_session_typed a] answered_msg1 [OF a]
    by (simp_all add: sample_msg01_def field_def)
  have ready: "socket_ready (s_io st1) (s_world st1)"
    by (simp add: socket_ready_def st1_def st_def sample_state_def sample_io_def sample_world_def)
  from send_message_socket [OF this, of "[msg2_bytes m2]" "take (unat (m2_sig_rl_size m2)) rl"]
  obtain t' evs' where sent: "send_message [msg2_bytes m2] (take (unat (m2_sig_rl_size m2)) rl) (s_io st1) (s_world st1) =
      (s_io st1, (put_wire t' (s_world st1))\<lparr>sends := evs'\<rparr>)" by blast
  obtain io w where sp: "send_partial (msg2_bytes m2) (s_io st1) (s_world st1) = (io, w)" by (rule prod.exhaust)
  define st2 where "st2 = st1\<lparr>s_io := s_io st1, s_world := ((put_wire t' (s_world st1))\<lparr>sends := evs'\<rparr>)\<lparr>recvs := ?f sample_msg3, sends := []\<rparr>\<rparr>"
  have ins: "within_session sample_sp sample_cfg st m1 ses st2"
    unfolding within_session_def st2_def using p sp sent by (fastforce simp: send_message_def)
  have "socket_arrives (print_hexstring sample_msg3 @ [LF]) (s_io st2) (s_world st2)"
    by (simp add: socket_arrives_def st2_def st1_def st_def sample_state_def sample_io_def sample_world_def live_def put_wire_def)
  moreover have "sample_msg3 \<noteq> []" by (simp add: sample_msg3_def)
  ultimately obtain evs3 where rd3: "read (e_junk sample_sp) (s_io st2) (s_world st2) =
      (Returned 1 (Some sample_msg3) (Some (2 * length sample_msg3)), s_io st2, (s_world st2)\<lparr>recvs := evs3\<rparr>)"
    using read_socket by blast
  have g: "msg3_genuine sample_sp sample_cfg ses m1 sample_msg3 5"
    using t m1 by (simp add: msg3_genuine_def sample_sp_def sample_lib_def sample_msg3_def session_typed_def field_def)
  have "stable sample_conn ias" by (rule stable_answer_msg01 [OF a])
  then have "c_agent_name ias = []" using stable_agent_name sample_conn_simps(2) by metis
  from sample_attestation_any [OF this]
  have att: "\<forall>s. \<exists>s'. get_attestation_report sample_sp (verbose sample_cfg) (apiver sample_cfg) ''AAAAA''
      (strict_trust sample_cfg) (s_ias st2) s =
     (Done (Some \<lparr>m4_status = Trusted, m4_pib = replicate 101 0, m4_ciphertext = replicate 16 0\<rparr>),
      ias\<lparr>c_agent := Deleted_agent\<rparr>, s')"
    by (simp add: sample_cfg_def st2_def st1_def)
  obtain m4 ses' st3 where "process_msg3 sample_sp sample_cfg m1 ses st2 = (Done (Some (m4, ses')), st3)" "m4_status m4 = Trusted"
    using process_msg3_complete [OF sample_ret g sample_sizes sample_base64 att rd3] by (auto simp: sample_identity)
  with r ins show ?thesis by blast
qed


text \<open>The same from the options: the store is the one made of the signing certificate that was given.\<close>

lemma trust_rests_on_options:
  assumes "\<forall>n. ret (e_lib E) n = 1" and "sp_start V pads resolve listens w args = Inr (cfg, st0)"
    and "reachable E cfg st0 (Connected, st)" and "within_session E cfg st m1 ses st1"
    and "process_msg3 E cfg m1 ses st1 = (Done (Some (m4, ses')), st2)"
    and "m4_status m4 = Trusted \<or> m4_status m4 = Trusted_ItsComplicated"
  shows "\<exists>ca. store cfg = Some ca \<and> c_store (s_ias st1) = Some ca \<and>
    (\<exists>certs sig answer. chain_valid (e_lib E) ca certs \<and> rsa_verifies (e_lib E) (to_bytes answer) sig (hd certs))"
proof -
  obtain ca where ca: "store cfg = Some ca" "c_store (s_ias st0) = Some ca"
    using sp_start_configured [OF assms(2)] by auto
  have "stable (s_ias st0) (s_ias st1)"
    using reachable_kept [OF assms(3)] within_session_stable [OF assms(4)] by (auto simp: kept_def intro: stable_trans)
  then have c: "c_store (s_ias st1) = Some ca" using stable_anchor ca by auto
  obtain b64 s1 s2 ias' answer messages where
    "report (e_lib E) (e_bio E) (e_allocs_report E) (e_agent E) (ucast (apiver cfg))
       [(''isvEnclaveQuote'', b64)] [] [] (s_ias st1) s1 = (IAS_OK, answer, messages, ias', s2)"
    using trusted_verified [OF assms(1,5,6)] by blast
  from report_verified [OF this] show ?thesis using ca(1) c by auto
qed

end
