(* ===== verification/Sp_Process.thy ===== *)
theory Sp_Process
  imports Trust_Chain
begin

text \<open>
  The process of the service provider around its loop: the signals for which \<open>main\<close> installs the
  handler \<open>cleanup_and_exit\<close>, which may come at any time, the end of the loop, and the text that is
  shown when the attestation service does not answer with a report.
\<close>

section \<open>Answers without a report\<close>

definition IAS_BADREQUEST :: "32 word" where "IAS_BADREQUEST = 400"
definition IAS_SERVER_ERR :: "32 word" where "IAS_SERVER_ERR = 500"
definition IAS_UNAVAILABLE :: "32 word" where "IAS_UNAVAILABLE = 503"

definition query_failure_text :: "32 word \<Rightarrow> string" where
  "query_failure_text rc =
     (if rc = IAS_QUERY_FAILED then ''Could not query IAS''
      else if rc = IAS_BADREQUEST then ''Invalid payload''
      else if rc = IAS_UNAUTHORIZED then ''Failed to authenticate or authorize request''
      else if rc = IAS_SERVER_ERR then ''An internal error occurred on the IAS server''
      else if rc = IAS_UNAVAILABLE then ''Service is currently not able to process the request. Try again later.''
      else if rc = IAS_INTERNAL_ERROR then ''An internal error occurred while processing the IAS response''
      else if rc = IAS_BAD_CERTIFICATE then ''The signing certificate could not be validated''
      else if rc = IAS_BAD_SIGNATURE then ''The report signature could not be validated''
      else if 100 \<le> rc \<and> rc < 600 then ''Unexpected HTTP response code''
      else ''An unknown error occurred.'') @ [LF]"

section \<open>Signals\<close>

datatype signal = SIGHUP | SIGINT | SIGTERM | SIGQUIT | Other_signal nat

text \<open>Each call of \<open>sigaction\<close> may fail, which is only reported; \<open>ok\<close> says which succeed.\<close>

definition install_handlers :: "(signal \<Rightarrow> bool) \<Rightarrow> signal list" where
  "install_handlers ok = filter ok [SIGHUP, SIGINT, SIGTERM, SIGQUIT]"

datatype process = Serving phase sp_state | Exited stop world

text \<open>
  The loop goes on, it ends when \<open>accept\<close> fails, or a signal interrupts: while the loop waits for a
  client, or amid a session, which opens and closes no socket.
\<close>

inductive process_step :: "sp_env \<Rightarrow> config \<Rightarrow> signal list \<Rightarrow> process \<Rightarrow> process \<Rightarrow> bool" for E cfg hs where
  loop: "server_step E cfg (ph, st) (ph', st') \<Longrightarrow> process_step E cfg hs (Serving ph st) (Serving ph' st')"
| return: "process_step E cfg hs (Serving Finished st) (Exited (Return 0) (s_world st))"
| signal: "sig \<in> set hs \<Longrightarrow> ph \<noteq> Finished \<Longrightarrow> same_fds (s_io st) (s_world st) (s_io st') (s_world st') \<Longrightarrow> cleanup_and_exit st' = (r, w) \<Longrightarrow>
    process_step E cfg hs (Serving ph st) (Exited r w)"

text \<open>A session that waits for message 3 is such a state.\<close>

lemma within_session_fds:
  assumes "within_session E cfg st m1 ses st'"
  shows "same_fds (s_io st) (s_world st) (s_io st') (s_world st')"
proof -
  have "process_msg01 E cfg ses st = (r, st1) \<Longrightarrow> same_fds (s_io st) (s_world st) (s_io st1) (s_world st1)" for ses r st1
    by (auto simp: process_msg01_def Let_def dest!: same_fds_read split: prod.splits read_result.splits if_splits option.splits)
  with assms show ?thesis unfolding within_session_def
    by (fastforce dest!: same_fds_send simp: same_fds_def)
qed

inductive_cases process_servingE: "process_step E cfg hs (Serving ph st) p"
inductive_cases process_exitedE: "process_step E cfg hs (Exited r w) p"

section \<open>How the process ends\<close>

text \<open>While the process runs it is in a reachable state of the loop.\<close>

lemma process_serving:
  "(process_step E cfg hs)\<^sup>*\<^sup>* (Serving Listening st0) (Serving ph st) \<Longrightarrow> reachable E cfg st0 (ph, st)"
proof -
  have "reachable E cfg st0 (ph, st)" if "(process_step E cfg hs)\<^sup>*\<^sup>* (Serving Listening st0) p" "p = Serving ph st" for p ph st
    using that
  proof (induction arbitrary: ph st rule: rtranclp_induct)
    case base
    then show ?case using reachable.start by simp
  next
    case (step p q)
    from step.hyps(2) step.prems show ?case
      by cases (use step.IH reachable.step in auto)
  qed
  then show "(process_step E cfg hs)\<^sup>*\<^sup>* (Serving Listening st0) (Serving ph st) \<Longrightarrow> ?thesis" by blast
qed

lemma finished_closed:
  "reachable E cfg st0 (ph, st) \<Longrightarrow> ph = Finished \<Longrightarrow> \<not> use_stdio (s_io st0) \<Longrightarrow> lsock (s_io st0) \<in> set (closed (s_world st))"
proof (erule reachable.cases)
  fix p q
  assume r: "reachable E cfg st0 p" and p: "server_step E cfg p q" "(ph, st) = q" "ph = Finished" "\<not> use_stdio (s_io st0)"
  obtain ph0 s0 where s0: "p = (ph0, s0)" by (rule prod.exhaust)
  have "kept st0 s0" using reachable_kept [OF r] s0 by simp
  then show ?thesis using p s0
    by (auto simp: kept_def same_io_def server_loop_def close_fd_def elim!: server_step.cases split: if_splits)
qed simp

text \<open>
  Whatever happens, by a signal or when \<open>accept\<close> fails, the process that ends has closed its
  listening socket; the exit code tells which of the two it was.
\<close>

lemma listener_closed_at_exit:
  assumes "(process_step E cfg hs)\<^sup>*\<^sup>* (Serving Listening st0) (Exited r w)"
    and "\<not> use_stdio (s_io st0)" "lsock (s_io st0) \<noteq> -1"
  shows "lsock (s_io st0) \<in> set (closed w) \<and> (r = Return 0 \<or> r = Return 1 \<and> hs \<noteq> [])"
proof -
  obtain p where p: "(process_step E cfg hs)\<^sup>*\<^sup>* (Serving Listening st0) p" "process_step E cfg hs p (Exited r w)"
    using assms(1) by (cases rule: rtranclp.cases) auto
  obtain ph st where s: "p = Serving ph st" using p(2) by (cases p) (auto elim: process_exitedE)
  have re: "reachable E cfg st0 (ph, st)" using process_serving p(1) s by simp
  have "lsock (s_io st) = lsock (s_io st0)" using reachable_kept [OF re] by (simp add: kept_def same_io_def)
  with p(2) show ?thesis using finished_closed [OF re] assms(2,3) unfolding s
    by (auto simp: cleanup_and_exit_def msgio_destroy_def close_fd_def same_fds_def Let_def elim!: process_servingE)
qed

text \<open>
  A signal that comes when a session has ended makes the destructor close the descriptor of that
  session again, as \<open>disconnect\<close> does not forget it.
\<close>

lemma session_closed_twice:
  assumes "\<not> use_stdio (s_io st)" "sock (s_io st) \<noteq> -1" "disconnect (s_io st) (s_world st) = (io, w)"
    and "cleanup_and_exit (st\<lparr>s_io := io, s_world := w\<rparr>) = (r, w')"
  shows "\<exists>rest. closed w' = closed (s_world st) @ [sock (s_io st), sock (s_io st)] @ rest"
  using assms by (auto simp: disconnect_def cleanup_and_exit_def msgio_destroy_def close_fd_def Let_def split: if_splits)

end
