(* ===== verification/Enclave.thy ===== *)
theory Enclave
  imports Sp_Attest Msgio
begin

text \<open>
  The model of the enclave (\<open>Enclave/Enclave.c\<close>, with its interface \<open>Enclave/Enclave.edl\<close> and the
  key of \<open>Enclave/Pubkey.h\<close>).

  The trusted libraries of the SGX SDK are the record \<open>sdk\<close>: what each call returns after the
  calls made so far, the list of which is the state. Status words are those of the SDK, zero is
  success. Strings are read up to their NUL: what lies behind the key, the decrypted block and
  the copied cipher text in the memory of the enclave is a parameter too. What the enclave prints
  leaves it through the OCALL, so it is part of each result.
\<close>

datatype ra_key_type = SGX_RA_KEY_SK | SGX_RA_KEY_MK | SGX_RA_KEY_VK

datatype tcall =
  Create_report bytes
| Ra_init bytes "32 word"
| Ra_get_keys "32 word" ra_key_type
| Ra_close "32 word"

record sdk =
  k_bufsiz :: nat
  k_report :: "tcall list \<Rightarrow> bytes \<Rightarrow> 32 word \<times> bytes"
  k_init :: "tcall list \<Rightarrow> bytes \<Rightarrow> 32 word \<times> 32 word"
  k_keys :: "tcall list \<Rightarrow> 32 word \<Rightarrow> ra_key_type \<Rightarrow> 32 word \<times> bytes"
  k_close :: "tcall list \<Rightarrow> 32 word \<Rightarrow> 32 word"
  k_sha :: "bytes \<Rightarrow> 32 word \<times> bytes"
  k_aes_decrypt :: "bytes \<Rightarrow> bytes \<Rightarrow> bytes"
  k_after_key :: string
  k_after_plain :: string
  k_heap :: "nat \<Rightarrow> byte"

definition SGX_SUCCESS :: "32 word" where "SGX_SUCCESS = 0"

section \<open>The operations\<close>

text \<open>The formatted text is cut to the buffer, and the OCALL copies it up to its NUL.\<close>

definition printf :: "sdk \<Rightarrow> string \<Rightarrow> string" where
  "printf S text = cstr (take (k_bufsiz S - 1) text)"

definition addition :: "32 word \<Rightarrow> 32 word \<Rightarrow> 32 word" where
  "addition a b = a + b"

text \<open>The same function in \<open>Enclave.cpp\<close>, where everything else is commented out.\<close>

definition addition_cpp :: "32 word \<Rightarrow> 32 word \<Rightarrow> 32 word" where
  "addition_cpp a b = a + b"

lemma addition_variants: "addition_cpp = addition"
  by (simp add: fun_eq_iff addition_def addition_cpp_def)

definition get_report :: "sdk \<Rightarrow> bytes \<Rightarrow> tcall list \<Rightarrow> (32 word \<times> bytes) \<times> tcall list" where
  "get_report S target_info tr = (k_report S tr target_info, tr @ [Create_report target_info])"

definition def_service_public_key :: bytes where
  "def_service_public_key =
    [0x12, 0x97, 0x4a, 0x11, 0xf9, 0xbf, 0xd1, 0xb0, 0xaf, 0xe5, 0x22, 0x7e, 0x99, 0x63, 0xd6, 0xa0,
     0xc1, 0x1f, 0x75, 0x72, 0x7e, 0xe1, 0x63, 0x4f, 0x58, 0x29, 0x4c, 0xf9, 0xbc, 0x53, 0xdb, 0x2e,
     0xac, 0x06, 0x1f, 0xf3, 0xda, 0xfb, 0x63, 0x11, 0xda, 0x95, 0xfb, 0x00, 0x66, 0x5c, 0x4f, 0x0b,
     0xe1, 0x4d, 0xba, 0x30, 0x03, 0x66, 0xca, 0x02, 0xbd, 0x13, 0xcc, 0x64, 0x58, 0xbe, 0x88, 0x03]"

text \<open>On Linux \<open>b_pse\<close> and \<open>pse_status\<close> are not used. The result is the status and the context.\<close>

definition enclave_ra_init ::
    "sdk \<Rightarrow> bytes \<Rightarrow> 32 word \<Rightarrow> tcall list \<Rightarrow> (32 word \<times> 32 word) \<times> tcall list" where
  "enclave_ra_init S key b_pse tr = (k_init S tr key, tr @ [Ra_init key 0])"

definition enclave_ra_init_def ::
    "sdk \<Rightarrow> 32 word \<Rightarrow> tcall list \<Rightarrow> (32 word \<times> 32 word) \<times> tcall list" where
  "enclave_ra_init_def S b_pse tr = enclave_ra_init S def_service_public_key b_pse tr"

definition enclave_ra_close :: "sdk \<Rightarrow> 32 word \<Rightarrow> tcall list \<Rightarrow> 32 word \<times> tcall list" where
  "enclave_ra_close S ctx tr = (k_close S tr ctx, tr @ [Ra_close ctx])"

text \<open>
  A parameter \<open>[in, string]\<close>: the bytes up to the first NUL are copied, with the NUL. What is read
  behind them is the heap of the enclave.
\<close>

definition string_in :: "bytes \<Rightarrow> bytes" where
  "string_in mem = takeWhile (\<lambda>b. b \<noteq> 0) mem @ [0]"

definition mem_at :: "sdk \<Rightarrow> bytes \<Rightarrow> nat \<Rightarrow> byte" where
  "mem_at S p i = (if i < length p then p ! i else k_heap S i)"

text \<open>
  The key hash: its return value, the status of \<open>sgx_ra_get_keys\<close> and the hash, which stays
  unset on failure; and the texts printed.
\<close>

definition enclave_ra_get_key_hash ::
    "sdk \<Rightarrow> 32 word \<Rightarrow> ra_key_type \<Rightarrow> bytes \<Rightarrow> tcall list
      \<Rightarrow> (32 word \<times> 32 word \<times> bytes option) \<times> string list \<times> tcall list" where
  "enclave_ra_get_key_hash S ctx type ciphertext tr =
     (let (st, k) = k_keys S tr ctx type; tr = tr @ [Ra_get_keys ctx type] in
      if st \<noteq> SGX_SUCCESS then ((st, st, None), [], tr)
      else
        let block = map (mem_at S ciphertext) [0..<16];
            dump = [printf S ''Ciphertext: ''] @ map (\<lambda>b. printf S (printf_02x b)) block @ [printf S [LF]];
            plain = k_aes_decrypt S k block;
            leak = (if type = SGX_RA_KEY_SK
                    then [printf S (''SK         = '' @ cstr (of_bytes k @ k_after_key S) @ [LF]),
                          printf S (''Decrypted Text: '' @ cstr (of_bytes plain @ k_after_plain S) @ [LF])]
                    else []);
            (sha_ret, hash) = k_sha S k
        in ((sha_ret, SGX_SUCCESS, Some hash), dump @ leak, tr))"

section \<open>Lemmas\<close>

lemma char_of_byte_nul: "char_of (unat (b :: byte)) = NUL \<longleftrightarrow> b = 0"
proof
  assume "char_of (unat b) = NUL"
  then have "(of_char (char_of (unat b)) :: nat) = of_char NUL" by simp
  then have "unat b mod 256 = 0" by simp
  moreover have "unat b < 256" using unat_byte_less by simp
  ultimately show "b = 0" by (simp add: unat_eq_0)
qed (simp add: char_of_def)

lemma nul_of_bytes: "NUL \<in> set (of_bytes k) \<longleftrightarrow> 0 \<in> set k"
proof -
  have "NUL \<in> set (of_bytes k) \<longleftrightarrow> (\<exists>b \<in> set k. char_of (unat b) = NUL)"
    by (auto simp: of_bytes_def intro: sym)
  then show ?thesis by (simp only: char_of_byte_nul) simp
qed

lemma length_of_bytes [simp]: "length (of_bytes k) = length k"
  by (simp add: of_bytes_def)

lemma cstr_append: "NUL \<notin> set s \<Longrightarrow> cstr (s @ t) = s @ cstr t"
  by (induction s) (auto simp: cstr_def)

lemma printf_prefix:
  assumes "NUL \<notin> set p" and "length p < k_bufsiz S"
  shows "\<exists>rest. printf S (p @ t) = p @ rest"
  using assms cstr_append [OF assms(1)] by (simp add: printf_def)

text \<open>A label and bytes without a zero are printed whole, with whatever comes behind them.\<close>

lemma printf_bytes:
  assumes "NUL \<notin> set label" and "0 \<notin> set k" and "length label + length k < k_bufsiz S"
  shows "\<exists>rest. printf S (label @ cstr (of_bytes k @ t) @ [LF]) = label @ of_bytes k @ rest"
proof -
  have k: "NUL \<notin> set (of_bytes k)" using assms(2) by (simp add: nul_of_bytes)
  obtain rest where "printf S ((label @ of_bytes k) @ cstr t @ [LF]) = (label @ of_bytes k) @ rest"
    using printf_prefix [of "label @ of_bytes k" S] assms k by auto
  then show ?thesis using cstr_append [OF k] by simp
qed

lemma takeWhile_cut:
  "takeWhile P (c @ r) = (if length (takeWhile P c) = length c then c @ takeWhile P r else takeWhile P c)"
  by (induction c) auto

lemma read_block: "map (mem_at S p) [0..<n] = take n p @ map (k_heap S) [length p..<n]"
  by (rule nth_equalityI) (auto simp: mem_at_def nth_append min_def)

text \<open>The plain text is printed when the cipher text survives its passage as a string.\<close>

lemma plain_text_printed:
  assumes "k_keys S tr ctx SGX_RA_KEY_SK = (SGX_SUCCESS, k)"
    and "length c = 16" and "0 \<notin> set c" and "0 \<notin> set (k_aes_decrypt S k c)"
    and "16 + length (k_aes_decrypt S k c) < k_bufsiz S"
  shows "\<exists>res outs rest. enclave_ra_get_key_hash S ctx SGX_RA_KEY_SK (string_in (c @ t)) tr =
     (res, outs, tr @ [Ra_get_keys ctx SGX_RA_KEY_SK]) \<and>
     ''Decrypted Text: '' @ of_bytes (k_aes_decrypt S k c) @ rest \<in> set outs"
proof -
  have "takeWhile (\<lambda>b. b \<noteq> 0) c = c" using assms(3) by (simp add: takeWhile_eq_all_conv) metis
  then have block: "map (mem_at S (string_in (c @ t))) [0..<16] = c"
    using assms(2) takeWhile_cut [of "\<lambda>b. b \<noteq> 0" c t] by (simp add: string_in_def read_block)
  obtain rest where "printf S (''Decrypted Text: '' @ cstr (of_bytes (k_aes_decrypt S k c) @ k_after_plain S) @ [LF]) =
      ''Decrypted Text: '' @ of_bytes (k_aes_decrypt S k c) @ rest"
    using printf_bytes [of "''Decrypted Text: ''" "k_aes_decrypt S k c" S] assms(4,5) by auto
  then show ?thesis
    unfolding enclave_ra_get_key_hash_def assms(1) Let_def prod.case block by (auto split: prod.split)
qed

text \<open>A concrete trusted library: it accepts everything, and encryption is reversal.\<close>

definition sample_sdk :: sdk where
  "sample_sdk = \<lparr>k_bufsiz = 8192, k_report = (\<lambda>_ t. (0, t)), k_init = (\<lambda>_ _. (0, 7)),
     k_keys = (\<lambda>_ _ _. (SGX_SUCCESS, replicate 16 65)), k_close = (\<lambda>_ _. 0), k_sha = (\<lambda>b. (0, replicate 32 9)),
     k_aes_decrypt = (\<lambda>_. rev), k_after_key = [NUL], k_after_plain = [NUL], k_heap = (\<lambda>_. 0)\<rparr>"

text \<open>
  C38. The ECALL that is to give out a hash of the session key prints the key itself: for a key
  without a zero byte the text that leaves the enclave holds all its bytes.
\<close>

theorem session_key_leaves_enclave:
  assumes "k_keys S tr ctx SGX_RA_KEY_SK = (SGX_SUCCESS, k)" and "0 \<notin> set k"
    and "length k + 13 < k_bufsiz S"
  shows "\<exists>res outs tr' rest. enclave_ra_get_key_hash S ctx SGX_RA_KEY_SK ct tr = (res, outs, tr') \<and>
    ''SK         = '' @ of_bytes k @ rest \<in> set outs"
proof -
  obtain rest where "printf S (''SK         = '' @ cstr (of_bytes k @ k_after_key S) @ [LF]) =
      ''SK         = '' @ of_bytes k @ rest"
    using printf_bytes [of "''SK         = ''" k S] assms(2,3) by auto
  then show ?thesis by (auto simp: enclave_ra_get_key_hash_def assms(1) Let_def split: prod.split)
qed

theorem session_key_leaves_enclave_witness:
  "\<exists>res outs tr' rest. enclave_ra_get_key_hash sample_sdk 7 SGX_RA_KEY_SK [1, 0] [] = (res, outs, tr') \<and>
     ''SK         = '' @ of_bytes (replicate 16 65) @ rest \<in> set outs"
  by (rule session_key_leaves_enclave) (simp_all add: sample_sdk_def)

text \<open>
  The cipher text is passed as a string: the block that is decrypted is the cipher text up
  to its first zero byte, and the heap of the enclave behind it.
\<close>

theorem ciphertext_cut_at_zero:
  assumes "length c = 16"
  defines "n \<equiv> length (takeWhile (\<lambda>b. b \<noteq> 0) c)"
  shows "map (mem_at S (string_in (c @ rest))) [0..<16] = take (Suc n) c @ map (k_heap S) [Suc n..<16]"
proof (cases "n < 16")
  case True
  let ?t = "takeWhile (\<lambda>b. b \<noteq> 0) c"
  have "c ! n = 0" using nth_length_takeWhile [of "\<lambda>b. b \<noteq> 0" c] True assms(1) by (simp add: n_def)
  then have "take (Suc n) c = ?t @ [0]"
    using True assms(1) takeWhile_eq_take [of "\<lambda>b. b \<noteq> 0" c] by (simp add: take_Suc_conv_app_nth n_def)
  moreover have "takeWhile (\<lambda>b. b \<noteq> 0) (c @ rest) = ?t" 
    using True assms(1) takeWhile_cut [of "\<lambda>b. b \<noteq> 0" c rest] by (simp add: n_def)
  ultimately have "string_in (c @ rest) = take (Suc n) c" by (simp add: string_in_def)
  then show ?thesis using True assms(1) by (simp add: read_block)
next
  case False
  then have "length (takeWhile (\<lambda>b. b \<noteq> 0) c) = length c"
    using length_takeWhile_le [of "\<lambda>b. b \<noteq> 0" c] assms(1) by (simp add: n_def)
  then have "string_in (c @ rest) = c @ takeWhile (\<lambda>b. b \<noteq> 0) rest @ [0]"
    using takeWhile_cut [of "\<lambda>b. b \<noteq> 0" c rest] by (simp add: string_in_def)
  then show ?thesis using False assms(1) by (simp add: read_block)
qed

theorem ciphertext_cut_at_zero_witness:
  "map (mem_at sample_sdk (string_in ([1, 0, 2] @ replicate 13 3 @ [4]))) [0..<16] =
     [1, 0] @ map (k_heap sample_sdk) [2..<16]"
  using ciphertext_cut_at_zero [of "[1, 0, 2] @ replicate 13 3" sample_sdk "[4]"] by (simp add: numeral_2_eq_2)

end
