(* ===== verification/Client.thy ===== *)
theory Client
  imports Enclave
begin

text \<open>
  The model of \<open>do_attestation\<close> of the client (\<open>App/App.cpp\<close>): the messages of the protocol in
  order, the ECALLs made on the way, and the verdict shown to the user.

  The surroundings are the record \<open>client_env\<close>: the trusted libraries, the status of each ECALL
  itself, the untrusted functions of the SGX SDK, and the memory behind message 4. The state keeps
  the message object, the world it works on, the calls of the trusted libraries so far and what
  was shown. Debug output and the copies in the log are left out; what goes to the standard
  output is kept, as the messages may go there as well.
\<close>

section \<open>State\<close>

record client_config =
  cc_mode :: "8 word"
  cc_flags :: "32 word"
  cc_spid :: bytes
  cc_pubkey :: bytes
  cc_nonce :: bytes
  cc_server :: "string option"
  cc_port :: "string option"

definition OPT_PSE :: "32 word" where "OPT_PSE = 0x01"
definition OPT_NONCE :: "32 word" where "OPT_NONCE = 0x02"
definition OPT_LINK :: "32 word" where "OPT_LINK = 0x04"
definition OPT_PUBKEY :: "32 word" where "OPT_PUBKEY = 0x08"

record update_info =
  pswUpdate :: bool
  csmeFwUpdate :: bool
  ucodeUpdate :: bool

record client_env =
  ce_sdk :: sdk
  ce_ecall :: "tcall list \<Rightarrow> 32 word"
  ce_gid :: "32 word \<times> 32 word"
  ce_msg1 :: "tcall list \<Rightarrow> 32 word \<Rightarrow> 32 word \<times> bytes"
  ce_proc_msg2 :: "tcall list \<Rightarrow> 32 word \<Rightarrow> bytes \<Rightarrow> 32 word \<Rightarrow> 32 word \<times> bytes"
  ce_report_status :: "bytes \<Rightarrow> 32 word \<Rightarrow> 32 word \<times> update_info"
  ce_update_needed :: "32 word"
  ce_pib_size :: nat
  ce_junk :: "nat \<Rightarrow> byte"
  ce_after :: bytes
  ce_verbose :: bool

record client =
  cl_io :: msgio
  cl_world :: world
  cl_calls :: "tcall list"
  cl_shown :: "string list"
  cl_hashes :: "bytes option list"

text \<open>How the function ends: by \<open>return\<close> or by \<open>exit\<close>.\<close>

datatype client_end = Returns nat | Exits nat

section \<open>The parts of the protocol\<close>

definition client_open ::
    "(string \<Rightarrow> string \<Rightarrow> address list option) \<Rightarrow> client_config \<Rightarrow> world \<Rightarrow> msgio option \<times> world" where
  "client_open resolve cfg w =
     (case cc_server cfg of None \<Rightarrow> (Some msgio_stdio, w)
      | Some server \<Rightarrow>
          (case msgio_open False (resolve server (case cc_port cfg of None \<Rightarrow> DEFAULT_PORT | Some p \<Rightarrow> p)) True w of
             (Inl e, w) \<Rightarrow> (None, w) | (Inr io, w) \<Rightarrow> (Some io, w)))"

definition ocall_print_string :: "string \<Rightarrow> world \<Rightarrow> world" where
  "ocall_print_string s w = w\<lparr>out := out w @ cstr s\<rparr>"

definition delete_io :: "client \<Rightarrow> client" where
  "delete_io c = c\<lparr>cl_world := msgio_destroy (cl_io c) (cl_world c)\<rparr>"

definition close_context :: "client_env \<Rightarrow> 32 word \<Rightarrow> client \<Rightarrow> client" where
  "close_context V ctx c =
     (if ce_ecall V (cl_calls c) \<noteq> SGX_SUCCESS then c
      else c\<lparr>cl_calls := snd (enclave_ra_close (ce_sdk V) ctx (cl_calls c))\<rparr>)"

text \<open>Every way out after the context was made.\<close>

definition leave :: "client_env \<Rightarrow> 32 word \<Rightarrow> client_end \<Rightarrow> client \<Rightarrow> client_end run \<times> client" where
  "leave V ctx e c = (Done e, delete_io (close_context V ctx c))"

definition init_context :: "client_env \<Rightarrow> client_config \<Rightarrow> client \<Rightarrow> 32 word option \<times> client" where
  "init_context V cfg c =
     (let b_pse = cc_flags cfg AND OPT_PSE in
      if ce_ecall V (cl_calls c) \<noteq> SGX_SUCCESS then (None, c)
      else let ((st, ctx), tr) =
          (if cc_flags cfg AND OPT_PUBKEY \<noteq> 0
           then enclave_ra_init (ce_sdk V) (cc_pubkey cfg) b_pse (cl_calls c)
           else enclave_ra_init_def (ce_sdk V) b_pse (cl_calls c));
          c = c\<lparr>cl_calls := tr\<rparr>
        in (if st \<noteq> SGX_SUCCESS then None else Some ctx, c))"

definition send_msg01 :: "client_env \<Rightarrow> 32 word \<Rightarrow> client \<Rightarrow> bool \<times> client" where
  "send_msg01 V ctx c =
     (let (st, gid) = ce_gid V in
      if st \<noteq> SGX_SUCCESS then (False, c)
      else let (st, m1) = ce_msg1 V (cl_calls c) ctx in
        if st \<noteq> SGX_SUCCESS then (False, c)
        else let (io, w) = send_partial (le32 gid) (cl_io c) (cl_world c);
                 (io, w) = send m1 io w
          in (True, c\<lparr>cl_io := io, cl_world := w\<rparr>))"

text \<open>
  A message from the service provider: the bytes, or the way the client ends. A message without
  bytes is the null pointer, which the code reads through.
\<close>

definition receive :: "client_env \<Rightarrow> 32 word \<Rightarrow> client \<Rightarrow> (client_end run + bytes) \<times> client" where
  "receive V ctx c =
     (case read (ce_junk V) (cl_io c) (cl_world c) of (r, io, w) \<Rightarrow>
        let c = c\<lparr>cl_io := io, cl_world := w\<rparr> in
        case r of
          Blocked \<Rightarrow> (Inl Waits, c)
        | Returned rv dest _ \<Rightarrow>
            if rv = 0 \<or> rv = -1 then (let (e, c) = leave V ctx (Exits 1) c in (Inl e, c))
            else (case dest of None \<Rightarrow> (Inl Undefined, c) | Some b \<Rightarrow> (Inr b, c)))"

text \<open>
  The size of message 2 is passed as a \<open>uint32_t\<close>. It is read whole by the verbose output,
  and as far as this size goes by the SDK.
\<close>

definition answer_msg2 :: "client_env \<Rightarrow> 32 word \<Rightarrow> bytes \<Rightarrow> client \<Rightarrow> client_end run option \<times> client" where
  "answer_msg2 V ctx b c =
     (if length b < 168 then (Some Undefined, c)
      else let sig_rl_size = word_le32 (drop 164 b); size = 168 + sig_rl_size in
        if (ce_verbose V \<and> length b < 168 + unat sig_rl_size) \<or> length b < unat size then (Some Undefined, c)
        else let (st, m3) = ce_proc_msg2 V (cl_calls c) ctx b size in
          if st \<noteq> SGX_SUCCESS then (let (e, c) = leave V ctx (Returns 1) c in (Some e, c))
          else let (io, w) = send m3 (cl_io c) (cl_world c)
            in (None, c\<lparr>cl_io := io, cl_world := w\<rparr>))"

definition verdict :: "32 word \<Rightarrow> string" where
  "verdict st =
     (if st = status_value Trusted then ''Enclave TRUSTED'' @ [LF]
      else if st = status_value NotTrusted then ''Enclave NOT TRUSTED'' @ [LF]
      else if st = status_value Trusted_ItsComplicated then
        ''Enclave Trust is TRUSTED and COMPLICATED. The client is out of date and'' @ [LF] @
        ''may not be trusted in the future depending on the service provider's  policy.'' @ [LF]
      else ''Enclave Trust is NOT TRUSTED and COMPLICATED. The client is out of date.'' @ [LF])"

definition updates_shown :: "update_info \<Rightarrow> string list" where
  "updates_shown u =
     [''The following Platform Update(s) are required to bring this'' @ [LF],
      ''platform's Trusted Computing Base (TCB) back into compliance:'' @ [LF, LF]] @
     (if pswUpdate u then
        [''  * Intel SGX Platform Software needs to be updated to the latest version.'' @ [LF]] else []) @
     (if csmeFwUpdate u then
        [''  * The Intel Management Engine Firmware Needs to be Updated.  Contact your'' @ [LF],
         ''    OEM for a BIOS Update.'' @ [LF]] else []) @
     (if ucodeUpdate u then
        [''  * The CPU Microcode needs to be updated.  Contact your OEM for a platform'' @ [LF],
         ''    BIOS Update.'' @ [LF]] else []) @ [[LF]]"

text \<open>The ECALL for a key hash; \<open>mem\<close> is the memory from the cipher text on.\<close>

definition fetch_hash :: "client_env \<Rightarrow> 32 word \<Rightarrow> ra_key_type \<Rightarrow> bytes \<Rightarrow> client \<Rightarrow> client" where
  "fetch_hash V ctx type mem c =
     (if ce_ecall V (cl_calls c) \<noteq> SGX_SUCCESS then c\<lparr>cl_hashes := cl_hashes c @ [None]\<rparr>
      else let ((_, _, hash), outs, tr) = enclave_ra_get_key_hash (ce_sdk V) ctx type (string_in mem) (cl_calls c)
        in c\<lparr>cl_calls := tr, cl_world := fold ocall_print_string outs (cl_world c),
             cl_hashes := cl_hashes c @ [Some (case hash of Some h \<Rightarrow> h | None \<Rightarrow> replicate 32 0)]\<rparr>)"

text \<open>The platform information blob, unless it is empty, may call for updates.\<close>

definition show_updates :: "client_env \<Rightarrow> bytes \<Rightarrow> 32 word \<Rightarrow> client \<Rightarrow> client" where
  "show_updates V pib st c =
     (if pib = replicate (ce_pib_size V) 0 then c
      else let (ret, info) = ce_report_status V pib st in
        if ret = ce_update_needed V then c\<lparr>cl_shown := cl_shown c @ updates_shown info\<rparr> else c)"

definition process_msg4 :: "client_env \<Rightarrow> 32 word \<Rightarrow> bytes \<Rightarrow> client \<Rightarrow> client_end run \<times> client" where
  "process_msg4 V ctx b c =
     (if length b < 4 + ce_pib_size V then (Undefined, c)
      else
        let st = word_le32 b; pib = field b 4 (ce_pib_size V);
            c = c\<lparr>cl_shown := cl_shown c @ [verdict st]\<rparr>;
            c = show_updates V pib st c
        in if st = status_value Trusted \<or> st = status_value Trusted_ItsComplicated then
             (if length b < 4 + ce_pib_size V + 16 then (Undefined, c)
              else
                let mem = drop (4 + ce_pib_size V) b;
                    c = c\<lparr>cl_world := (cl_world c)\<lparr>out := out (cl_world c) @
                      ''Ciphertext: '' @ concat (map printf_02x (take 16 mem)) @ [LF]\<rparr>\<rparr>;
                    c = fetch_hash V ctx SGX_RA_KEY_MK (mem @ ce_after V) c;
                    c = fetch_hash V ctx SGX_RA_KEY_SK (mem @ ce_after V) c
                in leave V ctx (Returns 0) c)
           else leave V ctx (Returns 0) c)"

section \<open>The whole function\<close>

definition run_protocol :: "client_env \<Rightarrow> client_config \<Rightarrow> client \<Rightarrow> client_end run \<times> client" where
  "run_protocol V cfg c =
     (case init_context V cfg c of
        (None, c) \<Rightarrow> (Done (Returns 1), delete_io c)
      | (Some ctx, c) \<Rightarrow>
          (case send_msg01 V ctx c of
             (False, c) \<Rightarrow> leave V ctx (Returns 1) c
           | (True, c) \<Rightarrow>
               (case receive V ctx c of
                  (Inl e, c) \<Rightarrow> (e, c)
                | (Inr m2, c) \<Rightarrow>
                    (case answer_msg2 V ctx m2 c of
                       (Some e, c) \<Rightarrow> (e, c)
                     | (None, c) \<Rightarrow>
                         (case receive V ctx c of
                            (Inl e, c) \<Rightarrow> (e, c)
                          | (Inr m4, c) \<Rightarrow> process_msg4 V ctx m4 c)))))"

definition client_start :: "msgio \<Rightarrow> world \<Rightarrow> tcall list \<Rightarrow> client" where
  "client_start io w tr = \<lparr>cl_io = io, cl_world = w, cl_calls = tr, cl_shown = [], cl_hashes = []\<rparr>"

definition do_attestation ::
    "client_env \<Rightarrow> (string \<Rightarrow> string \<Rightarrow> address list option) \<Rightarrow> client_config \<Rightarrow> world \<Rightarrow> tcall list
      \<Rightarrow> client_end run \<times> client" where
  "do_attestation V resolve cfg w tr =
     (case client_open resolve cfg w of
        (None, w) \<Rightarrow> (Done (Exits 1), client_start msgio_stdio w tr)
      | (Some io, w) \<Rightarrow> run_protocol V cfg (client_start io w tr))"

section \<open>Contracts of the parts\<close>

text \<open>
  What every part of the protocol has to keep: \<open>idle\<close> before the context is made, \<open>active\<close> while
  the protocol runs, and \<open>final\<close> at the end, by whichever way the function is left.
\<close>

locale client_contract =
  fixes V :: client_env and idle :: "client \<Rightarrow> bool" and active :: "32 word \<Rightarrow> client \<Rightarrow> bool"
    and final :: "client_end run \<Rightarrow> client \<Rightarrow> bool"
  assumes initialised: "idle c \<Longrightarrow> init_context V cfg c = (Some ctx, c') \<Longrightarrow> active ctx c'"
    and not_initialised: "idle c \<Longrightarrow> init_context V cfg c = (None, c') \<Longrightarrow> final (Done (Returns 1)) (delete_io c')"
    and left: "active ctx c \<Longrightarrow> leave V ctx (Returns 1) c = (r, c') \<Longrightarrow> final r c'"
    and msg01_sent: "active ctx c \<Longrightarrow> send_msg01 V ctx c = (ok, c') \<Longrightarrow> active ctx c'"
    and received: "active ctx c \<Longrightarrow> receive V ctx c = (Inr b, c') \<Longrightarrow> active ctx c'"
    and not_received: "active ctx c \<Longrightarrow> receive V ctx c = (Inl r, c') \<Longrightarrow> final r c'"
    and msg2_answered: "active ctx c \<Longrightarrow> answer_msg2 V ctx b c = (None, c') \<Longrightarrow> active ctx c'"
    and msg2_refused: "active ctx c \<Longrightarrow> answer_msg2 V ctx b c = (Some r, c') \<Longrightarrow> final r c'"
    and msg4_processed: "active ctx c \<Longrightarrow> process_msg4 V ctx b c = (r, c') \<Longrightarrow> final r c'"
begin

lemma run:
  assumes "idle c" and "run_protocol V cfg c = (r, c')"
  shows "final r c'"
proof -
  obtain x c1 where i: "init_context V cfg c = (x, c1)" by (rule prod.exhaust)
  note st = assms(2) [unfolded run_protocol_def i prod.case]
  show ?thesis
  proof (cases x)
    case None
    with st not_initialised [OF assms(1)] i show ?thesis by auto
  next
    case (Some ctx)
    have a1: "active ctx c1" using initialised [OF assms(1)] i Some by simp
    obtain ok c2 where m1: "send_msg01 V ctx c1 = (ok, c2)" by (rule prod.exhaust)
    note a2 = msg01_sent [OF a1 m1]
    obtain x2 c3 where m2: "receive V ctx c2 = (x2, c3)" by (rule prod.exhaust)
    show ?thesis
    proof (cases ok)
      case False
      then show ?thesis using st Some m1 left [OF a2] by simp
    next
      case True
      note st = st [unfolded Some option.case m1 True prod.case bool.case m2]
      show ?thesis
      proof (cases x2)
        case (Inl e)
        then show ?thesis using st True not_received [OF a2] m2 by simp
      next
        case (Inr b)
        note a3 = received [OF a2 m2 [unfolded Inr]]
        obtain x3 c4 where m3: "answer_msg2 V ctx b c3 = (x3, c4)" by (rule prod.exhaust)
        show ?thesis
        proof (cases x3)
          case None
          note a4 = msg2_answered [OF a3 m3 [unfolded None]]
          obtain x4 c5 where m4: "receive V ctx c4 = (x4, c5)" by (rule prod.exhaust)
          then show ?thesis
            using st True Inr m3 None not_received [OF a4] msg4_processed [OF received [OF a4]] by (cases x4) auto
        qed (use st True Inr m3 msg2_refused [OF a3] in simp)
      qed
    qed
  qed
qed

end

section \<open>The use of the trusted library\<close>

text \<open>
  The discipline of the library: at most one context is open, keys are fetched from it only while
  it is open, and it is closed once. The result is the context that is open after the calls
  \<open>cs\<close>, \<open>None\<close> when they break the discipline.
\<close>

fun context_after ::
    "sdk \<Rightarrow> tcall list \<Rightarrow> 32 word option \<Rightarrow> tcall list \<Rightarrow> 32 word option option" where
  "context_after S past open [] = Some open"
| "context_after S past open (Ra_init key f # cs) =
     (if open \<noteq> None then None
      else let (st, ctx) = k_init S past key in
        context_after S (past @ [Ra_init key f]) (if st = SGX_SUCCESS then Some ctx else None) cs)"
| "context_after S past open (Ra_get_keys ctx t # cs) =
     (if open \<noteq> Some ctx then None else context_after S (past @ [Ra_get_keys ctx t]) open cs)"
| "context_after S past open (Ra_close ctx # cs) =
     (if open \<noteq> Some ctx then None else context_after S (past @ [Ra_close ctx]) None cs)"
| "context_after S past open (Create_report t # cs) = context_after S (past @ [Create_report t]) open cs"

lemma context_after_append:
  "context_after S past open (xs @ ys) =
     (case context_after S past open xs of None \<Rightarrow> None | Some open' \<Rightarrow> context_after S (past @ xs) open' ys)"
  by (induction S past "open" xs rule: context_after.induct) (auto split: prod.split option.split)

text \<open>
  While the protocol runs, the context is open and the message object has its descriptors; at
  the end the context is closed, and the descriptors are.
\<close>

definition in_session :: "client_env \<Rightarrow> 32 word option \<Rightarrow> msgio \<Rightarrow> world \<Rightarrow> client \<Rightarrow> bool" where
  "in_session V open io w c \<longleftrightarrow>
     context_after (ce_sdk V) [] None (cl_calls c) = Some open \<and> same_fds io w (cl_io c) (cl_world c)"

definition released :: "client_env \<Rightarrow> msgio \<Rightarrow> world \<Rightarrow> client \<Rightarrow> bool" where
  "released V io w c \<longleftrightarrow> context_after (ce_sdk V) [] None (cl_calls c) = Some None \<and>
     closed (cl_world c) = closed (msgio_destroy io w)"

definition disciplined :: "client_env \<Rightarrow> 32 word \<Rightarrow> msgio \<Rightarrow> world \<Rightarrow> client_end run option \<Rightarrow> client \<Rightarrow> bool" where
  "disciplined V ctx io w r c \<longleftrightarrow>
     (case r of Some (Done e) \<Rightarrow> released V io w c | _ \<Rightarrow> in_session V (Some ctx) io w c)"

lemma in_session_shown [simp]: "in_session V open io w (c\<lparr>cl_shown := t\<rparr>) = in_session V open io w c"
  by (simp add: in_session_def)

lemma in_session_out [simp]:
  "in_session V open io w (c\<lparr>cl_world := (cl_world c)\<lparr>out := t\<rparr>\<rparr>) = in_session V open io w c"
  "in_session V open io w (c\<lparr>cl_shown := s, cl_world := (cl_world c)\<lparr>out := t\<rparr>\<rparr>) = in_session V open io w c"
  by (simp_all add: in_session_def same_fds_def)

lemma in_session_moved:
  "in_session V open io w c \<Longrightarrow> same_fds (cl_io c) (cl_world c) io' w' \<Longrightarrow>
   in_session V open io w (c\<lparr>cl_io := io', cl_world := w'\<rparr>)"
  by (auto simp: in_session_def intro: same_fds_trans)

lemma delete_io_closes: "in_session V None io w c \<Longrightarrow> released V io w (delete_io c)"
  by (simp add: in_session_def released_def delete_io_def msgio_destroy_def close_fd_def same_fds_def Let_def)

lemma in_session_init:
  assumes "in_session V None io w c" and "init_context V cfg c = (r, c')"
  shows "in_session V r io w c'"
  using assms
  by (auto simp: init_context_def in_session_def enclave_ra_init_def enclave_ra_init_def_def Let_def
      context_after_append split: if_splits prod.splits)

lemma leave_releases:
  assumes "\<forall>tr. ce_ecall V tr = SGX_SUCCESS" and "in_session V (Some ctx) io w c"
  shows "released V io w (delete_io (close_context V ctx c))"
proof (rule delete_io_closes)
  show "in_session V None io w (close_context V ctx c)"
    using assms by (simp add: close_context_def in_session_def enclave_ra_close_def context_after_append)
qed

lemma in_session_send: "send_msg01 V ctx c = (r, c') \<Longrightarrow> in_session V open io w c \<Longrightarrow> in_session V open io w c'"
  by (auto simp: send_msg01_def Let_def dest!: same_fds_send intro!: in_session_moved intro: same_fds_trans
      split: if_splits prod.splits)

lemma disciplined_receive:
  assumes "\<forall>tr. ce_ecall V tr = SGX_SUCCESS" and "in_session V (Some ctx) io w c" and "receive V ctx c = (r, c')"
  shows "disciplined V ctx io w (case r of Inl e \<Rightarrow> Some e | Inr _ \<Rightarrow> None) c'"
proof -
  obtain rr io' w' where rd: "read (ce_junk V) (cl_io c) (cl_world c) = (rr, io', w')" by (rule prod_cases3)
  have m: "in_session V (Some ctx) io w (c\<lparr>cl_io := io', cl_world := w'\<rparr>)"
    using in_session_moved [OF assms(2) same_fds_read [OF rd]] .
  show ?thesis
    using assms(3) m leave_releases [OF assms(1) m]
    by (auto simp: receive_def leave_def disciplined_def rd Let_def split: read_result.splits if_splits option.splits)
qed

lemma disciplined_msg2:
  assumes "\<forall>tr. ce_ecall V tr = SGX_SUCCESS" and "in_session V (Some ctx) io w c" and "answer_msg2 V ctx b c = (r, c')"
  shows "disciplined V ctx io w r c'"
  using assms(2,3) leave_releases [OF assms(1,2)]
  by (auto simp: answer_msg2_def leave_def disciplined_def Let_def dest!: same_fds_send intro: in_session_moved
      split: prod.splits if_splits)

lemma closed_ocalls: "closed (fold ocall_print_string outs w) = closed w"
  by (induction outs arbitrary: w) (simp_all add: ocall_print_string_def)

lemma in_session_fetch:
  assumes "in_session V (Some ctx) io w c"
  shows "in_session V (Some ctx) io w (fetch_hash V ctx t mem c)"
  using assms
  by (auto simp: fetch_hash_def enclave_ra_get_key_hash_def in_session_def context_after_append closed_ocalls
      same_fds_def Let_def split: prod.split)

lemma disciplined_msg4:
  assumes "\<forall>tr. ce_ecall V tr = SGX_SUCCESS" and "in_session V (Some ctx) io w c" and "process_msg4 V ctx b c = (r, c')"
  shows "disciplined V ctx io w (Some r) c'"
  using assms(2,3)
  by (auto simp: process_msg4_def show_updates_def leave_def disciplined_def Let_def
      intro!: leave_releases [OF assms(1)] in_session_fetch split: prod.splits if_splits)

interpretation discipline: client_contract V
  "\<lambda>c. (\<forall>tr. ce_ecall V tr = SGX_SUCCESS) \<and> in_session V None io w c"
  "\<lambda>ctx c. (\<forall>tr. ce_ecall V tr = SGX_SUCCESS) \<and> in_session V (Some ctx) io w c"
  "\<lambda>r c. case r of Done e \<Rightarrow> released V io w c | _ \<Rightarrow> True" for V io w
proof (unfold_locales, goal_cases)
  case 3
  then show ?case using leave_releases by (auto simp: leave_def)
qed (auto simp: disciplined_def dest: in_session_init in_session_send disciplined_receive disciplined_msg2
    disciplined_msg4 intro: delete_io_closes split: run.splits)

section \<open>The keys\<close>

text \<open>Before message 4 nothing is shown and no key is fetched.\<close>

definition undecided :: "client \<Rightarrow> bool" where
  "undecided c \<longleftrightarrow> cl_shown c = [] \<and> (\<forall>ctx t. Ra_get_keys ctx t \<notin> set (cl_calls c))"

definition keys_shown :: "client \<Rightarrow> bool" where
  "keys_shown c \<longleftrightarrow> ((\<exists>ctx t. Ra_get_keys ctx t \<in> set (cl_calls c)) \<longrightarrow>
     cl_shown c \<noteq> [] \<and> hd (cl_shown c) \<in> {verdict (status_value Trusted), verdict (status_value Trusted_ItsComplicated)})"

lemma undecided_keys_shown: "undecided c \<Longrightarrow> keys_shown c"
  by (simp add: undecided_def keys_shown_def)

lemma undecided_moved [simp]:
  "undecided (c\<lparr>cl_io := io\<rparr>) = undecided c" "undecided (c\<lparr>cl_world := w\<rparr>) = undecided c"
  "undecided (delete_io c) = undecided c" "undecided (close_context V ctx c) = undecided c"
  by (simp_all add: undecided_def delete_io_def close_context_def enclave_ra_close_def)

lemma keys_shown_leave [simp]:
  "keys_shown (delete_io c) = keys_shown c" "keys_shown (close_context V ctx c) = keys_shown c"
  by (simp_all add: keys_shown_def delete_io_def close_context_def enclave_ra_close_def)

lemma undecided_init: "undecided c \<Longrightarrow> init_context V cfg c = (r, c') \<Longrightarrow> undecided c'"
  by (auto simp: init_context_def undecided_def enclave_ra_init_def enclave_ra_init_def_def Let_def
      split: if_splits prod.splits)

lemma undecided_stages:
  "undecided c \<Longrightarrow> send_msg01 V ctx c = (ok, c') \<Longrightarrow> undecided c'"
  "undecided c \<Longrightarrow> receive V ctx c = (m, c') \<Longrightarrow> undecided c'"
  "undecided c \<Longrightarrow> answer_msg2 V ctx b c = (r, c') \<Longrightarrow> undecided c'"
  by (auto simp: send_msg01_def receive_def answer_msg2_def leave_def Let_def
      split: prod.splits if_splits read_result.splits option.splits)

lemma shown_fetch [simp]: "cl_shown (fetch_hash V ctx t mem c) = cl_shown c"
  by (simp add: fetch_hash_def split: prod.split)

lemma keys_shown_msg4: "undecided c \<Longrightarrow> process_msg4 V ctx b c = (r, c') \<Longrightarrow> keys_shown c'"
  by (auto simp: process_msg4_def show_updates_def leave_def Let_def split: prod.splits if_splits)
    (auto simp: undecided_def keys_shown_def)

interpretation keys: client_contract V undecided "\<lambda>_. undecided" "\<lambda>_. keys_shown" for V
  by unfold_locales
    (auto simp: leave_def undecided_keys_shown dest: undecided_init undecided_stages keys_shown_msg4)

section \<open>A sample run\<close>

lemma read_line_socket:
  assumes "\<not> use_stdio io" and "rbuffer io = []" and "mallocs w = []" and "m \<noteq> []"
    and "recvs w = Rcv_data (print_hexstring m @ [LF]) # evs"
  shows "read junk io w = (Returned 1 (Some m) (Some (2 * length m)), io, w\<lparr>recvs := evs\<rparr>)"
proof -
  have io: "io\<lparr>rbuffer := []\<rparr> = io" using assms(2) by (cases io) simp
  have "find_line (print_hexstring m @ [LF]) = Some (2 * length m, 1)"
    using hexl.find_line_enc [of "[]" m] by simp
  then show ?thesis
    using assms io take_line_enc [of m "w\<lparr>recvs := evs\<rparr>" "io\<lparr>rbuffer := print_hexstring m @ [LF]\<rparr>" "[]" junk]
    by (simp add: read_def)
qed

lemma send_loop_silent: "send_loop [] buf w = ([], (put_wire buf w)\<lparr>sends := []\<rparr>)"
  by (cases buf) (simp_all add: put_wire_sends)

definition sample_client_env :: client_env where
  "sample_client_env = \<lparr>ce_sdk = sample_sdk, ce_ecall = (\<lambda>_. 0), ce_gid = (0, 0),
     ce_msg1 = (\<lambda>_ _. (0, replicate 68 1)), ce_proc_msg2 = (\<lambda>_ _ _ _. (0, [1])),
     ce_report_status = (\<lambda>_ _. (0, \<lparr>pswUpdate = False, csmeFwUpdate = False, ucodeUpdate = False\<rparr>)),
     ce_update_needed = 0x4006, ce_pib_size = 101, ce_junk = (\<lambda>_. 0), ce_after = [], ce_verbose = True\<rparr>"

definition sample_client_config :: client_config where
  "sample_client_config = \<lparr>cc_mode = 0, cc_flags = 0, cc_spid = replicate 16 0, cc_pubkey = replicate 64 0,
     cc_nonce = replicate 16 0, cc_server = Some ''localhost'', cc_port = None\<rparr>"

definition sample_resolve :: "string \<Rightarrow> string \<Rightarrow> address list option" where
  "sample_resolve host port = Some [\<lparr>socket_fd = 4, establishes = True\<rparr>]"

definition sample_msg2 :: bytes where "sample_msg2 = replicate 168 0"
definition sample_msg4 :: bytes where "sample_msg4 = [3, 0, 0, 0] @ replicate 101 0 @ replicate 16 5"

definition sample_client_world :: world where
  "sample_client_world = sample_world [Rcv_data (print_hexstring sample_msg2 @ [LF]),
     Rcv_data (print_hexstring sample_msg4 @ [LF])] [] []"

definition client_sock :: msgio where
  "client_sock = \<lparr>wbuffer = [], rbuffer = [], use_stdio = False, lsock = -1, sock = 4\<rparr>"

lemma sample_open: "client_open sample_resolve sample_client_config sample_client_world = (Some client_sock, sample_client_world)"
  by (simp add: client_open_def sample_client_config_def sample_resolve_def msgio_open_def client_sock_def)

lemma sample_msgs:
  "length sample_msg2 = 168" "word_le32 (drop 164 sample_msg2) = 0" "sample_msg2 \<noteq> []"
  "length sample_msg4 = 121" "word_le32 sample_msg4 = 3" "sample_msg4 \<noteq> []"
  "field sample_msg4 4 101 = replicate 101 0"
  by (simp_all add: sample_msg2_def sample_msg4_def word_le32_def field_def)

text \<open>The world of the sample run, as far as it matters.\<close>

definition quiet :: "recv_event list \<Rightarrow> client \<Rightarrow> bool" where
  "quiet evs c \<longleftrightarrow> cl_io c = client_sock \<and> recvs (cl_world c) = evs \<and> mallocs (cl_world c) = [] \<and> sends (cl_world c) = []"

lemma quiet_receive:
  "quiet (Rcv_data (print_hexstring m @ [LF]) # evs) c \<Longrightarrow> m \<noteq> [] \<Longrightarrow>
   \<exists>c'. receive V ctx c = (Inr m, c') \<and> quiet evs c'"
  using read_line_socket [of client_sock "cl_world c" m evs]
  by (simp add: quiet_def receive_def client_sock_def)

lemma calls_fetch:
  "ce_ecall V (cl_calls c) = SGX_SUCCESS \<Longrightarrow> cl_calls (fetch_hash V ctx t mem c) = cl_calls c @ [Ra_get_keys ctx t]"
  by (simp add: fetch_hash_def enclave_ra_get_key_hash_def Let_def split: prod.split)

lemma calls_leave:
  "ce_ecall V (cl_calls c) = SGX_SUCCESS \<Longrightarrow> cl_calls (delete_io (close_context V ctx c)) = cl_calls c @ [Ra_close ctx]"
  by (simp add: delete_io_def close_context_def enclave_ra_close_def)

lemma sample_ecall [simp]: "ce_ecall sample_client_env tr = SGX_SUCCESS" "ce_pib_size sample_client_env = 101"
  by (simp_all add: sample_client_env_def SGX_SUCCESS_def)

lemma sample_client_run:
  "\<exists>c. do_attestation sample_client_env sample_resolve sample_client_config sample_client_world [] =
     (Done (Returns 0), c) \<and> Ra_get_keys 7 SGX_RA_KEY_SK \<in> set (cl_calls c)"
proof -
  let ?V = sample_client_env
  let ?r2 = "Rcv_data (print_hexstring sample_msg2 @ [LF])" and ?r4 = "Rcv_data (print_hexstring sample_msg4 @ [LF])"
  obtain c1 where i: "init_context ?V sample_client_config (client_start client_sock sample_client_world []) = (Some 7, c1)"
      and c1: "quiet [?r2, ?r4] c1"
    by (simp add: init_context_def sample_client_env_def sample_client_config_def enclave_ra_init_def_def
        enclave_ra_init_def sample_sdk_def client_start_def SGX_SUCCESS_def quiet_def sample_client_world_def sample_world_def)
  obtain c2 where s: "send_msg01 ?V 7 c1 = (True, c2)" and c2: "quiet [?r2, ?r4] c2"
    using c1 by (simp add: send_msg01_def sample_client_env_def SGX_SUCCESS_def send_partial_def send_def client_sock_def
        quiet_def send_loop_silent put_wire_def)
  obtain c3 where r: "receive ?V 7 c2 = (Inr sample_msg2, c3)" and c3: "quiet [?r4] c3"
    using quiet_receive [OF c2] sample_msgs by blast
  obtain c4 where a: "answer_msg2 ?V 7 sample_msg2 c3 = (None, c4)" and c4: "quiet [?r4] c4"
    using c3 by (simp add: Let_def answer_msg2_def sample_msgs sample_client_env_def SGX_SUCCESS_def send_def client_sock_def
        quiet_def send_loop_silent put_wire_def)
  obtain c5 where r4: "receive ?V 7 c4 = (Inr sample_msg4, c5)"
    using quiet_receive [OF c4] sample_msgs by blast
  have "do_attestation ?V sample_resolve sample_client_config sample_client_world [] = process_msg4 ?V 7 sample_msg4 c5"
    by (simp add: do_attestation_def sample_open run_protocol_def i s r a r4)
  moreover have "\<exists>c. process_msg4 ?V 7 sample_msg4 c5 = (Done (Returns 0), c) \<and> Ra_get_keys 7 SGX_RA_KEY_SK \<in> set (cl_calls c)"
    by (simp add: process_msg4_def show_updates_def sample_msgs leave_def calls_leave calls_fetch Let_def)
  ultimately show ?thesis by simp
qed

section \<open>Properties\<close>

text \<open>
  C14. Whatever the service provider and the SDK answer, a run of the client that ends, by
  return or by exit, has used the trusted library properly (keys only from the open context) and
  left it without an open context, and has closed the socket it opened. The ECALLs themselves
  are assumed to get through.
\<close>

theorem client_releases_everything:
  assumes "\<forall>tr. ce_ecall V tr = SGX_SUCCESS"
    and "client_open resolve cfg w = (Some io, w0)"
    and "do_attestation V resolve cfg w [] = (Done e, c)"
  shows "context_after (ce_sdk V) [] None (cl_calls c) = Some None \<and>
    closed (cl_world c) = closed (msgio_destroy io w0)"
proof -
  have "in_session V None io w0 (client_start io w0 [])" by (simp add: in_session_def client_start_def same_fds_def)
  moreover have "run_protocol V cfg (client_start io w0 []) = (Done e, c)"
    using assms(2,3) by (simp add: do_attestation_def)
  ultimately have "released V io w0 c" using discipline.run [of V io w0] assms(1) by fastforce
  then show ?thesis by (simp add: released_def)
qed

theorem client_releases_everything_witness:
  "\<exists>c. do_attestation sample_client_env sample_resolve sample_client_config sample_client_world [] =
     (Done (Returns 0), c) \<and> context_after sample_sdk [] None (cl_calls c) = Some None \<and> closed (cl_world c) = [4]"
proof -
  obtain c where c: "do_attestation sample_client_env sample_resolve sample_client_config sample_client_world [] =
     (Done (Returns 0), c)" using sample_client_run by blast
  have "\<forall>tr. ce_ecall sample_client_env tr = SGX_SUCCESS" by simp
  from client_releases_everything [OF this sample_open c] c show ?thesis
    by (simp add: msgio_destroy_def client_sock_def close_fd_def sample_client_world_def sample_world_def)
      (simp add: sample_client_env_def)
qed

text \<open>
  C15. The client asks its enclave for keys only in a run whose message 4 says that the
  enclave is trusted (or trusted with reservations), and that is what it shows first.
\<close>

theorem keys_only_when_trusted:
  assumes "do_attestation V resolve cfg w [] = (r, c)" and "Ra_get_keys ctx t \<in> set (cl_calls c)"
  shows "cl_shown c \<noteq> [] \<and> hd (cl_shown c) \<in> {verdict (status_value Trusted), verdict (status_value Trusted_ItsComplicated)}"
proof -
  have "undecided (client_start io w0 [])" for io w0 by (simp add: undecided_def client_start_def)
  then have "keys_shown c"
    using assms(1) keys.run [of _ V cfg r c] undecided_keys_shown
    by (auto simp: do_attestation_def split: prod.splits option.splits)
  then show ?thesis using assms(2) by (auto simp: keys_shown_def)
qed

theorem keys_only_when_trusted_witness:
  "\<exists>c. do_attestation sample_client_env sample_resolve sample_client_config sample_client_world [] =
     (Done (Returns 0), c) \<and> Ra_get_keys 7 SGX_RA_KEY_SK \<in> set (cl_calls c) \<and> cl_shown c \<noteq> []"
  using sample_client_run keys_only_when_trusted by metis

text \<open>
  The three verdicts in words are those of the protocol, and every other status, even
  one that is no attestation status at all, is shown as not trusted with reservations.
\<close>

theorem verdict_by_status:
  "verdict st = verdict (status_value NotTrusted_ItsComplicated) \<longleftrightarrow>
     st \<notin> {status_value Trusted, status_value NotTrusted, status_value Trusted_ItsComplicated}"
  by (auto simp: verdict_def)

end
