(* ===== verification/End_To_End.thy ===== *)
theory End_To_End
  imports Client Sp_Server
begin

text \<open>
  The client and the service provider together: what one sends reaches the other unchanged over
  either transport, and what follows for the session and for the user.
\<close>

section \<open>Messages over a transport\<close>

lemma send_message_1: "send_message [p] f io w = (let (io, w) = send_partial p io w in send f io w)"
  by (simp add: send_message_def split: prod.split)

lemma send_message_2:
  "send_message [p, q] f io w =
     (let (io, w) = send_partial p io w; (io, w) = send_partial q io w in send f io w)"
  by (simp add: send_message_def split: prod.split)

context transport
begin

lemma msg01_arrives:
  assumes "ready (cl_io c) (cl_world c)" and "send_msg01 V ctx c = (True, c')"
    and "arrives (sent (cl_world c) (cl_world c')) (s_io st) (s_world st)"
  defines "m \<equiv> le32 (snd (ce_gid V)) @ snd (ce_msg1 V (cl_calls c) ctx)"
  shows "\<exists>io w. process_msg01 E cfg ses st =
    (let (res, ias, s) = answer_msg01 E cfg ses m (s_ias st) (s_crypto st)
     in (res, st\<lparr>s_io := io, s_world := w, s_ias := ias, s_crypto := s\<rparr>))"
proof -
  obtain io1 w1 where sm: "send_message [le32 (snd (ce_gid V))] (snd (ce_msg1 V (cl_calls c) ctx)) (cl_io c) (cl_world c) = (io1, w1)"
    by (rule prod.exhaust)
  then have "cl_world c' = w1"
    using assms(2) by (auto simp: send_msg01_def send_message_1 Let_def split: if_splits prod.splits)
  moreover have "concat [le32 (snd (ce_gid V))] @ snd (ce_msg1 V (cl_calls c) ctx) = m" "m \<noteq> []"
    by (simp_all add: m_def le32_def)
  ultimately obtain io w where "read (e_junk E) (s_io st) (s_world st) = (Returned 1 (Some m) (Some (2 * length m)), io, w)"
    using delivered [OF assms(1) sm] assms(3) by metis
  then show ?thesis by (auto simp: process_msg01_def split: prod.split)
qed

lemma msg4_arrives:
  assumes "send_msg4 E m4 ses st = (m4', ses', st')"
    and "m4_status m4 = Trusted \<or> m4_status m4 = Trusted_ItsComplicated"
    and "ready (s_io st) (s_world st)" and "arrives (sent (s_world st) (s_world st')) (cl_io c) (cl_world c)"
  defines "m \<equiv> le32 (status_value (m4_status m4)) @ m4_pib m4 @ m4_ciphertext m4'"
  shows "\<exists>io w. receive V ctx c = (Inr m, c\<lparr>cl_io := io, cl_world := w\<rparr>)"
proof -
  obtain io1 w1 where sm: "send_message [le32 (status_value (m4_status m4)), m4_pib m4] (m4_ciphertext m4') (s_io st) (s_world st) = (io1, w1)"
    by (rule prod.exhaust)
  then have "s_world st' = w1"
    using assms(1,2) by (auto simp: send_msg4_def send_message_2 Let_def split: prod.splits)
  moreover have "concat [le32 (status_value (m4_status m4)), m4_pib m4] @ m4_ciphertext m4' = m" "m \<noteq> []"
    by (simp_all add: m_def le32_def)
  ultimately obtain io w where "read (ce_junk V) (cl_io c) (cl_world c) = (Returned 1 (Some m) (Some (2 * length m)), io, w)"
    using delivered [OF assms(3) sm] assms(4) by metis
  then show ?thesis by (auto simp: receive_def)
qed

end

section \<open>Message 0 and 1 at the service provider\<close>

lemma word_le32_append: "4 \<le> length b \<Longrightarrow> word_le32 (b @ t) = word_le32 b"
  by (cases b) (auto simp: word_le32_def nth_append)

lemma field_append: "field (a @ b) (length a + i) n = field b i n"
  by (simp add: field_def)

lemma answer_from_client:
  assumes "length m1b = 68"
  shows "fst (answer_msg01 E cfg ses (le32 gid @ m1b) ias s) = Done None \<or> gid = 0"
    and "answer_msg01 E cfg ses (le32 gid @ m1b) ias s = (Done (Some (m1, m2, rl, ses')), ias', s') \<Longrightarrow>
      m1_g_a m1 = take 64 m1b \<and> m1_gid m1 = drop 64 m1b"
proof -
  have w: "word_le32 (le32 gid @ m1b) = gid" by (simp add: word_le32_append word_le32_le32)
  show "fst (answer_msg01 E cfg ses (le32 gid @ m1b) ias s) = Done None \<or> gid = 0"
    by (simp add: answer_msg01_def w)
  have f: "field (le32 gid @ m1b) 4 64 = take 64 m1b" "field (le32 gid @ m1b) 68 4 = drop 64 m1b"
    using field_append [of "le32 gid" m1b 0 64] field_append [of "le32 gid" m1b 64 4] assms
    by (simp_all add: field_def)
  assume "answer_msg01 E cfg ses (le32 gid @ m1b) ias s = (Done (Some (m1, m2, rl, ses')), ias', s')"
  then have "m1 = \<lparr>m1_g_a = field (le32 gid @ m1b) 4 64, m1_gid = field (le32 gid @ m1b) 68 4\<rparr>"
    by (simp add: answer_msg01_def Let_def split: if_splits option.splits prod.splits bool.splits)
  then show "m1_g_a m1 = take 64 m1b \<and> m1_gid m1 = drop 64 m1b" using f by simp
qed

section \<open>Message 4 at the client\<close>

lemma out_ocalls: "out (fold ocall_print_string outs w) = out w @ concat (map cstr outs)"
  by (induction outs arbitrary: w) (simp_all add: ocall_print_string_def)

text \<open>What \<open>fetch_hash\<close> prints, and that what was printed before stays.\<close>

definition printed :: "string \<Rightarrow> client \<Rightarrow> bool" where
  "printed t c \<longleftrightarrow> (\<exists>a b. out (cl_world c) = a @ t @ b)"

lemma printed_plain:
  assumes "ce_ecall V (cl_calls c) = SGX_SUCCESS" and "k_keys (ce_sdk V) (cl_calls c) ctx SGX_RA_KEY_SK = (SGX_SUCCESS, k)"
    and "length ct = 16" and "0 \<notin> set ct" and "0 \<notin> set (k_aes_decrypt (ce_sdk V) k ct)"
    and "16 + length (k_aes_decrypt (ce_sdk V) k ct) < k_bufsiz (ce_sdk V)"
  shows "printed (''Decrypted Text: '' @ of_bytes (k_aes_decrypt (ce_sdk V) k ct)) (fetch_hash V ctx SGX_RA_KEY_SK (ct @ t) c)"
proof -
  define p where "p = ''Decrypted Text: '' @ of_bytes (k_aes_decrypt (ce_sdk V) k ct)"
  obtain res outs rest where e: "enclave_ra_get_key_hash (ce_sdk V) ctx SGX_RA_KEY_SK (string_in (ct @ t)) (cl_calls c) =
      (res, outs, cl_calls c @ [Ra_get_keys ctx SGX_RA_KEY_SK])" and i: "p @ rest \<in> set outs"
    using plain_text_printed [OF assms(2-6), of t] by (auto simp: p_def)
  obtain xs ys where outs: "outs = xs @ (p @ rest) # ys" using i by (meson split_list)
  have "NUL \<notin> set p" using assms(5) by (simp add: p_def nul_of_bytes)
  then have "out (fold ocall_print_string outs (cl_world c)) =
      (out (cl_world c) @ concat (map cstr xs)) @ p @ (cstr rest @ concat (map cstr ys))"
    unfolding out_ocalls outs by (simp add: cstr_append)
  moreover have "cl_world (fetch_hash V ctx SGX_RA_KEY_SK (ct @ t) c) = fold ocall_print_string outs (cl_world c)"
    using assms(1) e by (cases res) (simp add: fetch_hash_def)
  ultimately show ?thesis unfolding printed_def p_def [symmetric] by metis
qed

lemma msg4_shown:
  assumes "\<forall>tr. ce_ecall V tr = SGX_SUCCESS"
    and "st = Trusted \<or> st = Trusted_ItsComplicated" and "length pib = ce_pib_size V" and "length ct = 16"
  shows "\<exists>c'. process_msg4 V ctx (le32 (status_value st) @ pib @ ct) c = (Done (Returns 0), c') \<and>
    (\<exists>t. cl_shown c' = cl_shown c @ verdict (status_value st) # t) \<and>
    (\<forall>k. (\<forall>tr. k_keys (ce_sdk V) tr ctx SGX_RA_KEY_SK = (SGX_SUCCESS, k)) \<longrightarrow> 0 \<notin> set ct \<longrightarrow>
      0 \<notin> set (k_aes_decrypt (ce_sdk V) k ct) \<longrightarrow>
      16 + length (k_aes_decrypt (ce_sdk V) k ct) < k_bufsiz (ce_sdk V) \<longrightarrow>
      printed (''Decrypted Text: '' @ of_bytes (k_aes_decrypt (ce_sdk V) k ct)) c')"
proof -
  let ?b = "le32 (status_value st) @ pib @ ct"
  have b: "word_le32 ?b = status_value st" "drop (4 + ce_pib_size V) ?b = ct" "length ?b = 4 + ce_pib_size V + 16"
    using assms(3,4) by (simp_all add: word_le32_append word_le32_le32)
  have world: "cl_world (delete_io (close_context V ctx d)) = msgio_destroy (cl_io d) (cl_world d)"
    "cl_shown (delete_io (close_context V ctx d)) = cl_shown d" for d
    by (simp_all add: delete_io_def close_context_def)
  have out: "out (msgio_destroy io w) = out w" for io w
    by (simp add: msgio_destroy_def close_fd_def Let_def)
  obtain t where pib: "show_updates V (field ?b 4 (ce_pib_size V)) (status_value st)
      (c\<lparr>cl_shown := cl_shown c @ [verdict (status_value st)]\<rparr>) = c\<lparr>cl_shown := cl_shown c @ verdict (status_value st) # t\<rparr>"
    by (rule that [of "if field ?b 4 (ce_pib_size V) = replicate (ce_pib_size V) 0 then []
        else let (ret, info) = ce_report_status V (field ?b 4 (ce_pib_size V)) (status_value st) in
          if ret = ce_update_needed V then updates_shown info else []"])
      (simp add: show_updates_def split: prod.split)
  define c1 where "c1 = c\<lparr>cl_shown := cl_shown c @ verdict (status_value st) # t,
    cl_world := (cl_world c)\<lparr>out := out (cl_world c) @ ''Ciphertext: '' @ concat (map printf_02x ct) @ [LF]\<rparr>\<rparr>"
  define c2 where "c2 = fetch_hash V ctx SGX_RA_KEY_MK (ct @ ce_after V) c1"
  define c3 where "c3 = fetch_hash V ctx SGX_RA_KEY_SK (ct @ ce_after V) c2"
  have st: "status_value st = status_value Trusted \<or> status_value st = status_value Trusted_ItsComplicated"
    using assms(2) by auto
  have "process_msg4 V ctx ?b c = (Done (Returns 0), delete_io (close_context V ctx c3))"
    unfolding process_msg4_def Let_def b(1) pib b(2) leave_def c3_def c2_def c1_def
    using st b(3) assms(4) by simp
  moreover have "cl_shown (delete_io (close_context V ctx c3)) = cl_shown c @ verdict (status_value st) # t"
    by (simp add: world c3_def c2_def c1_def)
  moreover have "printed (''Decrypted Text: '' @ of_bytes (k_aes_decrypt (ce_sdk V) k ct)) (delete_io (close_context V ctx c3))"
    if "\<forall>tr. k_keys (ce_sdk V) tr ctx SGX_RA_KEY_SK = (SGX_SUCCESS, k)" "0 \<notin> set ct"
      "0 \<notin> set (k_aes_decrypt (ce_sdk V) k ct)" "16 + length (k_aes_decrypt (ce_sdk V) k ct) < k_bufsiz (ce_sdk V)" for k
    using printed_plain [of V c2 ctx k ct "ce_after V"] assms(1,4) that
    by (simp add: printed_def world out c3_def)
  ultimately show ?thesis by blast
qed

end
