(* ===== verification/Network.thy ===== *)
theory Network
  imports End_To_End Sp_Types
begin

text \<open>
  The two programs side by side on a network. \<open>do_attestation\<close> and a session of the service
  provider are cut at the points where they read a message, and become processes that move one
  message at a time, in any order that the channels between them allow. A channel holds the text
  that was sent and not read; it arrives in arbitrary pieces, with interruptions, and after the end
  of the peer the end of the stream follows. Sending is not interrupted by errors.
\<close>

section \<open>The programs in phases\<close>

datatype cphase = C_begin client | C_await2 "32 word" client | C_await4 "32 word" client
  | C_end "client_end run" client

datatype sphase = S_await01 sp_state | S_await3 msg1 ra_session sp_state
  | S_end "unit run" "msg4 option" sp_state

fun client_move :: "client_env \<Rightarrow> client_config \<Rightarrow> cphase \<Rightarrow> cphase" where
  "client_move V cc (C_begin c) =
     (case init_context V cc c of
        (None, c) \<Rightarrow> C_end (Done (Returns 1)) (delete_io c)
      | (Some ctx, c) \<Rightarrow>
          (case send_msg01 V ctx c of
             (False, c) \<Rightarrow> (let (e, c) = leave V ctx (Returns 1) c in C_end e c)
           | (True, c) \<Rightarrow> C_await2 ctx c))"
| "client_move V cc (C_await2 ctx c) =
     (case receive V ctx c of
        (Inl e, c) \<Rightarrow> C_end e c
      | (Inr m2, c) \<Rightarrow> (case answer_msg2 V ctx m2 c of (Some e, c) \<Rightarrow> C_end e c | (None, c) \<Rightarrow> C_await4 ctx c))"
| "client_move V cc (C_await4 ctx c) =
     (case receive V ctx c of
        (Inl e, c) \<Rightarrow> C_end e c
      | (Inr m4, c) \<Rightarrow> (case process_msg4 V ctx m4 c of (e, c) \<Rightarrow> C_end e c))"
| "client_move V cc (C_end e c) = C_end e c"

fun server_move :: "sp_env \<Rightarrow> config \<Rightarrow> sphase \<Rightarrow> sphase" where
  "server_move E cfg (S_await01 st) =
     (case process_msg01 E cfg zero_session st of
        (Done None, st) \<Rightarrow> S_end (Done ()) None st
      | (Done (Some (m1, m2, rl, ses)), st) \<Rightarrow>
          if length rl < unat (m2_sig_rl_size m2) then S_end Undefined None st
          else let (io, w) = send_partial (msg2_bytes m2) (s_io st) (s_world st);
                   (io, w) = send (take (unat (m2_sig_rl_size m2)) rl) io w
            in S_await3 m1 ses (st\<lparr>s_io := io, s_world := w\<rparr>)
      | (Undefined, st) \<Rightarrow> S_end Undefined None st
      | (Throws e, st) \<Rightarrow> S_end (Throws e) None st
      | (Waits, st) \<Rightarrow> S_end Waits None st)"
| "server_move E cfg (S_await3 m1 ses st) =
     (case process_msg3 E cfg m1 ses st of
        (Done x, st) \<Rightarrow> S_end (Done ()) (map_option fst x) st
      | (Undefined, st) \<Rightarrow> S_end Undefined None st
      | (Throws e, st) \<Rightarrow> S_end (Throws e) None st
      | (Waits, st) \<Rightarrow> S_end Waits None st)"
| "server_move E cfg (S_end r d st) = S_end r d st"

text \<open>Without a pause between the phases these are the functions of the two programs.\<close>

lemma client_phases:
  "(client_move V cc ^^ 3) (C_begin c) = (case run_protocol V cc c of (r, c) \<Rightarrow> C_end r c)"
  by (auto simp: run_protocol_def leave_def numeral_3_eq_3 split: prod.splits option.splits sum.splits bool.splits)

lemma server_phases:
  "\<exists>d. (server_move E cfg ^^ 2) (S_await01 st) = (case run_session E cfg st of (r, st) \<Rightarrow> S_end r d st)"
  by (auto simp: run_session_def numeral_2_eq_2 Let_def split: prod.splits option.splits run.splits)

section \<open>The network\<close>

record net =
  n_client :: cphase
  n_server :: sphase
  to_server :: string
  to_client :: string

fun client_of :: "cphase \<Rightarrow> client" where
  "client_of (C_begin c) = c"
| "client_of (C_await2 ctx c) = c"
| "client_of (C_await4 ctx c) = c"
| "client_of (C_end e c) = c"

fun server_of :: "sphase \<Rightarrow> sp_state" where
  "server_of (S_await01 st) = st"
| "server_of (S_await3 m1 ses st) = st"
| "server_of (S_end r d st) = st"

fun c_ended :: "cphase \<Rightarrow> bool" where
  "c_ended (C_end e c) = True"
| "c_ended _ = False"

fun s_ended :: "sphase \<Rightarrow> bool" where
  "s_ended (S_end r d st) = True"
| "s_ended _ = False"

text \<open>What the sockets do in the next move.\<close>

definition c_events :: "recv_event list \<Rightarrow> send_event list \<Rightarrow> client \<Rightarrow> client" where
  "c_events rs ss c = c\<lparr>cl_world := (cl_world c)\<lparr>recvs := rs, sends := ss\<rparr>\<rparr>"

definition s_events :: "recv_event list \<Rightarrow> send_event list \<Rightarrow> sp_state \<Rightarrow> sp_state" where
  "s_events rs ss st = st\<lparr>s_world := (s_world st)\<lparr>recvs := rs, sends := ss\<rparr>\<rparr>"

fun c_before :: "recv_event list \<Rightarrow> send_event list \<Rightarrow> cphase \<Rightarrow> cphase" where
  "c_before rs ss (C_begin c) = C_begin (c_events rs ss c)"
| "c_before rs ss (C_await2 ctx c) = C_await2 ctx (c_events rs ss c)"
| "c_before rs ss (C_await4 ctx c) = C_await4 ctx (c_events rs ss c)"
| "c_before rs ss (C_end e c) = C_end e c"

fun s_before :: "recv_event list \<Rightarrow> send_event list \<Rightarrow> sphase \<Rightarrow> sphase" where
  "s_before rs ss (S_await01 st) = S_await01 (s_events rs ss st)"
| "s_before rs ss (S_await3 m1 ses st) = S_await3 m1 ses (s_events rs ss st)"
| "s_before rs ss (S_end r d st) = S_end r d st"

definition arrival :: "string \<Rightarrow> bool \<Rightarrow> recv_event list \<Rightarrow> bool" where
  "arrival t ended rs \<longleftrightarrow>
     (\<exists>ps. live ps \<and> received ps = t \<and> rs = ps @ (if ended then [Rcv_data []] else []))"

abbreviation client_turn :: "net \<Rightarrow> cphase \<Rightarrow> net" where
  "client_turn n p \<equiv> n\<lparr>n_client := p, to_client := received (recvs (cl_world (client_of p))),
     to_server := to_server n @ socket_sent (cl_world (client_of (n_client n))) (cl_world (client_of p))\<rparr>"

abbreviation server_turn :: "net \<Rightarrow> sphase \<Rightarrow> net" where
  "server_turn n p \<equiv> n\<lparr>n_server := p, to_server := received (recvs (s_world (server_of p))),
     to_client := to_client n @ socket_sent (s_world (server_of (n_server n))) (s_world (server_of p))\<rparr>"

text \<open>A process moves unless it would wait for more.\<close>

inductive net_step :: "client_env \<Rightarrow> client_config \<Rightarrow> sp_env \<Rightarrow> config \<Rightarrow> net \<Rightarrow> net \<Rightarrow> bool" for V cc E cfg where
  client: "\<not> c_ended (n_client n) \<Longrightarrow> arrival (to_client n) (s_ended (n_server n)) rs \<Longrightarrow> Snd_err \<notin> set ss \<Longrightarrow>
    p = client_move V cc (c_before rs ss (n_client n)) \<Longrightarrow> \<forall>c. p \<noteq> C_end Waits c \<Longrightarrow>
    net_step V cc E cfg n (client_turn n p)"
| server: "\<not> s_ended (n_server n) \<Longrightarrow> arrival (to_server n) (c_ended (n_client n)) rs \<Longrightarrow> Snd_err \<notin> set ss \<Longrightarrow>
    p = server_move E cfg (s_before rs ss (n_server n)) \<Longrightarrow> \<forall>st. p \<noteq> S_end Waits None st \<Longrightarrow>
    net_step V cc E cfg n (server_turn n p)"

inductive net_reachable :: "client_env \<Rightarrow> client_config \<Rightarrow> sp_env \<Rightarrow> config \<Rightarrow> net \<Rightarrow> net \<Rightarrow> bool" for V cc E cfg n0 where
  start: "net_reachable V cc E cfg n0 n0"
| step: "net_reachable V cc E cfg n0 n \<Longrightarrow> net_step V cc E cfg n n' \<Longrightarrow> net_reachable V cc E cfg n0 n'"

text \<open>A fresh client and a server that has just accepted it.\<close>

definition calm :: "msgio \<Rightarrow> world \<Rightarrow> bool" where
  "calm io w \<longleftrightarrow> \<not> use_stdio io \<and> rbuffer io = [] \<and> wbuffer io = [] \<and> mallocs w = []"

definition connected :: "client \<Rightarrow> sp_state \<Rightarrow> net \<Rightarrow> bool" where
  "connected c st n \<longleftrightarrow> n = \<lparr>n_client = C_begin c, n_server = S_await01 st, to_server = [], to_client = []\<rparr> \<and>
     calm (cl_io c) (cl_world c) \<and> calm (s_io st) (s_world st) \<and> cl_shown c = []"

section \<open>Reading and sending\<close>

lemma received_eof: "received (ps @ (if e then [Rcv_data []] else [])) = received ps"
  by (induction ps rule: received.induct) auto

abbreviation line :: "bytes \<Rightarrow> string" where
  "line m \<equiv> print_hexstring m @ [LF]"

lemma recvs_malloc: "malloc (w\<lparr>recvs := r\<rparr>) = (fst (malloc w), (snd (malloc w))\<lparr>recvs := r\<rparr>)"
  by (simp add: malloc_def split: list.split)

lemma recvs_after_malloc: "recvs (snd (malloc w)) = recvs w"
  by (simp add: malloc_def split: list.split)

lemma take_line_recvs:
  "take_line junk i ws io (w\<lparr>recvs := a @ ys\<rparr>) =
    (case take_line junk i ws io (w\<lparr>recvs := a\<rparr>) of (r, io', w') \<Rightarrow> (r, io', w'\<lparr>recvs := recvs w' @ ys\<rparr>))"
  by (cases "malloc w") (simp add: take_line_def recvs_malloc)

lemma read_loop_more:
  "read_loop junk evs io w = (r, io', w') \<Longrightarrow> r \<noteq> Blocked \<Longrightarrow>
     read_loop junk (evs @ ys) io w = (r, io', w'\<lparr>recvs := recvs w' @ ys\<rparr>)"
proof (induction junk evs io w rule: read_loop.induct)
  case (4 junk d evs io w)
  then show ?case by (auto simp: take_line_recvs Let_def split: if_splits option.splits prod.splits)
qed auto

lemma live_silent: "live ps \<Longrightarrow> received ps = [] \<Longrightarrow> read_loop junk (ps @ ys) io w = read_loop junk ys io w"
proof (induction ps)
  case (Cons e ps)
  then show ?case by (cases e) (auto simp: live_def)
qed simp

lemma read_line:
  assumes "calm io w" "arrival (line m) e rs" "m \<noteq> []"
  shows "\<exists>rs'. received rs' = [] \<and>
    read junk io (w\<lparr>recvs := rs, sends := ss\<rparr>) = (Returned 1 (Some m) (Some (2 * length m)), io, w\<lparr>recvs := rs', sends := ss\<rparr>)"
proof -
  obtain ps where ps: "live ps" "received ps = line m" "rs = ps @ (if e then [Rcv_data []] else [])"
    using assms(2) by (auto simp: arrival_def)
  let ?w = "w\<lparr>recvs := rs, sends := ss\<rparr>"
  have io: "io\<lparr>rbuffer := []\<rparr> = io" using assms(1) by (cases io) (simp add: calm_def)
  obtain evs where evs: "received evs = []" "read_loop junk ps io ?w =
      (Returned 1 (Some m) (Some (2 * length m)), io, ?w\<lparr>recvs := evs\<rparr>)"
    using read_loop_frame [OF ps(1) assms(3), of ?w io junk] ps(2) assms(1) io by (auto simp: calm_def)
  have rs': "received (evs @ (if e then [Rcv_data []] else [])) = []"
    using evs(1) by (induction evs rule: received.induct) auto
  from read_loop_more [OF evs(2), of "if e then [Rcv_data []] else []"] rs' ps(3) assms(1) show ?thesis
    by (auto simp: read_def calm_def)
qed

lemma read_nothing:
  assumes "calm io w" "arrival [] e rs"
  shows "read junk io (w\<lparr>recvs := rs, sends := ss\<rparr>) =
    (if e then Returned 0 None (Some 0) else Blocked, io, w\<lparr>recvs := [], sends := ss\<rparr>)"
proof -
  obtain ps where "live ps" "received ps = []" "rs = ps @ (if e then [Rcv_data []] else [])"
    using assms(2) by (auto simp: arrival_def)
  with live_silent [of ps junk "if e then [Rcv_data []] else []" io "w\<lparr>recvs := rs, sends := ss\<rparr>"] show ?thesis
    using assms(1) by (simp add: read_def calm_def)
qed

text \<open>Reading leaves what is to be sent alone.\<close>

definition same_out :: "msgio \<Rightarrow> world \<Rightarrow> msgio \<Rightarrow> world \<Rightarrow> bool" where
  "same_out io w io' w' \<longleftrightarrow> use_stdio io' = use_stdio io \<and> wbuffer io' = wbuffer io \<and> wire w' = wire w \<and> sends w' = sends w"

lemma malloc_out: "malloc w = (ok, w') \<Longrightarrow> wire w' = wire w \<and> sends w' = sends w"
  by (auto simp: malloc_def split: list.splits)

lemma read_out:
  assumes "\<not> use_stdio io" "read junk io w = (r, io', w')"
  shows "same_out io w io' w'"
proof -
  have tl: "take_line junk i ws io w = (r, io', w') \<Longrightarrow> same_out io w io' w'" for junk i ws io w r io' w'
    by (auto simp: take_line_def same_out_def Let_def dest: malloc_out split: if_splits prod.splits)
  have "read_loop junk evs io w = (r, io', w') \<Longrightarrow> same_out io w io' w'" for junk evs io w r io' w'
  proof (induction junk evs io w rule: read_loop.induct)
    case (4 junk d evs io w)
    then show ?case
      by (auto dest!: tl simp: Let_def same_out_def split: if_splits option.splits prod.splits)
  qed (auto simp: same_out_def)
  then show ?thesis using assms by (simp add: read_def)
qed

lemma send_calm:
  assumes "calm io w" "Snd_err \<notin> set (sends w)"
  shows "\<exists>ss. (let (io, w) = send_partial a io w in send b io w) =
      (io, (put_wire (line (a @ b)) w)\<lparr>sends := ss\<rparr>)"
    and "\<exists>ss. (let (io, w) = send_partial a io w; (io, w) = send_partial b io w in send d io w) =
      (io, (put_wire (line (a @ b @ d)) w)\<lparr>sends := ss\<rparr>)"
    and "\<exists>ss. send b io w = (io, (put_wire (line b) w)\<lparr>sends := ss\<rparr>)"
proof -
  have r: "socket_ready io w" using assms by (simp add: calm_def socket_ready_def)
  show "\<exists>ss. (let (io, w) = send_partial a io w in send b io w) = (io, (put_wire (line (a @ b)) w)\<lparr>sends := ss\<rparr>)"
    using send_message_socket [OF r, of "[a]" b] by (simp add: send_message_1)
  show "\<exists>ss. (let (io, w) = send_partial a io w; (io, w) = send_partial b io w in send d io w) =
      (io, (put_wire (line (a @ b @ d)) w)\<lparr>sends := ss\<rparr>)"
    using send_message_socket [OF r, of "[a, b]" d] by (simp add: send_message_2)
  show "\<exists>ss. send b io w = (io, (put_wire (line b) w)\<lparr>sends := ss\<rparr>)"
    using send_message_socket [OF r, of "[]" b] by (simp add: send_message_def)
qed

lemma sent_put [simp]: "socket_sent w ((put_wire t (w'\<lparr>recvs := r\<rparr>))\<lparr>sends := ss\<rparr>) = socket_sent w (put_wire t w')"
  by (simp add: socket_sent_def put_wire_def)

lemma sent_wire: "wire w' = wire w @ t \<Longrightarrow> socket_sent w w' = t"
  by (simp add: socket_sent_def)

lemma events_simps [simp]:
  "cl_io (c_events rs ss c) = cl_io c" "cl_shown (c_events rs ss c) = cl_shown c" "cl_calls (c_events rs ss c) = cl_calls c"
  "cl_world (c_events rs ss c) = (cl_world c)\<lparr>recvs := rs, sends := ss\<rparr>"
  "s_io (s_events rs ss st) = s_io st" "s_ias (s_events rs ss st) = s_ias st" "s_crypto (s_events rs ss st) = s_crypto st"
  "s_world (s_events rs ss st) = (s_world st)\<lparr>recvs := rs, sends := ss\<rparr>"
  by (simp_all add: c_events_def s_events_def)

section \<open>The moves of the server\<close>

lemma msg01_read:
  assumes "calm (s_io st) (s_world st)" "arrival (line m) e rs" "m \<noteq> []"
  shows "\<exists>rs'. received rs' = [] \<and> process_msg01 E cfg ses (s_events rs ss st) =
    (let (res, ias, s) = answer_msg01 E cfg ses m (s_ias st) (s_crypto st)
     in (res, (s_events rs' ss st)\<lparr>s_ias := ias, s_crypto := s\<rparr>))"
proof -
  obtain rs' where "received rs' = []" "read (e_junk E) (s_io st) ((s_world st)\<lparr>recvs := rs, sends := ss\<rparr>) =
      (Returned 1 (Some m) (Some (2 * length m)), s_io st, (s_world st)\<lparr>recvs := rs', sends := ss\<rparr>)"
    using read_line [OF assms] by blast
  then show ?thesis by (intro exI [of _ rs']) (simp add: process_msg01_def s_events_def)
qed

lemma msg3_read:
  assumes "calm (s_io st) (s_world st)" "arrival (line m) e rs" "m \<noteq> []"
  shows "\<exists>rs'. received rs' = [] \<and> read junk (s_io (s_events rs ss st)) (s_world (s_events rs ss st)) =
    (Returned 1 (Some m) (Some (2 * length m)), s_io st, (s_world st)\<lparr>recvs := rs', sends := ss\<rparr>)"
  using read_line [OF assms] by simp

text \<open>Message 2 is sent as one line; a session that ends has sent nothing.\<close>

lemma server_answers:
  assumes "calm (s_io st) (s_world st)" "arrival (line m) e rs" "m \<noteq> []" "Snd_err \<notin> set ss"
    and "answer_msg01 E cfg zero_session m (s_ias st) (s_crypto st) = (Done (Some (m1, m2, rl, ses)), ias, s)"
    and "unat (m2_sig_rl_size m2) \<le> length rl"
  shows "\<exists>st'. server_move E cfg (s_before rs ss (S_await01 st)) = S_await3 m1 ses st' \<and>
    calm (s_io st') (s_world st') \<and> received (recvs (s_world st')) = [] \<and> s_ias st' = ias \<and>
    socket_sent (s_world st) (s_world st') = line (msg2_bytes m2 @ take (unat (m2_sig_rl_size m2)) rl)"
proof -
  obtain rs' where p: "received rs' = []" "process_msg01 E cfg zero_session (s_events rs ss st) =
      (Done (Some (m1, m2, rl, ses)), (s_events rs' ss st)\<lparr>s_ias := ias, s_crypto := s\<rparr>)"
    using msg01_read [OF assms(1-3), of E cfg zero_session ss] assms(5) by auto
  have calm': "calm (s_io st) ((s_world st)\<lparr>recvs := rs', sends := ss\<rparr>)" using assms(1) by (simp add: calm_def)
  obtain ss' where "(let (io, w) = send_partial (msg2_bytes m2) (s_io st) ((s_world st)\<lparr>recvs := rs', sends := ss\<rparr>)
      in send (take (unat (m2_sig_rl_size m2)) rl) io w) =
      (s_io st, (put_wire (line (msg2_bytes m2 @ take (unat (m2_sig_rl_size m2)) rl)) ((s_world st)\<lparr>recvs := rs', sends := ss\<rparr>))\<lparr>sends := ss'\<rparr>)"
    using send_calm(1) [OF calm'] assms(4) by auto
  then show ?thesis
    using p assms(1,6) by (auto simp: put_wire_def calm_def socket_sent_def split: prod.splits)
qed

lemma server_msg01_moves:
  assumes "calm (s_io st) (s_world st)" "arrival (line m) e rs" "m \<noteq> []" "Snd_err \<notin> set ss"
    and "p = server_move E cfg (s_before rs ss (S_await01 st))"
  shows "(\<exists>m1 ses st' b. p = S_await3 m1 ses st' \<and> calm (s_io st') (s_world st') \<and> received (recvs (s_world st')) = [] \<and>
      b \<noteq> [] \<and> socket_sent (s_world st) (s_world st') = line b \<and>
      (\<exists>m2 rl ias s. answer_msg01 E cfg zero_session m (s_ias st) (s_crypto st) = (Done (Some (m1, m2, rl, ses)), ias, s))) \<or>
    (\<exists>r st'. p = S_end r None st' \<and> socket_sent (s_world st) (s_world st') = [])"
proof -
  obtain res ias s where a: "answer_msg01 E cfg zero_session m (s_ias st) (s_crypto st) = (res, ias, s)" by (rule prod_cases3)
  obtain rs' where m: "process_msg01 E cfg zero_session (s_events rs ss st) =
      (res, (s_events rs' ss st)\<lparr>s_ias := ias, s_crypto := s\<rparr>)"
    using msg01_read [OF assms(1-3), of E cfg zero_session ss] a by auto
  show ?thesis
  proof (cases "\<exists>m1 m2 rl ses. res = Done (Some (m1, m2, rl, ses)) \<and> unat (m2_sig_rl_size m2) \<le> length rl")
    case True
    then obtain m1 m2 rl ses where r: "res = Done (Some (m1, m2, rl, ses))" "unat (m2_sig_rl_size m2) \<le> length rl" by blast
    have "msg2_bytes m2 @ t \<noteq> []" for t by (simp add: msg2_bytes_def le32_def)
    with server_answers [OF assms(1-4) a [unfolded r(1)] r(2)] assms(5) a r(1) show ?thesis by blast
  next
    case False
    then show ?thesis using assms(5) m
      by (cases res) (auto simp: socket_sent_def split: option.splits prod.splits)
  qed
qed

definition trusting :: "msg4 \<Rightarrow> bool" where
  "trusting m4 \<longleftrightarrow> m4_status m4 = Trusted \<or> m4_status m4 = Trusted_ItsComplicated"

text \<open>What the server has sent after a decision, or without one.\<close>

definition announces :: "msg4 option \<Rightarrow> string \<Rightarrow> bool" where
  "announces d t \<longleftrightarrow> (case d of
       None \<Rightarrow> t = []
     | Some m4 \<Rightarrow> if trusting m4 then \<exists>b. t = line (le32 (status_value (m4_status m4)) @ b) else t = [])"

text \<open>What message 4 is when the enclave is trusted.\<close>

lemma send_msg4_line:
  assumes "\<not> use_stdio (s_io st)" "wbuffer (s_io st) = []" "Snd_err \<notin> set (sends (s_world st))" "trusting m4"
    and "send_msg4 E m4 ses st = (m4', ses', st')"
  shows "(\<exists>k. m4_ciphertext m4' = e_aes E k (to_bytes (take 16 greeting))) \<and>
    socket_sent (s_world st) (s_world st') = line (le32 (status_value (m4_status m4)) @ m4_pib m4 @ m4_ciphertext m4') \<and>
    s_io st' = s_io st \<and> mallocs (s_world st') = mallocs (s_world st) \<and> s_ias st' = s_ias st"
proof -
  have r: "socket_ready (s_io st) (s_world st)" using assms(1-3) by (simp add: socket_ready_def)
  obtain io1 w1 where sm: "send_message [le32 (status_value (m4_status m4)), m4_pib m4] (m4_ciphertext m4') (s_io st) (s_world st) = (io1, w1)"
    by (rule prod.exhaust)
  then have "s_world st' = w1 \<and> s_io st' = io1 \<and> s_ias st' = s_ias st \<and> (\<exists>k. m4_ciphertext m4' = e_aes E k (to_bytes (take 16 greeting)))"
    using assms(4,5) by (auto simp: send_msg4_def send_message_2 trusting_def Let_def split: prod.splits)
  moreover have "io1 = s_io st \<and> mallocs w1 = mallocs (s_world st) \<and> socket_sent (s_world st) w1 = line (le32 (status_value (m4_status m4)) @ m4_pib m4 @ m4_ciphertext m4')"
    using send_message_socket [OF r, of "[le32 (status_value (m4_status m4)), m4_pib m4]" "m4_ciphertext m4'"] sm
    by (auto simp: socket_sent_def put_wire_def)
  ultimately show ?thesis by simp
qed

lemma send_msg4_announces:
  assumes "\<not> use_stdio (s_io st)" "wbuffer (s_io st) = []" "Snd_err \<notin> set (sends (s_world st))"
    and "send_msg4 E m4 ses st = (m4', ses', st')"
  shows "announces (Some m4') (socket_sent (s_world st) (s_world st'))"
proof (cases "trusting m4")
  case True
  then have "trusting m4'" "m4_status m4' = m4_status m4" using send_msg4_status [OF assms(4)] by (simp_all add: trusting_def)
  then show ?thesis using send_msg4_line [OF assms(1-3) True assms(4)] by (auto simp: announces_def)
next
  case False
  then have "s_world st' = s_world st" "m4' = m4"
    using assms(1,2,4) by (auto simp: send_msg4_def send_partial_def trusting_def split: if_splits)
  then show ?thesis using False by (simp add: announces_def socket_sent_def)
qed

lemma server_msg3_moves:
  assumes "calm (s_io st) (s_world st)" "Snd_err \<notin> set ss" and "p = server_move E cfg (s_before rs ss (S_await3 m1 ses st))"
  shows "\<exists>r d st'. p = S_end r d st' \<and> announces d (socket_sent (s_world st) (s_world st')) \<and>
    (\<forall>m4. d = Some m4 \<longrightarrow> r = Done () \<and> (\<exists>st0 ses'. process_msg3 E cfg m1 ses st0 = (Done (Some (m4, ses')), st')))"
proof -
  let ?st = "s_events rs ss st"
  obtain rr io w where rd: "read (e_junk E) (s_io ?st) (s_world ?st) = (rr, io, w)" by (rule prod_cases3)
  have o: "use_stdio io = False" "wbuffer io = []" "wire w = wire (s_world st)" "sends w = ss"
    using read_out [OF _ rd] assms(1) by (auto simp: same_out_def calm_def)
  obtain res st1 where p3: "process_msg3 E cfg m1 ses ?st = (res, st1)" by (rule prod.exhaust)
  show ?thesis
  proof (cases "\<exists>m4 ses'. res = Done (Some (m4, ses'))")
    case True
    then obtain m4 ses' where r: "res = Done (Some (m4, ses'))" by blast
    obtain ias s m4' ses1 where sd: "send_msg4 E m4' ses1 (?st\<lparr>s_io := io, s_world := w, s_ias := ias, s_crypto := s\<rparr>) = (m4, ses', st1)"
      by (rule process_msg3_ok [OF p3 [unfolded r]]) (use rd in auto)
    have "announces (Some m4) (socket_sent w (s_world st1))" using send_msg4_announces [OF _ _ _ sd] o assms(2) by simp
    moreover have "socket_sent w (s_world st1) = socket_sent (s_world st) (s_world st1)" by (simp add: socket_sent_def o(3))
    ultimately show ?thesis using assms(3) p3 r by auto
  next
    case False
    then have "wire (s_world st1) = wire (s_world st)" using p3 rd o
      by (auto simp: process_msg3_def Let_def split: read_result.splits if_splits option.splits run.splits prod.splits)
    then show ?thesis using assms(3) p3 False
      by (cases res) (auto simp: announces_def socket_sent_def split: option.splits)
  qed
qed

section \<open>The moves of the client\<close>

definition msg01 :: "client_env \<Rightarrow> tcall list \<Rightarrow> 32 word \<Rightarrow> bytes" where
  "msg01 V tr ctx = le32 (snd (ce_gid V)) @ snd (ce_msg1 V tr ctx)"

lemma msg01_nonempty [simp]: "msg01 V tr ctx \<noteq> []"
  by (simp add: msg01_def le32_def)

definition fresh :: "client \<Rightarrow> bool" where
  "fresh c \<longleftrightarrow> calm (cl_io c) (cl_world c) \<and> cl_shown c = []"

lemma shown_leave: "leave V ctx e c = (r, c') \<Longrightarrow> cl_shown c' = cl_shown c"
  by (auto simp: leave_def delete_io_def close_context_def)

lemma receive_line:
  assumes "fresh c" "arrival (line m) e rs" "m \<noteq> []"
  shows "\<exists>rs'. received rs' = [] \<and> receive V ctx (c_events rs ss c) = (Inr m, c_events rs' ss c)"
proof -
  obtain rs' where "received rs' = []" "read (ce_junk V) (cl_io c) ((cl_world c)\<lparr>recvs := rs, sends := ss\<rparr>) =
      (Returned 1 (Some m) (Some (2 * length m)), cl_io c, (cl_world c)\<lparr>recvs := rs', sends := ss\<rparr>)"
    using read_line [OF _ assms(2,3)] assms(1) unfolding fresh_def by blast
  then show ?thesis by (intro exI [of _ rs']) (simp add: receive_def c_events_def)
qed

lemma receive_nothing:
  assumes "fresh c" "arrival [] e rs" "receive V ctx (c_events rs ss c) = (r, c')"
  shows "if e then (\<exists>x. r = Inl x \<and> x \<noteq> Waits) \<and> cl_shown c' = [] else r = Inl Waits"
proof -
  have "read (ce_junk V) (cl_io c) ((cl_world c)\<lparr>recvs := rs, sends := ss\<rparr>) =
      (if e then Returned 0 None (Some 0) else Blocked, cl_io c, (cl_world c)\<lparr>recvs := [], sends := ss\<rparr>)"
    using read_nothing [OF _ assms(2)] assms(1) unfolding fresh_def by blast
  then show ?thesis using assms(1,3)
    by (cases e) (auto simp: receive_def fresh_def leave_def delete_io_def close_context_def Let_def split: prod.splits)
qed

lemma init_frame:
  "init_context V cc c = (r, c') \<Longrightarrow> cl_io c' = cl_io c \<and> cl_world c' = cl_world c \<and> cl_shown c' = cl_shown c"
  by (auto simp: init_context_def Let_def split: if_splits prod.splits)

lemma client_first_move:
  assumes "fresh c" "arrival [] e rs" "Snd_err \<notin> set ss" "p = client_move V cc (c_before rs ss (C_begin c))"
  shows "(\<exists>ctx c' tr. p = C_await2 ctx c' \<and> fresh c' \<and> received (recvs (cl_world c')) = [] \<and>
      socket_sent (cl_world c) (cl_world c') = line (msg01 V tr ctx)) \<or> (\<exists>r c'. p = C_end r c' \<and> cl_shown c' = [])"
proof -
  obtain x c1 where i: "init_context V cc (c_events rs ss c) = (x, c1)" by (rule prod.exhaust)
  note f = init_frame [OF i]
  have rs: "received rs = []" using assms(2) by (auto simp: arrival_def received_eof)
  show ?thesis
  proof (cases x)
    case None
    then show ?thesis using assms(1,4) i f by (auto simp: fresh_def delete_io_def)
  next
    case (Some ctx)
    obtain st gid st1 m1 where g: "ce_gid V = (st, gid)" "ce_msg1 V (cl_calls c1) ctx = (st1, m1)" by fastforce
    show ?thesis
    proof (cases "st = SGX_SUCCESS \<and> st1 = SGX_SUCCESS")
      case True
      have "calm (cl_io c1) (cl_world c1)" using assms(1) f by (simp add: fresh_def calm_def)
      from send_calm(1) [OF this, of "le32 gid" m1] obtain ss' where
        "(let (io, w) = send_partial (le32 gid) (cl_io c1) (cl_world c1) in send m1 io w) =
         (cl_io c1, (put_wire (line (le32 gid @ m1)) (cl_world c1))\<lparr>sends := ss'\<rparr>)" using f assms(3) by auto
      then have "send_msg01 V ctx c1 =
          (True, c1\<lparr>cl_world := (put_wire (line (le32 gid @ m1)) (cl_world c1))\<lparr>sends := ss'\<rparr>\<rparr>)"
        using g True by (auto simp: send_msg01_def Let_def split: prod.splits)
      moreover have "le32 gid @ m1 = msg01 V (cl_calls c1) ctx" using g by (simp add: msg01_def)
      ultimately show ?thesis using assms(1,4) i Some f rs
        by (auto simp: fresh_def calm_def put_wire_def socket_sent_def)
    next
      case False
      then have "send_msg01 V ctx c1 = (False, c1)" using g by (auto simp: send_msg01_def Let_def)
      then show ?thesis using assms(1,4) i Some f
        by (auto simp: fresh_def Let_def dest: shown_leave split: prod.splits)
    qed
  qed
qed

lemma client_msg2_moves:
  assumes "fresh c" "t = [] \<or> (\<exists>m. m \<noteq> [] \<and> t = line m)" "arrival t e rs" "Snd_err \<notin> set ss"
    and "p = client_move V cc (c_before rs ss (C_await2 ctx c))" "\<forall>c'. p \<noteq> C_end Waits c'"
  shows "(\<exists>c'. p = C_await4 ctx c' \<and> t \<noteq> [] \<and> fresh c' \<and> received (recvs (cl_world c')) = []) \<or>
    (\<exists>r c'. p = C_end r c' \<and> cl_shown c' = [])"
proof (cases "t = []")
  case True
  obtain r c' where "receive V ctx (c_events rs ss c) = (r, c')" by (rule prod.exhaust)
  with receive_nothing [OF assms(1) assms(3) [unfolded True] this] show ?thesis
    using assms(5,6) by (cases e) auto
next
  case False
  then obtain m where m: "m \<noteq> []" "t = line m" using assms(2) by blast
  obtain rs' where r: "received rs' = []" "receive V ctx (c_events rs ss c) = (Inr m, c_events rs' ss c)"
    using receive_line [OF assms(1) assms(3) [unfolded m(2)] m(1)] by blast
  have f': "fresh (c_events rs' ss c)" using assms(1) by (simp add: fresh_def calm_def)
  show ?thesis
  proof (cases "\<exists>c'. answer_msg2 V ctx m (c_events rs' ss c) = (None, c')")
    case True
    then obtain c' m3 io w where c': "answer_msg2 V ctx m (c_events rs' ss c) = (None, c')"
      "c' = (c_events rs' ss c)\<lparr>cl_io := io, cl_world := w\<rparr>"
      "send m3 (cl_io c) ((cl_world c)\<lparr>recvs := rs', sends := ss\<rparr>) = (io, w)"
      by (auto simp: answer_msg2_def Let_def leave_def split: if_splits prod.splits)
    have "calm (cl_io c) ((cl_world c)\<lparr>recvs := rs', sends := ss\<rparr>)" using f' by (simp add: fresh_def)
    from send_calm(3) [OF this, of m3] c'(3) assms(4) obtain ss' where
      "io = cl_io c" "w = (put_wire (line m3) ((cl_world c)\<lparr>recvs := rs', sends := ss\<rparr>))\<lparr>sends := ss'\<rparr>" by auto
    then show ?thesis using assms(1,5) r c'(1,2) m
      by (auto simp: fresh_def calm_def put_wire_def)
  next
    case False
    then obtain x c' where a: "answer_msg2 V ctx m (c_events rs' ss c) = (Some x, c')"
      by (metis option.exhaust prod.exhaust)
    then have "cl_shown c' = []" using assms(1)
      by (auto simp: answer_msg2_def Let_def fresh_def dest: shown_leave split: if_splits prod.splits)
    then show ?thesis using assms(5) r a by auto
  qed
qed

text \<open>At the end a client shows a verdict only when one was announced, and then that one.\<close>

lemma msg4_verdict:
  assumes "process_msg4 V ctx (le32 st @ b) c = (r, c')" "cl_shown c = []"
  shows "cl_shown c' = [] \<or> (\<exists>t. cl_shown c' = verdict st # t)"
proof -
  have w: "word_le32 (le32 st @ b) = st" by (simp add: word_le32_append word_le32_le32)
  show ?thesis using assms unfolding process_msg4_def Let_def w
    by (auto simp: show_updates_def leave_def delete_io_def close_context_def split: if_splits prod.splits)
qed

lemma client_msg4_moves:
  assumes "fresh c" "announces d t" "arrival t e rs"
    and "p = client_move V cc (c_before rs ss (C_await4 ctx c))" "\<forall>c'. p \<noteq> C_end Waits c'"
  shows "\<exists>r c'. p = C_end r c' \<and> (cl_shown c' = [] \<or>
    (\<exists>m4 u. d = Some m4 \<and> trusting m4 \<and> cl_shown c' = verdict (status_value (m4_status m4)) # u))"
proof (cases "t = []")
  case True
  obtain r c' where "receive V ctx (c_events rs ss c) = (r, c')" by (rule prod.exhaust)
  with receive_nothing [OF assms(1) assms(3) [unfolded True] this] show ?thesis
    using assms(4,5) by (cases e) auto
next
  case False
  then obtain m4 b where d: "d = Some m4" "trusting m4" "t = line (le32 (status_value (m4_status m4)) @ b)"
    using assms(2) by (auto simp: announces_def split: option.splits if_splits)
  let ?m = "le32 (status_value (m4_status m4)) @ b"
  have "?m \<noteq> []" by (simp add: le32_def)
  then obtain rs' where r: "receive V ctx (c_events rs ss c) = (Inr ?m, c_events rs' ss c)"
    using receive_line [OF assms(1) assms(3) [unfolded d(3)]] by blast
  obtain x c' where p: "process_msg4 V ctx ?m (c_events rs' ss c) = (x, c')" by (rule prod.exhaust)
  from msg4_verdict [OF p] assms(1) d(1,2) show ?thesis
    using assms(4) r p by (auto simp: fresh_def)
qed

text \<open>
  Message 4 carries nothing that authenticates it: a client that waits for it believes any line that
  says so, whoever has sent it. What follows rests on the channels.
\<close>

lemma client_believes:
  assumes "fresh c" "\<forall>tr. ce_ecall V tr = SGX_SUCCESS" "v = Trusted \<or> v = Trusted_ItsComplicated"
    and "length pib = ce_pib_size V" "length ct = 16" "arrival (line (le32 (status_value v) @ pib @ ct)) e rs"
  shows "\<exists>c' u. client_move V cc (c_before rs ss (C_await4 ctx c)) = C_end (Done (Returns 0)) c' \<and>
    cl_shown c' = verdict (status_value v) # u"
proof -
  let ?b = "le32 (status_value v) @ pib @ ct"
  have "?b \<noteq> []" by (simp add: le32_def)
  then obtain rs' where r: "receive V ctx (c_events rs ss c) = (Inr ?b, c_events rs' ss c)"
    using receive_line [OF assms(1,6)] by blast
  obtain c' u where "process_msg4 V ctx ?b (c_events rs' ss c) = (Done (Returns 0), c')" "cl_shown c' = verdict (status_value v) # u"
    using msg4_shown [OF assms(2-5), of ctx "c_events rs' ss c"] assms(1) by (auto simp: fresh_def)
  then show ?thesis using r by auto
qed

section \<open>Agreement\<close>

text \<open>
  The session that a message 1 of this client has opened, and a decision of the server in it.
\<close>

definition opened :: "client_env \<Rightarrow> sp_env \<Rightarrow> config \<Rightarrow> 32 word \<Rightarrow> msg1 \<Rightarrow> ra_session \<Rightarrow> bool" where
  "opened V E cfg ctx m1 ses \<longleftrightarrow> (\<exists>tr m2 rl ias s ias' s'.
     answer_msg01 E cfg zero_session (msg01 V tr ctx) ias s = (Done (Some (m1, m2, rl, ses)), ias', s'))"

definition decided :: "client_env \<Rightarrow> sp_env \<Rightarrow> config \<Rightarrow> 32 word \<Rightarrow> msg4 \<Rightarrow> sp_state \<Rightarrow> bool" where
  "decided V E cfg ctx m4 st \<longleftrightarrow> (\<exists>m1 ses st0 ses'. opened V E cfg ctx m1 ses \<and>
     process_msg3 E cfg m1 ses st0 = (Done (Some (m4, ses')), st))"

definition agreement :: "client_env \<Rightarrow> sp_env \<Rightarrow> config \<Rightarrow> net \<Rightarrow> bool" where
  "agreement V E cfg n \<longleftrightarrow> (case n_client n of
       C_begin c \<Rightarrow> fresh c \<and> to_client n = [] \<and> to_server n = [] \<and>
         (\<exists>st. n_server n = S_await01 st \<and> calm (s_io st) (s_world st))
     | C_await2 ctx c \<Rightarrow> fresh c \<and> (case n_server n of
           S_await01 st \<Rightarrow> calm (s_io st) (s_world st) \<and> to_client n = [] \<and> (\<exists>tr. to_server n = line (msg01 V tr ctx))
         | S_await3 m1 ses st \<Rightarrow> calm (s_io st) (s_world st) \<and> opened V E cfg ctx m1 ses \<and> to_server n = [] \<and>
             (\<exists>m. m \<noteq> [] \<and> to_client n = line m)
         | S_end r d st \<Rightarrow> d = None \<and> to_client n = [])
     | C_await4 ctx c \<Rightarrow> fresh c \<and> (case n_server n of
           S_await01 st \<Rightarrow> False
         | S_await3 m1 ses st \<Rightarrow> calm (s_io st) (s_world st) \<and> opened V E cfg ctx m1 ses \<and> to_client n = []
         | S_end r d st \<Rightarrow> announces d (to_client n) \<and>
             (\<forall>m4. d = Some m4 \<longrightarrow> r = Done () \<and> decided V E cfg ctx m4 st))
     | C_end r c \<Rightarrow> cl_shown c = [] \<or>
         (\<exists>m4 st u ctx. n_server n = S_end (Done ()) (Some m4) st \<and> trusting m4 \<and> decided V E cfg ctx m4 st \<and>
            cl_shown c = verdict (status_value (m4_status m4)) # u))"

lemma server_msg3_waits:
  assumes "calm (s_io st) (s_world st)" "arrival [] False rs"
  shows "\<exists>st'. server_move E cfg (s_before rs ss (S_await3 m1 ses st)) = S_end Waits None st'"
  using read_nothing [OF assms] by (simp add: process_msg3_def)

lemma agreement_step:
  assumes "net_step V cc E cfg n n'" "agreement V E cfg n"
  shows "agreement V E cfg n'"
  using assms(1)
proof cases
  case (client rs ss p)
  note inv = assms(2) [unfolded agreement_def]
  show ?thesis
  proof (cases "n_client n")
    case (C_begin c)
    then obtain st where f: "fresh c" "to_client n = []" "to_server n = []" "n_server n = S_await01 st"
      "calm (s_io st) (s_world st)" using inv by auto
    from client_first_move [OF f(1) _ client(4)] show ?thesis
      using client(1,3,5) C_begin f(2-5) by (fastforce simp: agreement_def)
  next
    case (C_await2 ctx c)
    then have t: "to_client n = [] \<or> (\<exists>m. m \<noteq> [] \<and> to_client n = line m)" "fresh c"
      using inv by (auto split: sphase.splits)
    from client_msg2_moves [OF t(2,1) client(3,4)] show ?thesis
      using client(1,5,6) C_await2 inv by (fastforce simp: agreement_def split: sphase.splits)
  next
    case (C_await4 ctx c)
    show ?thesis
    proof (cases "n_server n")
      case (S_end r d st)
      then have a: "fresh c" "announces d (to_client n)" "\<forall>m4. d = Some m4 \<longrightarrow> r = Done () \<and> decided V E cfg ctx m4 st"
        using inv C_await4 by auto
      from client_msg4_moves [OF a(1,2) client(3), of p V cc ss ctx] show ?thesis
        using client(1,5,6) C_await4 S_end a(3) by (auto 0 3 simp: agreement_def)
    next
      case (S_await3 m1 ses st)
      then have a: "fresh c" "announces None (to_client n)" using inv C_await4 by (auto simp: announces_def)
      from client_msg4_moves [OF a client(3), of p V cc ss ctx] show ?thesis
        using client(1,5,6) C_await4 by (auto simp: agreement_def)
    qed (use inv C_await4 in auto)
  qed (use client(2) in simp)
next
  case (server rs ss p)
  note inv = assms(2) [unfolded agreement_def]
  show ?thesis
  proof (cases "n_client n")
    case (C_begin c)
    then obtain st where f: "fresh c" "to_client n = []" "to_server n = []" "n_server n = S_await01 st"
      "calm (s_io st) (s_world st)" using inv by auto
    have "arrival [] False rs" using server(3) C_begin f(3) by simp
    from read_nothing [OF f(5) this] have "\<exists>st'. p = S_end Waits None st'"
      using server(5) f(4) by (simp add: process_msg01_def)
    then show ?thesis using server(6) by blast
  next
    case (C_await2 ctx c)
    show ?thesis
    proof (cases "n_server n")
      case (S_await01 st)
      then obtain tr where m: "fresh c" "calm (s_io st) (s_world st)" "to_client n = []" "to_server n = line (msg01 V tr ctx)"
        using inv C_await2 by auto
      from server_msg01_moves [OF m(2) server(3) [unfolded m(4)] msg01_nonempty server(4), of p E cfg] show ?thesis
        using server(1,5) C_await2 S_await01 m(1,3) by (fastforce simp: agreement_def opened_def)
    next
      case (S_await3 m1 ses st)
      then have "arrival [] False rs" "calm (s_io st) (s_world st)" using server(3) inv C_await2 by auto
      from server_msg3_waits [OF this(2,1)] show ?thesis using server(5,6) S_await3 by metis
    qed (use server(2) in simp)
  next
    case (C_await4 ctx c)
    then obtain m1 ses st where s: "n_server n = S_await3 m1 ses st" "calm (s_io st) (s_world st)" "to_client n = []" "fresh c"
      "opened V E cfg ctx m1 ses" using inv server(2) by (cases "n_server n") auto
    from server_msg3_moves [OF s(2) server(4), of p E cfg rs m1 ses] show ?thesis
      using server(1,5) C_await4 s by (auto simp: agreement_def decided_def) blast
  next
    case (C_end r c)
    then have "cl_shown c = []" using inv server(2) by auto
    then show ?thesis using server(1) C_end by (simp add: agreement_def)
  qed
qed

lemma agreement_reachable:
  assumes "net_reachable V cc E cfg n0 n" "connected c st n0"
  shows "agreement V E cfg n"
  using assms(1)
proof induction
  case start
  then show ?case using assms(2) by (simp add: connected_def agreement_def fresh_def)
qed (rule agreement_step)

text \<open>What lies behind a verdict that is shown.\<close>

lemma shown_verified:
  assumes "\<forall>n. ret (e_lib E) n = 1"
    and "connected c st n0" and "net_reachable V cc E cfg n0 n" and "n_client n = C_end r c'" and "cl_shown c' \<noteq> []"
  shows "\<exists>m4 st' u ctx m1 ses b k b64 ias s ias' s' answer messages j.
     n_server n = S_end (Done ()) (Some m4) st' \<and> trusting m4 \<and> cl_shown c' = verdict (status_value (m4_status m4)) # u \<and>
     opened V E cfg ctx m1 ses \<and> msg3_genuine E cfg ses m1 b k \<and>
     base64_encode (e_bio E) (e_alloc_quote E) (field b (e_msg3_size E) k) = Some b64 \<and>
     report (e_lib E) (e_bio E) (e_allocs_report E) (e_agent E) (ucast (apiver cfg))
       [(''isvEnclaveQuote'', b64)] [] [] ias s = (IAS_OK, answer, messages, ias', s') \<and>
     load answer = J_ok j \<and>
     m4_status m4 = ias_decision (strict_trust cfg) (to_string (snd (at_key ''isvEnclaveQuoteStatus'' j))) \<and>
     verify_enclave_identity (e_debug_mask E) (req_mrsigner cfg) (req_isv_product_id cfg) (min_isvsvn cfg)
       (allow_debug_enclave cfg)
       (e_body_of E (field (field b (e_msg3_size E) k) (e_body_off E) (e_body_size E)))"
proof -
  obtain m4 st' u ctx where d: "n_server n = S_end (Done ()) (Some m4) st'" "trusting m4" "decided V E cfg ctx m4 st'"
    "cl_shown c' = verdict (status_value (m4_status m4)) # u"
    using agreement_reachable [OF assms(3,2)] assms(4,5) by (auto simp: agreement_def)
  then obtain m1 ses st0 ses' where o: "opened V E cfg ctx m1 ses"
    "process_msg3 E cfg m1 ses st0 = (Done (Some (m4, ses')), st')" by (auto simp: decided_def)
  from trusted_verified [OF assms(1) o(2) d(2) [unfolded trusting_def]] d o(1) show ?thesis by blast
qed

end
