(* ===== verification/Attestation_Run.thy ===== *)
theory Attestation_Run
  imports Network Trust_Chain
begin

text \<open>
  An attestation over the network of the two programs. The conditions under which it has to succeed, as
  promises of the libraries, the attestation service and the SGX SDK; its stages; that it passes
  through them to its end, whatever the pieces in which the messages arrive; and a sample
  instance, in which all conditions hold.
\<close>

section \<open>A genuine setting\<close>

text \<open>
  What has to be there for an attestation to succeed. The library does what it is asked; the keys
  it makes have their points; the service provider has its key and its identifier.
\<close>

definition provider_works :: "sp_env \<Rightarrow> config \<Rightarrow> bool" where
  "provider_works E cfg \<longleftrightarrow>
     (\<forall>n. ret (e_lib E) n = 1) \<and> lib_typed (e_lib E) \<and>
     (\<forall>n. has_ec (keygen (e_lib E) n) \<and> pub (keygen (e_lib E) n) \<noteq> None) \<and>
     (\<exists>key. service_private_key cfg = Some key \<and> has_ec key) \<and> length (spid cfg) = 16 \<and>
     (\<forall>k. length (e_aes E k (to_bytes (take 16 greeting))) = 16) \<and> 80 \<le> e_msg3_size E"

text \<open>
  The attestation service has a revocation list for every group, and a report on every quote,
  which the policy turns into the status and the blob of \<open>m4\<close>.
\<close>

definition service_answers :: "sp_env \<Rightarrow> config \<Rightarrow> conn \<Rightarrow> msg4 \<Rightarrow> bool" where
  "service_answers E cfg ias m4 \<longleftrightarrow>
     (\<forall>gid. \<exists>rl sz ias'. get_sigrl E (apiver cfg) gid ias = (Some (rl, sz), ias') \<and>
        unat sz \<le> length rl \<and> unat sz + 168 < 2 ^ 32 \<and>
        (\<forall>b64. \<exists>ias''. \<forall>s. \<exists>s'. get_attestation_report E (verbose cfg) (apiver cfg) b64 (strict_trust cfg) ias' s =
           (Done (Some m4), ias'', s')))"

text \<open>The client's calls of its enclave and of the untrusted library up to message 1 go through.\<close>

definition client_works :: "client_env \<Rightarrow> client_config \<Rightarrow> sp_env \<Rightarrow> client \<Rightarrow> bool" where
  "client_works V cc E c \<longleftrightarrow>
     (\<forall>w. fst (init_context V cc (c\<lparr>cl_world := w\<rparr>)) \<noteq> None) \<and>
     (\<forall>tr. ce_ecall V tr = SGX_SUCCESS) \<and> ce_gid V = (SGX_SUCCESS, 0) \<and>
     (\<forall>tr ctx. fst (ce_msg1 V tr ctx) = SGX_SUCCESS \<and> length (snd (ce_msg1 V tr ctx)) = 68 \<and>
        on_curve (e_lib E) (lebin2bn (e_lib E) (take 32 (snd (ce_msg1 V tr ctx))),
          lebin2bn (e_lib E) (take 32 (drop 32 (snd (ce_msg1 V tr ctx))))))"

text \<open>
  What \<open>sgx_ra_proc_msg2\<close> promises for a message 2 that follows the protocol: a message 3 that is
  genuine for the session, with a quote of \<open>k\<close> bytes of the enclave that the service provider expects.
\<close>

definition quote_for :: "sp_env \<Rightarrow> config \<Rightarrow> ra_session \<Rightarrow> msg1 \<Rightarrow> nat \<Rightarrow> bytes \<Rightarrow> bool" where
  "quote_for E cfg ses m1 k b \<longleftrightarrow>
     msg3_genuine E cfg ses m1 b k \<and> length b = e_msg3_size E + k \<and> k < 2 ^ 32 \<and> e_gid_off E + 4 \<le> k \<and>
     (e_body_off E + e_body_size E \<le> k \<and> (verbose cfg \<longrightarrow> signature_shown E (field b (e_msg3_size E) k) \<noteq> None)) \<and>
     base64_encode (e_bio E) (e_alloc_quote E) (field b (e_msg3_size E) k) \<noteq> None \<and>
     verify_enclave_identity (e_debug_mask E) (req_mrsigner cfg) (req_isv_product_id cfg) (min_isvsvn cfg)
       (allow_debug_enclave cfg) (e_body_of E (field (field b (e_msg3_size E) k) (e_body_off E) (e_body_size E)))"

definition sdk_answers :: "client_env \<Rightarrow> sp_env \<Rightarrow> config \<Rightarrow> nat \<Rightarrow> bool" where
  "sdk_answers V E cfg k \<longleftrightarrow>
     (\<forall>tr tr' ctx key Gb m1 m2 ses t. service_private_key cfg = Some key \<longrightarrow>
        m1_g_a m1 @ m1_gid m1 = snd (ce_msg1 V tr ctx) \<longrightarrow> session_typed ses \<longrightarrow>
        msg2_for (e_lib E) cfg key Gb m1 m2 ses \<longrightarrow> length t = unat (m2_sig_rl_size m2) \<longrightarrow>
        (\<exists>m3. ce_proc_msg2 V tr' ctx (msg2_bytes m2 @ t) (168 + m2_sig_rl_size m2) = (SGX_SUCCESS, m3) \<and>
           quote_for E cfg ses m1 k m3))"

definition genuine_setting ::
    "client_env \<Rightarrow> client_config \<Rightarrow> sp_env \<Rightarrow> config \<Rightarrow> client \<Rightarrow> sp_state \<Rightarrow> nat \<Rightarrow> msg4 \<Rightarrow> bool" where
  "genuine_setting V cc E cfg c st k m4 \<longleftrightarrow>
     provider_works E cfg \<and> service_answers E cfg (s_ias st) m4 \<and> client_works V cc E c \<and> sdk_answers V E cfg k \<and>
     trusting m4 \<and> length (m4_pib m4) = ce_pib_size V"

section \<open>The stages of an attestation\<close>

lemma derive_kdk_complete:
  "\<forall>n. ret L n = 1 \<Longrightarrow> on_curve L (lebin2bn L (take 32 ga), lebin2bn L (drop 32 ga)) \<Longrightarrow>
     \<exists>k s'. derive_kdk L Gb k0 ga s = (True, k, s')"
  by (simp add: derive_kdk_def key_from_sgx_ec256_def key_shared_secret_def cmac128_def crypto_simps)

lemma answer_msg01_complete:
  assumes "provider_works E cfg" "word_le32 b = 0" "72 \<le> length b"
    and "on_curve (e_lib E) (lebin2bn (e_lib E) (take 32 (field b 4 64)), lebin2bn (e_lib E) (drop 32 (field b 4 64)))"
    and "get_sigrl E (apiver cfg) (field b 68 4) ias = (Some (rl, sz), ias')"
  shows "\<exists>m1 m2 ses' s'. answer_msg01 E cfg ses b ias s = (Done (Some (m1, m2, rl, ses')), ias', s') \<and>
    m2_sig_rl_size m2 = sz"
proof -
  let ?L = "e_lib E"
  have L: "\<forall>n. ret ?L n = 1" using assms(1) by (simp add: provider_works_def)
  obtain key where key: "service_private_key cfg = Some key" using assms(1) by (auto simp: provider_works_def)
  obtain n s1 where kg: "key_generate ?L s = (Some (keygen ?L n), s1)" using key_generate_ok [OF L] by blast
  obtain k s2 where dk: "derive_kdk ?L (keygen ?L n) (kdk ses) (field b 4 64) s1 = (True, k, s2)"
    using derive_kdk_complete [OF L assms(4)] by blast
  show ?thesis
    using assms(2,3,5) key
    by (auto simp: answer_msg01_def kg dk Let_def split: prod.split)
qed

text \<open>What a session that went well leaves of the state of the server: nothing in the buffers.\<close>

definition ready_again :: "sp_state \<Rightarrow> sp_state \<Rightarrow> bool" where
  "ready_again st st' \<longleftrightarrow> calm (s_io st') (s_world st') \<and> stable (s_ias st) (s_ias st')"

text \<open>Between the messages, in order; \<open>key\<close> is the key of the service provider.\<close>

inductive stage ::
    "client_env \<Rightarrow> sp_env \<Rightarrow> config \<Rightarrow> client \<Rightarrow> sp_state \<Rightarrow> nat \<Rightarrow> msg4 \<Rightarrow> nat \<Rightarrow> net \<Rightarrow> bool"
  for V E cfg c st k m4 where
  stage0: "connected c st n \<Longrightarrow> stage V E cfg c st k m4 0 n"
| stage1: "n_client n = C_await2 ctx cl \<Longrightarrow> fresh cl \<Longrightarrow> n_server n = S_await01 st \<Longrightarrow>
    calm (s_io st) (s_world st) \<Longrightarrow>
    to_server n = line (msg01 V tr ctx) \<Longrightarrow> to_client n = [] \<Longrightarrow> stage V E cfg c st k m4 1 n"
| stage2: "n_client n = C_await2 ctx cl \<Longrightarrow> fresh cl \<Longrightarrow> n_server n = S_await3 m1 ses sv \<Longrightarrow>
    calm (s_io sv) (s_world sv) \<Longrightarrow> get_sigrl E (apiver cfg) gid (s_ias st) = (Some (rl, sz), s_ias sv) \<Longrightarrow>
    m1_g_a m1 @ m1_gid m1 = snd (ce_msg1 V tr ctx) \<Longrightarrow> service_private_key cfg = Some key \<Longrightarrow>
    msg2_for (e_lib E) cfg key Gb m1 m2 ses \<Longrightarrow> msg2_typed m2 \<Longrightarrow> session_typed ses \<Longrightarrow>
    unat (m2_sig_rl_size m2) + 168 < 2 ^ 32 \<Longrightarrow> length t = unat (m2_sig_rl_size m2) \<Longrightarrow>
    to_server n = [] \<Longrightarrow> to_client n = line (msg2_bytes m2 @ t) \<Longrightarrow> stage V E cfg c st k m4 2 n"
| stage3: "n_client n = C_await4 ctx cl \<Longrightarrow> fresh cl \<Longrightarrow> n_server n = S_await3 m1 ses sv \<Longrightarrow>
    calm (s_io sv) (s_world sv) \<Longrightarrow> get_sigrl E (apiver cfg) gid (s_ias st) = (Some (rl, sz), s_ias sv) \<Longrightarrow>
    quote_for E cfg ses m1 k b \<Longrightarrow> to_server n = line b \<Longrightarrow> to_client n = [] \<Longrightarrow> stage V E cfg c st k m4 3 n"
| stage4: "n_client n = C_await4 ctx cl \<Longrightarrow> fresh cl \<Longrightarrow> n_server n = S_end (Done ()) (Some m4') sv \<Longrightarrow>
    ready_again st sv \<Longrightarrow> m4_status m4' = m4_status m4 \<Longrightarrow> length pib = ce_pib_size V \<Longrightarrow> length ct = 16 \<Longrightarrow>
    to_client n = line (le32 (status_value (m4_status m4)) @ pib @ ct) \<Longrightarrow> stage V E cfg c st k m4 4 n"
| stage5: "n_client n = C_end (Done (Returns 0)) cl \<Longrightarrow> cl_shown cl = verdict (status_value (m4_status m4)) # u \<Longrightarrow>
    n_server n = S_end (Done ()) (Some m4') sv \<Longrightarrow> ready_again st sv \<Longrightarrow> m4_status m4' = m4_status m4 \<Longrightarrow> stage V E cfg c st k m4 5 n"

text \<open>A move of the process whose turn it is leads to the next stage.\<close>

lemma stage0_moves:
  assumes "genuine_setting V cc E cfg c st k m4" "connected c st n"
    and "arrival (to_client n) (s_ended (n_server n)) rs" "Snd_err \<notin> set ss"
  shows "stage V E cfg c st k m4 1 (client_turn n (client_move V cc (c_before rs ss (n_client n))))"
proof -
  have n: "n = \<lparr>n_client = C_begin c, n_server = S_await01 st, to_server = [], to_client = []\<rparr>" "fresh c"
    "calm (s_io st) (s_world st)" using assms(2) by (simp_all add: connected_def fresh_def)
  have w: "client_works V cc E c" using assms(1) by (simp add: genuine_setting_def)
  let ?p = "client_move V cc (c_before rs ss (C_begin c))"
  have "arrival [] False rs" using assms(3) n(1) by simp
  note b = client_first_move [OF n(2) this assms(4) refl, of V cc]
  have "\<exists>ctx c1. init_context V cc (c_events rs ss c) = (Some ctx, c1)"
    using w by (simp add: client_works_def c_events_def) (metis option.exhaust prod.exhaust_sel)
  then have "\<not> c_ended ?p" using w by (auto simp: client_works_def send_msg01_def Let_def case_prod_beta)
  then obtain ctx c' tr where "?p = C_await2 ctx c'" "fresh c'" "received (recvs (cl_world c')) = []"
    "socket_sent (cl_world c) (cl_world c') = line (msg01 V tr ctx)" using b by fastforce
  then show ?thesis using n by (intro stage.intros(2) [where ctx = ctx and tr = tr]) auto
qed

lemma stage1_moves:
  assumes "genuine_setting V cc E cfg c st k m4" "n_client n = C_await2 ctx c1" "fresh c1" "n_server n = S_await01 st"
    and "calm (s_io st) (s_world st)" "to_server n = line (msg01 V tr ctx)" "to_client n = []"
    and "arrival (to_server n) (c_ended (n_client n)) rs" "Snd_err \<notin> set ss"
  shows "stage V E cfg c st k m4 2 (server_turn n (server_move E cfg (s_before rs ss (n_server n))))"
proof -
  have w: "provider_works E cfg" "service_answers E cfg (s_ias st) m4" "client_works V cc E c"
    using assms(1) by (simp_all add: genuine_setting_def)
  let ?m1 = "snd (ce_msg1 V tr ctx)" and ?b = "msg01 V tr ctx"
  have m1: "length ?m1 = 68" "snd (ce_gid V) = 0"
    "on_curve (e_lib E) (lebin2bn (e_lib E) (take 32 ?m1), lebin2bn (e_lib E) (take 32 (drop 32 ?m1)))"
    using w(3) by (simp_all add: client_works_def)
  have b: "word_le32 ?b = 0" "72 \<le> length ?b" "field ?b 4 64 = take 64 ?m1" "?b = le32 0 @ ?m1"
    using m1(1,2) field_append [of "le32 0" ?m1 0 64]
    by (simp_all add: msg01_def word_le32_append word_le32_le32 field_def)
  obtain rl sz ias' where sig: "get_sigrl E (apiver cfg) (field ?b 68 4) (s_ias st) = (Some (rl, sz), ias')"
    "unat sz \<le> length rl" "unat sz + 168 < 2 ^ 32" using w(2) unfolding service_answers_def by blast
  have "on_curve (e_lib E) (lebin2bn (e_lib E) (take 32 (field ?b 4 64)), lebin2bn (e_lib E) (drop 32 (field ?b 4 64)))"
    using m1(3) b(3) by (simp add: drop_take)
  from answer_msg01_complete [OF w(1) b(1,2) this sig(1)] obtain m1 m2 ses s' where
    a: "answer_msg01 E cfg zero_session ?b (s_ias st) (s_crypto st) = (Done (Some (m1, m2, rl, ses)), ias', s')"
      "m2_sig_rl_size m2 = sz" by blast
  let ?t = "take (unat sz) rl"
  from server_answers [OF assms(5) assms(8) [unfolded assms(6)] msg01_nonempty assms(9) a(1)] a(2) sig(2) obtain st' where
    st': "server_move E cfg (s_before rs ss (S_await01 st)) = S_await3 m1 ses st'" "calm (s_io st') (s_world st')"
      "received (recvs (s_world st')) = []" "s_ias st' = ias'"
      "socket_sent (s_world st) (s_world st') = line (msg2_bytes m2 @ ?t)" by blast
  have p: "\<forall>n. ret (e_lib E) n = 1" "\<forall>n. has_ec (keygen (e_lib E) n) \<and> pub (keygen (e_lib E) n) \<noteq> None"
    "lib_typed (e_lib E)" "length (spid cfg) = 16" using w(1) by (simp_all add: provider_works_def)
  obtain key where key: "service_private_key cfg = Some key" "has_ec key" using w(1) by (auto simp: provider_works_def)
  obtain i where m2: "msg2_for (e_lib E) cfg key (keygen (e_lib E) i) m1 m2 ses"
    using session_keys_of_protocol [OF p(1,2) key a(1)] by blast
  have t: "msg2_typed m2" "session_typed ses" using answer_msg01_typed [OF p(3,4) zero_session_typed a(1)] by simp_all
  have "m1_g_a m1 @ m1_gid m1 = ?m1"
    using answer_from_client(2) [OF m1(1) a(1) [unfolded b(4)]] by simp
  then show ?thesis
    using assms(2-4,7) st' sig key(1) m2 t a(2)
    by (intro stage.intros(3) [where ctx = ctx and tr = tr and rl = rl and t = ?t and gid = "field ?b 68 4"]) auto
qed

lemma stage2_moves:
  assumes "genuine_setting V cc E cfg c st k m4" "n_client n = C_await2 ctx c1" "fresh c1" "n_server n = S_await3 m1 ses st1"
    and "calm (s_io st1) (s_world st1)" "get_sigrl E (apiver cfg) gid (s_ias st) = (Some (rl, sz), s_ias st1)"
    and "m1_g_a m1 @ m1_gid m1 = snd (ce_msg1 V tr ctx)" "service_private_key cfg = Some key"
    and "msg2_for (e_lib E) cfg key Gb m1 m2 ses" "msg2_typed m2" "session_typed ses"
    and "unat (m2_sig_rl_size m2) + 168 < 2 ^ 32" "length t = unat (m2_sig_rl_size m2)"
    and "to_server n = []" "to_client n = line (msg2_bytes m2 @ t)"
    and "arrival (to_client n) (s_ended (n_server n)) rs" "Snd_err \<notin> set ss"
  shows "stage V E cfg c st k m4 3 (client_turn n (client_move V cc (c_before rs ss (n_client n))))"
proof -
  let ?b = "msg2_bytes m2 @ t" and ?z = "m2_sig_rl_size m2"
  have len: "length (msg2_bytes m2) = 168" "length (msg2_a m2 @ m2_mac m2) = 164"
    using msg2_size [OF assms(10)] assms(10) by (simp_all add: msg2_typed_def)
  have "drop 164 ?b = le32 ?z @ t" using len(2) by (simp add: msg2_bytes_def)
  then have z: "word_le32 (drop 164 ?b) = ?z" by (simp add: word_le32_append word_le32_le32)
  have u: "unat (168 + ?z) = 168 + unat ?z"
    using assms(12) by (subst unat_plus_if') (simp add: unat_numeral)
  have ne: "?b \<noteq> []" using len(1) by auto
  obtain rs' where r: "received rs' = []" "receive V ctx (c_events rs ss c1) = (Inr ?b, c_events rs' ss c1)"
    using receive_line [OF assms(3) assms(16) [unfolded assms(15)] ne] by blast
  have "sdk_answers V E cfg k" "80 \<le> e_msg3_size E" using assms(1) by (simp_all add: genuine_setting_def provider_works_def)
  then obtain m3 where m3: "ce_proc_msg2 V (cl_calls c1) ctx ?b (168 + ?z) = (SGX_SUCCESS, m3)" "quote_for E cfg ses m1 k m3" "m3 \<noteq> []"
    using assms(7-9,11,13) unfolding sdk_answers_def by (fastforce simp: quote_for_def)
  have "calm (cl_io c1) ((cl_world c1)\<lparr>recvs := rs', sends := ss\<rparr>)" using assms(3) by (simp add: fresh_def calm_def)
  from send_calm(3) [OF this, of m3] assms(17) obtain ss' where
    "send m3 (cl_io c1) ((cl_world c1)\<lparr>recvs := rs', sends := ss\<rparr>) =
      (cl_io c1, (put_wire (line m3) ((cl_world c1)\<lparr>recvs := rs', sends := ss\<rparr>))\<lparr>sends := ss'\<rparr>)" by auto
  then have "answer_msg2 V ctx ?b (c_events rs' ss c1) = (None, (c_events rs' ss c1)
      \<lparr>cl_world := (put_wire (line m3) ((cl_world c1)\<lparr>recvs := rs', sends := ss\<rparr>))\<lparr>sends := ss'\<rparr>\<rparr>)"
    using m3(1) len(1) assms(13) z u by (simp add: answer_msg2_def Let_def c_events_def)
  then show ?thesis
    using assms(2-6,14,15) r m3(2)
    by (intro stage.intros(4) [where ctx = ctx and rl = rl and gid = gid and b = m3 and cl = "(c_events rs' ss c1)
        \<lparr>cl_world := (put_wire (line m3) ((cl_world c1)\<lparr>recvs := rs', sends := ss\<rparr>))\<lparr>sends := ss'\<rparr>\<rparr>"])
      (auto simp: fresh_def calm_def put_wire_def socket_sent_def)
qed

lemma stage3_moves:
  assumes "genuine_setting V cc E cfg c st k m4" "n_client n = C_await4 ctx c1" "fresh c1" "n_server n = S_await3 m1 ses st1"
    and "calm (s_io st1) (s_world st1)" "get_sigrl E (apiver cfg) gid (s_ias st) = (Some (rl, sz), s_ias st1)"
    and "quote_for E cfg ses m1 k b" "to_server n = line b" "to_client n = []"
    and "arrival (to_server n) (c_ended (n_client n)) rs" "Snd_err \<notin> set ss"
  shows "stage V E cfg c st k m4 4 (server_turn n (server_move E cfg (s_before rs ss (n_server n))))"
proof -
  have w: "provider_works E cfg" "service_answers E cfg (s_ias st) m4" "trusting m4" "length (m4_pib m4) = ce_pib_size V"
    using assms(1) by (simp_all add: genuine_setting_def)
  note p = w(1) [unfolded provider_works_def]
  let ?q = "field b (e_msg3_size E) k" and ?ses = "ses\<lparr>vk := cmac_aes (e_lib E) (kdk ses) label_VK\<rparr>"
  have q: "msg3_genuine E cfg ses m1 b k" "length b = e_msg3_size E + k" "k < 2 ^ 32" "e_gid_off E + 4 \<le> k"
    "e_body_off E + e_body_size E \<le> k \<and> (verbose cfg \<longrightarrow> signature_shown E ?q \<noteq> None)"
    "verify_enclave_identity (e_debug_mask E) (req_mrsigner cfg) (req_isv_product_id cfg) (min_isvsvn cfg)
       (allow_debug_enclave cfg) (e_body_of E (field ?q (e_body_off E) (e_body_size E)))"
    using assms(7) by (simp_all add: quote_for_def)
  obtain b64 where b64: "base64_encode (e_bio E) (e_alloc_quote E) ?q = Some b64" using assms(7) by (auto simp: quote_for_def)
  obtain ias'' where ar: "\<forall>s. \<exists>s'. get_attestation_report E (verbose cfg) (apiver cfg) b64 (strict_trust cfg) (s_ias st1) s =
      (Done (Some m4), ias'', s')"
    using w(2) assms(6) unfolding service_answers_def by (metis Pair_inject)
  have "b \<noteq> []" using q(2) p by auto
  from msg3_read [OF assms(5) assms(10) [unfolded assms(8)] this, of "e_junk E" ss] obtain rs' where
    rd: "read (e_junk E) (s_io (s_events rs ss st1)) (s_world (s_events rs ss st1)) =
      (Returned 1 (Some b) (Some (2 * length b)), s_io st1, (s_world st1)\<lparr>recvs := rs', sends := ss\<rparr>)" by blast
  obtain s' where ck: "check_msg3 E cfg ses m1 b (2 * length b) (s_ias st1) (s_crypto st1) = (Done (Some (m4, ?ses)), ias'', s')"
    using check_msg3_complete [OF _ q(1-3) _ q(4,5) b64 ar, of "s_crypto st1"] p q(6) by auto
  let ?st = "(s_events rs' ss st1)\<lparr>s_ias := ias'', s_crypto := s'\<rparr>"
  obtain m4' ses' st' where sd: "send_msg4 E m4 ?ses ?st = (m4', ses', st')" by (rule prod_cases3)
  have "process_msg3 E cfg m1 ses (s_events rs ss st1) = (Done (Some (m4', ses')), st')"
    unfolding process_msg3_def rd prod.case read_result.case Let_def option.case using ck sd by (simp add: s_events_def)
  moreover have "\<not> use_stdio (s_io ?st)" "wbuffer (s_io ?st) = []" "Snd_err \<notin> set (sends (s_world ?st))"
    using assms(5,11) by (simp_all add: calm_def)
  note sent = send_msg4_line [OF this w(3) sd]
  note sent send_msg4_status [OF sd]
  moreover have "stable (s_ias st) ias''"
    using ar stable_attestation stable_trans [OF stable_get_sigrl [OF assms(6)]] by blast
  then have "ready_again st st'" using sent assms(5) by (simp add: ready_again_def calm_def)
  moreover note calculation
  moreover have "socket_sent (s_world ?st) (s_world st') = socket_sent (s_world st1) (s_world st')"
    by (simp add: socket_sent_def)
  ultimately show ?thesis using assms(2-4,9) w(4) p
    by (intro stage.intros(5) [where ctx = ctx and pib = "m4_pib m4" and ct = "m4_ciphertext m4'" and m4' = m4']) auto
qed

lemma stage4_moves:
  assumes "genuine_setting V cc E cfg c st k m4" "n_client n = C_await4 ctx c1" "fresh c1"
    and "n_server n = S_end (Done ()) (Some m4') st1" "ready_again st st1"
    and "m4_status m4' = m4_status m4" "length pib = ce_pib_size V" "length ct = 16"
    and "to_client n = line (le32 (status_value (m4_status m4)) @ pib @ ct)"
    and "arrival (to_client n) (s_ended (n_server n)) rs"
  shows "stage V E cfg c st k m4 5 (client_turn n (client_move V cc (c_before rs ss (n_client n))))"
proof -
  have e: "\<forall>tr. ce_ecall V tr = SGX_SUCCESS" "m4_status m4 = Trusted \<or> m4_status m4 = Trusted_ItsComplicated"
    using assms(1) by (simp_all add: genuine_setting_def client_works_def trusting_def)
  obtain c' t where "client_move V cc (c_before rs ss (C_await4 ctx c1)) = C_end (Done (Returns 0)) c'"
    "cl_shown c' = verdict (status_value (m4_status m4)) # t"
    using client_believes [OF assms(3) e assms(7,8) assms(10) [unfolded assms(9)]] by blast
  then show ?thesis using assms(2,4-6) by (intro stage.intros(6) [where u = t and m4' = m4']) auto
qed

text \<open>The other process has nothing to read, or has ended.\<close>

lemma client_waits:
  assumes "fresh c" "arrival [] False rs"
  shows "\<exists>c'. client_move V cc (c_before rs ss (C_await2 ctx c)) = C_end Waits c'"
    and "\<exists>c'. client_move V cc (c_before rs ss (C_await4 ctx c)) = C_end Waits c'"
proof -
  obtain r c' where "receive V ctx (c_events rs ss c) = (r, c')" by (rule prod.exhaust)
  with receive_nothing [OF assms this]
  show "\<exists>c'. client_move V cc (c_before rs ss (C_await2 ctx c)) = C_end Waits c'"
    "\<exists>c'. client_move V cc (c_before rs ss (C_await4 ctx c)) = C_end Waits c'" by simp_all
qed

lemma server_msg01_waits:
  assumes "calm (s_io st) (s_world st)" "arrival [] False rs"
  shows "\<exists>st'. server_move E cfg (s_before rs ss (S_await01 st)) = S_end Waits None st'"
  using read_nothing [OF assms] by (simp add: process_msg01_def)

definition stuck :: "client_env \<Rightarrow> client_config \<Rightarrow> net \<Rightarrow> bool" where
  "stuck V cc n \<longleftrightarrow> c_ended (n_client n) \<or> (\<forall>rs ss. arrival (to_client n) (s_ended (n_server n)) rs \<longrightarrow>
     (\<exists>c. client_move V cc (c_before rs ss (n_client n)) = C_end Waits c))"

definition stuck_server :: "sp_env \<Rightarrow> config \<Rightarrow> net \<Rightarrow> bool" where
  "stuck_server E cfg n \<longleftrightarrow> s_ended (n_server n) \<or> (\<forall>rs ss. arrival (to_server n) (c_ended (n_client n)) rs \<longrightarrow>
     (\<exists>st. server_move E cfg (s_before rs ss (n_server n)) = S_end Waits None st))"

text \<open>Whose turn it is: the client moves from even stages, the server from odd ones.\<close>

lemma stage_turn:
  assumes "genuine_setting V cc E cfg c st k m4" "stage V E cfg c st k m4 i n"
  shows "(i = 5 \<and> c_ended (n_client n) \<and> s_ended (n_server n)) \<or>
    (i < 5 \<and> \<not> c_ended (n_client n) \<and> stuck_server E cfg n \<and>
       (\<forall>rs ss. arrival (to_client n) (s_ended (n_server n)) rs \<longrightarrow> Snd_err \<notin> set ss \<longrightarrow>
          stage V E cfg c st k m4 (Suc i) (client_turn n (client_move V cc (c_before rs ss (n_client n)))))) \<or>
    (i < 5 \<and> \<not> s_ended (n_server n) \<and> stuck V cc n \<and>
       (\<forall>rs ss. arrival (to_server n) (c_ended (n_client n)) rs \<longrightarrow> Snd_err \<notin> set ss \<longrightarrow>
          stage V E cfg c st k m4 (Suc i) (server_turn n (server_move E cfg (s_before rs ss (n_server n))))))"
  using assms(2)
proof cases
  case stage0
  then show ?thesis using server_msg01_waits stage0_moves [OF assms(1)]
    by (intro disjI2 disjI1) (simp add: stuck_server_def connected_def)
next
  case (stage1 ctx cl tr)
  then have "stuck V cc n" using client_waits(1) by (simp add: stuck_def)
  with stage1 stage1_moves [OF assms(1) stage1(2-7)] show ?thesis
    by (intro disjI2) (simp add: numeral_2_eq_2)
next
  case (stage2 ctx cl m1 ses sv gid rl sz tr key Gb m2 t)
  then have "stuck_server E cfg n" using server_msg3_waits by (simp add: stuck_server_def)
  with stage2(1,2,4) stage2_moves [OF assms(1) stage2(2-15)] show ?thesis
    by (intro disjI2 disjI1) (simp add: numeral_3_eq_3)
next
  case (stage3 ctx cl m1 ses sv gid rl sz b)
  then have "stuck V cc n" using client_waits(2) by (simp add: stuck_def)
  with stage3(1,2,4) stage3_moves [OF assms(1) stage3(2-9)] show ?thesis
    by (intro disjI2) simp
next
  case (stage4 ctx cl m4' sv pib ct)
  then have "stuck_server E cfg n" by (simp add: stuck_server_def)
  with stage4(1,2,4) stage4_moves [OF assms(1) stage4(2-9)] show ?thesis
    by (intro disjI2 disjI1) simp
qed simp

lemma arrival_exists: "\<exists>rs. arrival t e rs"
  by (rule exI [of _ "(if t = [] then [] else [Rcv_data t]) @ (if e then [Rcv_data []] else [])"])
    (auto simp: arrival_def live_def intro!: exI [of _ "if t = [] then [] else [Rcv_data t]"])

text \<open>No stage has a process that waits for good.\<close>

lemma stage_no_wait:
  "stage V E cfg c st k m4 i n \<Longrightarrow> n_client n \<noteq> C_end Waits d \<and> n_server n \<noteq> S_end Waits None sv"
  by (erule stage.cases) (auto simp: connected_def)

lemma stage_step:
  assumes "genuine_setting V cc E cfg c st k m4" "stage V E cfg c st k m4 i n" "net_step V cc E cfg n n'"
  shows "i < 5 \<and> stage V E cfg c st k m4 (Suc i) n'"
  using assms(3)
proof cases
  case (client rs ss p)
  then have "\<not> stuck V cc n" by (auto simp: stuck_def)
  with client stage_turn [OF assms(1,2)] show ?thesis by blast
next
  case (server rs ss p)
  then have "\<not> stuck_server E cfg n" by (auto simp: stuck_server_def)
  with server stage_turn [OF assms(1,2)] show ?thesis by blast
qed

lemma stage_progress:
  assumes "genuine_setting V cc E cfg c st k m4" "stage V E cfg c st k m4 i n" "i < 5"
  shows "\<exists>n'. net_step V cc E cfg n n'"
proof -
  obtain rs rs' where r: "arrival (to_client n) (s_ended (n_server n)) rs" "arrival (to_server n) (c_ended (n_client n)) rs'"
    using arrival_exists by meson
  let ?p = "client_move V cc (c_before rs [] (n_client n))" and ?q = "server_move E cfg (s_before rs' [] (n_server n))"
  consider "\<not> c_ended (n_client n)" "stage V E cfg c st k m4 (Suc i) (client_turn n ?p)"
    | "\<not> s_ended (n_server n)" "stage V E cfg c st k m4 (Suc i) (server_turn n ?q)"
    using stage_turn [OF assms(1,2)] assms(3) r by fastforce
  then show ?thesis
  proof cases
    case 1
    from stage_no_wait [OF 1(2)] have "\<forall>d. ?p \<noteq> C_end Waits d" by auto
    from net_step.client [OF 1(1) r(1) _ refl this] show ?thesis by auto
  next
    case 2
    from stage_no_wait [OF 2(2)] have "\<forall>d. ?q \<noteq> S_end Waits None d" by auto
    from net_step.server [OF 2(1) r(2) _ refl this] show ?thesis by auto
  qed
qed

lemma stages:
  assumes "genuine_setting V cc E cfg c st k m4" "connected c st n0" "(net_step V cc E cfg ^^ j) n0 n"
  shows "stage V E cfg c st k m4 j n"
  using assms(3)
proof (induction j arbitrary: n)
  case 0
  then show ?case using assms(2) stage.stage0 by simp
next
  case (Suc j)
  then show ?case using stage_step [OF assms(1)] by auto
qed

lemma runs_to_end:
  assumes "genuine_setting V cc E cfg c st k m4" "connected c st n0" "j \<le> 5"
  shows "\<exists>n. (net_step V cc E cfg ^^ j) n0 n"
  using assms(3)
proof (induction j)
  case (Suc j)
  then obtain n where n: "(net_step V cc E cfg ^^ j) n0 n" by auto
  from stage_progress [OF assms(1) stages [OF assms(1,2) n]] Suc.prems obtain n' where "net_step V cc E cfg n n'" by auto
  with n show ?case by auto
qed simp

section \<open>Properties\<close>


text \<open>
  C3. In a genuine setting an attestation over a socket always comes to its good end: the two programs never
  get stuck before it, it takes exactly five moves, in whatever pieces the messages arrive, and
  then the client, which returns 0, has shown the verdict of trust that the service provider reached.
\<close>

theorem attestation_completes:
  assumes "genuine_setting V cc E cfg c st k m4" and "connected c st n0" and "(net_step V cc E cfg ^^ j) n0 n"
  shows "j \<le> 5 \<and> (j < 5 \<longleftrightarrow> (\<exists>n'. net_step V cc E cfg n n')) \<and>
    (j = 5 \<longrightarrow> (\<exists>c' u m4' st'. n_client n = C_end (Done (Returns 0)) c' \<and>
       cl_shown c' = verdict (status_value (m4_status m4)) # u \<and>
       n_server n = S_end (Done ()) (Some m4') st' \<and> m4_status m4' = m4_status m4))"
proof -
  have s: "stage V E cfg c st k m4 j n" by (rule stages [OF assms])
  moreover have "j \<le> 5" using s by cases simp_all
  moreover have "\<exists>c' u m4' st'. n_client n = C_end (Done (Returns 0)) c' \<and>
       cl_shown c' = verdict (status_value (m4_status m4)) # u \<and>
       n_server n = S_end (Done ()) (Some m4') st' \<and> m4_status m4' = m4_status m4" if "j = 5"
    using s that by cases auto
  ultimately show ?thesis using stage_step [OF assms(1) s] stage_progress [OF assms(1) s] by blast
qed

section \<open>A sample attestation\<close>

definition genuine_client_env :: client_env where
  "genuine_client_env = sample_client_env\<lparr>ce_msg1 := \<lambda>_ _. (0, replicate 64 5 @ [0, 0, 0, 0]),
     ce_proc_msg2 := \<lambda>_ _ _ _. (0, sample_msg3)\<rparr>"

definition genuine_msg4 :: msg4 where
  "genuine_msg4 = \<lparr>m4_status = Trusted, m4_pib = replicate 101 0, m4_ciphertext = replicate 16 0\<rparr>"

abbreviation sample_c :: client where
  "sample_c \<equiv> client_start client_sock (sample_world [] [] []) []"

definition sample_net :: net where
  "sample_net = \<lparr>n_client = C_begin sample_c, n_server = S_await01 sample_state, to_server = [], to_client = []\<rparr>"

lemma sample_connected: "connected sample_c sample_state sample_net"
  by (simp add: connected_def sample_net_def calm_def client_start_def client_sock_def sample_world_def
      sample_state_def sample_io_def)

lemma sample_sigrl_size:
  "get_sigrl sample_sp v gid ias = (Some (rl, sz), ias') \<Longrightarrow> unat sz \<le> length rl \<and> unat sz + 168 < 2 ^ 32"
  by (auto simp: get_sigrl_def base64_decode_def sample_sp_simps sample_bio_def Let_def
      split: if_splits option.splits prod.splits)

lemma sample_service:
  assumes "c_agent_name c = []"
  shows "service_answers sample_sp sample_cfg c genuine_msg4"
  unfolding service_answers_def
proof (rule allI)
  fix gid
  have s: "apiver sample_cfg = 4" "verbose sample_cfg = False" "strict_trust sample_cfg = False"
    by (simp_all add: sample_cfg_def)
  obtain rl sz where g: "get_sigrl sample_sp 4 gid c = (Some (rl, sz), c\<lparr>c_agent := Deleted_agent\<rparr>)"
    using sample_sigrl_any [OF assms, of gid] by auto
  have n: "c_agent_name (c\<lparr>c_agent := Deleted_agent\<rparr>) = []" using assms by simp
  show "\<exists>rl sz ias'. get_sigrl sample_sp (apiver sample_cfg) gid c = (Some (rl, sz), ias') \<and>
      unat sz \<le> length rl \<and> unat sz + 168 < 2 ^ 32 \<and>
      (\<forall>b64. \<exists>ias''. \<forall>t. \<exists>t'. get_attestation_report sample_sp (verbose sample_cfg) (apiver sample_cfg) b64
         (strict_trust sample_cfg) ias' t = (Done (Some genuine_msg4), ias'', t'))"
    using g sample_sigrl_size [OF g] sample_attestation_any [OF n] unfolding s genuine_msg4_def by fastforce
qed

lemma sample_sdk_answers: "sdk_answers genuine_client_env sample_sp sample_cfg 5"
proof -
  have q: "quote_for sample_sp sample_cfg ses m1 5 sample_msg3"
    if "session_typed ses" "m1_g_a m1 = replicate 64 5" "m1_gid m1 = [0, 0, 0, 0]" for ses m1
  proof -
    have "msg3_genuine sample_sp sample_cfg ses m1 sample_msg3 5"
      using that by (simp add: msg3_genuine_def sample_sp_def sample_lib_def sample_msg3_def session_typed_def field_def)
    then show ?thesis using sample_sizes sample_base64 sample_identity by (simp add: quote_for_def)
  qed
  have c: "SGX_SUCCESS = 0" "snd (ce_msg1 genuine_client_env tr ctx) = replicate 64 5 @ [0, 0, 0, 0]"
    "ce_proc_msg2 genuine_client_env tr ctx b sz = (0, sample_msg3)" for tr ctx b sz
    by (simp_all add: genuine_client_env_def SGX_SUCCESS_def)
  show ?thesis
    unfolding sdk_answers_def c
  proof (intro allI impI exI conjI)
    fix key Gb m1 m2 ses
    assume m: "m1_g_a m1 @ m1_gid m1 = replicate 64 5 @ [0, 0, 0, 0]" "session_typed ses"
      "msg2_for (e_lib sample_sp) sample_cfg key Gb m1 m2 ses"
    then have "g_a ses = m1_g_a m1" by (simp add: msg2_for_def Let_def)
    then have "length (m1_g_a m1) = length (replicate 64 (5 :: byte))" using m(2) by (simp add: session_typed_def)
    then show "quote_for sample_sp sample_cfg ses m1 5 sample_msg3" using q m(1,2) append_eq_append_conv by blast
  qed simp
qed

lemma sample_genuine_any:
  assumes "c_agent_name (s_ias st) = []"
  shows "genuine_setting genuine_client_env sample_client_config sample_sp sample_cfg sample_c st 5 genuine_msg4"
proof -
  have "provider_works sample_sp sample_cfg"
    using sample_ret sample_typed sample_sizes(3)
    by (auto simp: provider_works_def sample_sp_simps sample_lib_def sample_cfg_def sample_sp_def greeting_def)
  moreover have "client_works genuine_client_env sample_client_config sample_sp sample_c"
    by (simp add: client_works_def genuine_client_env_def sample_client_env_def SGX_SUCCESS_def init_context_def
        sample_client_config_def enclave_ra_init_def_def enclave_ra_init_def sample_sdk_def client_start_def
        sample_sp_simps sample_lib_def)
  ultimately show ?thesis using sample_service [OF assms] sample_sdk_answers
    by (simp add: genuine_setting_def trusting_def genuine_msg4_def genuine_client_env_def sample_client_env_def)
qed

lemma sample_genuine_setting:
  "genuine_setting genuine_client_env sample_client_config sample_sp sample_cfg sample_c sample_state 5 genuine_msg4"
  by (rule sample_genuine_any) (simp add: sample_state_def sample_conn_simps)

text \<open>The whole run.\<close>

lemma sample_run:
  "\<exists>n. (net_step genuine_client_env sample_client_config sample_sp sample_cfg ^^ 5) sample_net n"
  by (rule runs_to_end [OF sample_genuine_setting sample_connected]) simp

theorem attestation_completes_witness:
  "\<exists>n c' st' m4. (net_step genuine_client_env sample_client_config sample_sp sample_cfg ^^ 5) sample_net n \<and>
     n_client n = C_end (Done (Returns 0)) c' \<and> hd (cl_shown c') = ''Enclave TRUSTED'' @ [LF] \<and>
     n_server n = S_end (Done ()) (Some m4) st' \<and> m4_status m4 = Trusted"
proof -
  obtain n where n: "(net_step genuine_client_env sample_client_config sample_sp sample_cfg ^^ 5) sample_net n"
    using sample_run by blast
  from attestation_completes [OF sample_genuine_setting sample_connected n] obtain c' u m4 st' where
    "n_client n = C_end (Done (Returns 0)) c'" "cl_shown c' = verdict (status_value (m4_status genuine_msg4)) # u"
    "n_server n = S_end (Done ()) (Some m4) st'" "m4_status m4 = m4_status genuine_msg4" by blast
  moreover have "verdict (status_value (m4_status genuine_msg4)) = ''Enclave TRUSTED'' @ [LF]"
    by (simp add: genuine_msg4_def verdict_def)
  ultimately show ?thesis using n by (auto simp: genuine_msg4_def)
qed

lemma steps_reachable: "(net_step V cc E cfg ^^ j) n0 n \<Longrightarrow> net_reachable V cc E cfg n0 n"
  by (induction j arbitrary: n) (auto intro: net_reachable.intros)


end
