(* ===== verification/Sessions.thy ===== *)
theory Sessions
  imports Attestation_Run
begin

text \<open>
  One session after the other: the loop of the service provider, in which each client that is
  accepted runs its attestation over the network with the state that the earlier ones left.
\<close>

section \<open>Clients in a row\<close>

type_synonym party = "client_env \<times> client_config \<times> client"

text \<open>How a client ended, and what it has shown.\<close>

type_synonym outcome = "client_end run \<times> string list"

inductive served :: "sp_env \<Rightarrow> config \<Rightarrow> sp_state \<Rightarrow> party list \<Rightarrow> outcome list \<Rightarrow> sp_state \<Rightarrow> bool" for E cfg where
  nobody: "served E cfg st [] [] st"
| client: "server_loop a (s_io st) (s_world st) = (True, io0, w0) \<Longrightarrow>
    (net_step V cc E cfg ^^ j) \<lparr>n_client = C_begin c, n_server = S_await01 (st\<lparr>s_io := io0, s_world := w0\<rparr>),
      to_server = [], to_client = []\<rparr> n \<Longrightarrow>
    n_client n = C_end e c' \<Longrightarrow> n_server n = S_end (Done ()) d st1 \<Longrightarrow>
    disconnect (s_io st1) (s_world st1) = (io, w) \<Longrightarrow>
    served E cfg (st1\<lparr>s_io := io, s_world := w\<rparr>) ps outs st2 \<Longrightarrow>
    served E cfg st ((V, cc, c) # ps) ((e, cl_shown c') # outs) st2"

inductive_cases served_clientE: "served E cfg st ((V, cc, c) # ps) outs st'"

text \<open>Every client runs a genuine enclave, whatever becomes of the connection to the attestation service.\<close>

definition genuine_party :: "sp_env \<Rightarrow> config \<Rightarrow> sp_state \<Rightarrow> nat \<Rightarrow> msg4 \<Rightarrow> party \<Rightarrow> bool" where
  "genuine_party E cfg st k m4 = (\<lambda>(V, cc, c). fresh c \<and>
     (\<forall>ias. stable (s_ias st) ias \<longrightarrow> genuine_setting V cc E cfg c (st\<lparr>s_ias := ias\<rparr>) k m4))"

lemma genuine_ias:
  "s_ias st = s_ias st' \<Longrightarrow> genuine_setting V cc E cfg c st k m4 = genuine_setting V cc E cfg c st' k m4"
  by (simp add: genuine_setting_def)

lemma genuine_party_later:
  "genuine_party E cfg st k m4 p \<Longrightarrow> stable (s_ias st) (s_ias st') \<Longrightarrow> genuine_party E cfg st' k m4 p"
  using genuine_ias [of "st'\<lparr>s_ias := ias\<rparr>" "st\<lparr>s_ias := ias\<rparr>" for ias]
  by (auto simp: genuine_party_def dest: stable_trans)

text \<open>Accepting and dismissing a client leaves the buffers alone.\<close>

lemma calm_accepted:
  "calm io w \<Longrightarrow> server_loop a io w = (True, io', w') \<Longrightarrow> calm io' w'"
  by (auto simp: calm_def server_loop_def split: if_splits)

lemma calm_dismissed:
  "calm io w \<Longrightarrow> disconnect io w = (io', w') \<Longrightarrow> calm io' w'"
  by (auto simp: calm_def disconnect_def close_fd_def split: if_splits)

text \<open>One session, from the accepted client to the loop.\<close>

lemma session_in_row:
  assumes "calm (s_io st) (s_world st)" "genuine_party E cfg st k m4 (V, cc, c)"
    and "server_loop a (s_io st) (s_world st) = (True, io0, w0)"
  defines "n0 \<equiv> \<lparr>n_client = C_begin c, n_server = S_await01 (st\<lparr>s_io := io0, s_world := w0\<rparr>), to_server = [], to_client = []\<rparr>"
  shows "genuine_setting V cc E cfg c (st\<lparr>s_io := io0, s_world := w0\<rparr>) k m4"
    and "connected c (st\<lparr>s_io := io0, s_world := w0\<rparr>) n0"
    and "(net_step V cc E cfg ^^ j) n0 n \<Longrightarrow> n_client n = C_end e c' \<Longrightarrow> n_server n = S_end (Done ()) d st1 \<Longrightarrow>
      disconnect (s_io st1) (s_world st1) = (io, w) \<Longrightarrow>
      e = Done (Returns 0) \<and> (\<exists>u. cl_shown c' = verdict (status_value (m4_status m4)) # u) \<and>
      ready_again st (st1\<lparr>s_io := io, s_world := w\<rparr>)"
proof -
  let ?st = "st\<lparr>s_io := io0, s_world := w0\<rparr>"
  have "\<forall>ias. stable (s_ias st) ias \<longrightarrow> genuine_setting V cc E cfg c (st\<lparr>s_ias := ias\<rparr>) k m4"
    using assms(2) by (simp add: genuine_party_def)
  from this [rule_format, OF stable_refl] show g: "genuine_setting V cc E cfg c ?st k m4"
    by (rule genuine_ias [THEN iffD1, rotated]) simp
  show c: "connected c ?st n0"
    using assms(1,2) calm_accepted [OF assms(1,3)] by (simp add: connected_def n0_def genuine_party_def fresh_def)
  assume r: "(net_step V cc E cfg ^^ j) n0 n" "n_client n = C_end e c'" "n_server n = S_end (Done ()) d st1"
    and d: "disconnect (s_io st1) (s_world st1) = (io, w)"
  from stages [OF g c r(1)] have "e = Done (Returns 0) \<and>
      (\<exists>u. cl_shown c' = verdict (status_value (m4_status m4)) # u) \<and> ready_again ?st st1"
    by cases (use r c in \<open>auto simp: connected_def\<close>)
  then show "e = Done (Returns 0) \<and> (\<exists>u. cl_shown c' = verdict (status_value (m4_status m4)) # u) \<and>
      ready_again st (st1\<lparr>s_io := io, s_world := w\<rparr>)"
    using calm_dismissed [OF _ d] by (auto simp: ready_again_def)
qed

lemma row_served:
  assumes "calm (s_io st) (s_world st)" "\<forall>p\<in>set ps. genuine_party E cfg st k m4 p"
  shows "\<exists>outs st'. served E cfg st ps outs st'"
  using assms
proof (induction ps arbitrary: st)
  case Nil
  show ?case using served.nobody by blast
next
  case (Cons p ps)
  obtain V cc c where p: "p = (V, cc, c)" by (rule prod_cases3)
  have "\<not> use_stdio (s_io st)" using Cons.prems(1) by (simp add: calm_def)
  then obtain io0 w0 where l: "server_loop 0 (s_io st) (s_world st) = (True, io0, w0)" by (simp add: server_loop_def)
  have g: "genuine_party E cfg st k m4 (V, cc, c)" using Cons.prems(2) p by simp
  note s = session_in_row [OF Cons.prems(1) g l]
  obtain n where n: "(net_step V cc E cfg ^^ 5) \<lparr>n_client = C_begin c,
      n_server = S_await01 (st\<lparr>s_io := io0, s_world := w0\<rparr>), to_server = [], to_client = []\<rparr> n"
    using runs_to_end [OF s(1,2)] by blast
  from stages [OF s(1,2) n] obtain c' m4' st1 where
    e: "n_client n = C_end (Done (Returns 0)) c'" "n_server n = S_end (Done ()) (Some m4') st1" by cases auto
  obtain io w where d: "disconnect (s_io st1) (s_world st1) = (io, w)" by (rule prod.exhaust)
  let ?st = "st1\<lparr>s_io := io, s_world := w\<rparr>"
  have r: "ready_again st ?st" using s(3) [OF n e d] by blast
  then have "\<forall>p\<in>set ps. genuine_party E cfg ?st k m4 p"
    using Cons.prems(2) genuine_party_later by (fastforce simp: ready_again_def)
  with Cons.IH [of ?st] r obtain outs st' where "served E cfg ?st ps outs st'" by (auto simp: ready_again_def)
  from served.client [OF l n e d this] show ?case using p by blast
qed

lemma row_trusted:
  assumes "served E cfg st ps outs st'" "calm (s_io st) (s_world st)" "\<forall>p\<in>set ps. genuine_party E cfg st k m4 p"
  shows "length outs = length ps \<and> ready_again st st' \<and>
    (\<forall>(e, shown)\<in>set outs. e = Done (Returns 0) \<and> (\<exists>u. shown = verdict (status_value (m4_status m4)) # u))"
  using assms
proof (induction rule: served.induct)
  case (nobody st)
  then show ?case by (simp add: ready_again_def)
next
  case (client a st io0 w0 V cc j c n e c' d st1 io w ps outs st2)
  have g: "genuine_party E cfg st k m4 (V, cc, c)" using client.prems(2) by simp
  note s = session_in_row(3) [OF client.prems(1) g client.hyps(1-5)]
  then have "\<forall>p\<in>set ps. genuine_party E cfg (st1\<lparr>s_io := io, s_world := w\<rparr>) k m4 p"
    using client.prems(2) genuine_party_later by (fastforce simp: ready_again_def)
  with client.IH s show ?case by (auto simp: ready_again_def intro: stable_trans)
qed

section \<open>Properties\<close>

text \<open>
  C10. However many clients with genuine enclaves come to the service provider, one after the other,
  each of them gets the whole attestation and shows the verdict of trust: a session that went well leaves
  nothing that disturbs the next one.
\<close>

theorem genuine_clients_all_served:
  assumes "calm (s_io st) (s_world st)" and "\<forall>p\<in>set ps. genuine_party E cfg st k m4 p"
  shows "(\<exists>outs st'. served E cfg st ps outs st') \<and>
    (\<forall>outs st'. served E cfg st ps outs st' \<longrightarrow> length outs = length ps \<and>
      (\<forall>(e, shown)\<in>set outs. e = Done (Returns 0) \<and> (\<exists>u. shown = verdict (status_value (m4_status m4)) # u)))"
  using row_served [OF assms] row_trusted [OF _ assms] by blast

section \<open>Three clients\<close>

lemma sample_party: "genuine_party sample_sp sample_cfg sample_state 5 genuine_msg4 (genuine_client_env, sample_client_config, sample_c)"
proof -
  have "c_agent_name ias = []" if "stable (s_ias sample_state) ias" for ias
    using stable_agent_name [OF that] by (simp add: sample_state_def sample_conn_simps)
  then show ?thesis using sample_genuine_any sample_connected
    by (simp add: genuine_party_def connected_def fresh_def)
qed

theorem genuine_clients_all_served_witness:
  "\<exists>outs st'. served sample_sp sample_cfg sample_state
     (replicate 3 (genuine_client_env, sample_client_config, sample_c)) outs st' \<and>
   length outs = 3 \<and> (\<forall>(e, shown)\<in>set outs. e = Done (Returns 0) \<and> hd shown = ''Enclave TRUSTED'' @ [LF])"
proof -
  let ?ps = "replicate 3 (genuine_client_env, sample_client_config, sample_c)"
  have v: "verdict (status_value (m4_status genuine_msg4)) = ''Enclave TRUSTED'' @ [LF]"
    by (simp add: genuine_msg4_def verdict_def)
  have "calm (s_io sample_state) (s_world sample_state)" using sample_connected by (simp add: connected_def)
  moreover have "\<forall>p\<in>set ?ps. genuine_party sample_sp sample_cfg sample_state 5 genuine_msg4 p"
    using sample_party by simp
  note genuine_clients_all_served [OF calculation this]
  then show ?thesis by (fastforce simp: v)
qed

end
