(* ===== verification/Sgx_Stub.thy ===== *)
theory Sgx_Stub
  imports Prelude
begin

text \<open>
  The model of \<open>service-provider/sgx_stub.c\<close>, \<open>quote_size.c\<close> and \<open>sgx_detect_linux.c\<close>: the
  functions of the SGX platform software are looked up in its two libraries when they are first
  called.

  The dynamic linker is the record \<open>linker\<close>: the handle of each library, and what \<open>dlsym\<close> returns
  for a handle (\<open>None\<close> is the null handle, which searches the program itself) and a name,
  with the text of \<open>dlerror\<close>. Pointers and handles are numbers.
\<close>

section \<open>The libraries\<close>

datatype library = Uae_service | Urts

record linker =
  dlopen :: "library \<Rightarrow> nat option"
  dlsym :: "nat option \<Rightarrow> string \<Rightarrow> nat option \<times> string option"

text \<open>The functions that have a stub.\<close>

datatype stub =
  Sgx_register_wl_cert_chain | Invoke_service_ocall | Sgx_get_target_info
| Sgx_thread_setwait_untrusted_events_ocall | Sgx_get_extended_epid_group_id | Close_session_ocall
| Sgx_get_whitelist_size | Sgx_create_enclave_ex | Sgx_create_enclave | Sgx_get_quote_ex
| Sgx_oc_cpuidex | Sgx_destroy_enclave | Create_session_ocall | Sgx_report_attestation_status
| Sgx_get_whitelist | Sgx_create_enclave_from_buffer_ex | Sgx_get_quote | Sgx_get_quote_size
| Sgx_ocall | Sgx_init_quote | Sgx_calc_quote_size | Sgx_thread_wait_untrusted_event_ocall
| Sgx_ecall_switchless | Sgx_init_quote_ex | Sgx_create_encrypted_enclave
| Sgx_thread_set_untrusted_event_ocall | Sgx_get_quote_size_ex | Sgx_ecall
| Sgx_thread_set_multiple_untrusted_events_ocall | Exchange_report_ocall

fun stub_symbol :: "stub \<Rightarrow> library \<times> string" where
  "stub_symbol Sgx_register_wl_cert_chain = (Uae_service, ''sgx_register_wl_cert_chain'')"
| "stub_symbol Invoke_service_ocall = (Uae_service, ''invoke_service_ocall'')"
| "stub_symbol Sgx_get_target_info = (Urts, ''sgx_get_target_info'')"
| "stub_symbol Sgx_thread_setwait_untrusted_events_ocall = (Urts, ''sgx_thread_setwait_untrusted_events_ocall'')"
| "stub_symbol Sgx_get_extended_epid_group_id = (Uae_service, ''sgx_get_extended_epid_group_id'')"
| "stub_symbol Close_session_ocall = (Uae_service, ''close_session_ocall'')"
| "stub_symbol Sgx_get_whitelist_size = (Uae_service, ''sgx_get_whitelist_size'')"
| "stub_symbol Sgx_create_enclave_ex = (Urts, ''sgx_create_enclave_ex'')"
| "stub_symbol Sgx_create_enclave = (Urts, ''sgx_create_enclave'')"
| "stub_symbol Sgx_get_quote_ex = (Uae_service, ''sgx_get_quote_ex'')"
| "stub_symbol Sgx_oc_cpuidex = (Urts, ''sgx_oc_cpuidex'')"
| "stub_symbol Sgx_destroy_enclave = (Urts, ''sgx_destroy_enclave'')"
| "stub_symbol Create_session_ocall = (Uae_service, ''create_session_ocall'')"
| "stub_symbol Sgx_report_attestation_status = (Uae_service, ''sgx_report_attestation_status'')"
| "stub_symbol Sgx_get_whitelist = (Uae_service, ''sgx_get_whitelist'')"
| "stub_symbol Sgx_create_enclave_from_buffer_ex = (Urts, ''sgx_create_enclave_from_buffer_ex'')"
| "stub_symbol Sgx_get_quote = (Uae_service, ''sgx_get_quote'')"
| "stub_symbol Sgx_get_quote_size = (Uae_service, ''sgx_get_quote_size'')"
| "stub_symbol Sgx_ocall = (Urts, ''sgx_ocall'')"
| "stub_symbol Sgx_init_quote = (Uae_service, ''sgx_init_quote'')"
| "stub_symbol Sgx_calc_quote_size = (Uae_service, ''sgx_calc_quote_size'')"
| "stub_symbol Sgx_thread_wait_untrusted_event_ocall = (Urts, ''sgx_thread_wait_untrusted_event_ocall'')"
| "stub_symbol Sgx_ecall_switchless = (Urts, ''sgx_ecall_switchless'')"
| "stub_symbol Sgx_init_quote_ex = (Uae_service, ''sgx_init_quote_ex'')"
| "stub_symbol Sgx_create_encrypted_enclave = (Urts, ''sgx_create_encrypted_enclave'')"
| "stub_symbol Sgx_thread_set_untrusted_event_ocall = (Urts, ''sgx_thread_set_untrusted_event_ocall'')"
| "stub_symbol Sgx_get_quote_size_ex = (Uae_service, ''sgx_get_quote_size_ex'')"
| "stub_symbol Sgx_ecall = (Urts, ''sgx_ecall'')"
| "stub_symbol Sgx_thread_set_multiple_untrusted_events_ocall =
     (Urts, ''sgx_thread_set_multiple_untrusted_events_ocall'')"
| "stub_symbol Exchange_report_ocall = (Uae_service, ''exchange_report_ocall'')"

record stubs =
  h_lib :: "library \<Rightarrow> nat option"
  l_lib :: "library \<Rightarrow> int"
  p_fun :: "stub \<Rightarrow> nat option"
  l_fun :: "stub \<Rightarrow> int"
  dlerr :: "string option"

definition stubs_init :: stubs where
  "stubs_init = \<lparr>h_lib = (\<lambda>_. None), l_lib = (\<lambda>_. 0), p_fun = (\<lambda>_. None), l_fun = (\<lambda>_. 0), dlerr = None\<rparr>"

text \<open>\<open>_load_libsgx_uae_service\<close> and \<open>_load_libsgx_urts\<close>.\<close>

definition load_library :: "linker \<Rightarrow> library \<Rightarrow> stubs \<Rightarrow> nat option \<times> stubs" where
  "load_library D lib s =
     (let s = (if l_lib s lib = 0 then
          let h = dlopen D lib in
          s\<lparr>h_lib := (h_lib s)(lib := h), l_lib := (l_lib s)(lib := if h = None then -1 else 1)\<rparr>
        else s)
      in (h_lib s lib, s))"

definition load_symbol :: "linker \<Rightarrow> nat option \<Rightarrow> string \<Rightarrow> stubs \<Rightarrow> nat option \<times> int \<times> stubs" where
  "load_symbol D handle symbol s =
     (let (hsym, err) = dlsym D handle symbol in (hsym, if err = None then 1 else -1, s\<lparr>dlerr := err\<rparr>))"

definition have_sgx_psw :: "linker \<Rightarrow> stubs \<Rightarrow> bool \<times> stubs" where
  "have_sgx_psw D s =
     (let (h, s) = load_library D Uae_service s in
      if h = None then (False, s) else let (h', s) = load_library D Urts s in (h' \<noteq> None, s))"

definition have_sgx_ufunction :: "linker \<Rightarrow> string \<Rightarrow> stubs \<Rightarrow> bool \<times> stubs" where
  "have_sgx_ufunction D name s =
     (let (_, status, s) = load_symbol D (h_lib s Uae_service) name s in
      if status = 1 then (True, s)
      else let (_, status, s) = load_symbol D (h_lib s Urts) name s in (status = 1, s))"

text \<open>The symbol found in the second library is not the one returned.\<close>

definition get_sgx_ufunction :: "linker \<Rightarrow> string \<Rightarrow> stubs \<Rightarrow> nat option \<times> stubs" where
  "get_sgx_ufunction D name s =
     (let (hsym, status, s) = load_symbol D (h_lib s Uae_service) name s in
      if status = 1 then (hsym, s)
      else let (_, status, s) = load_symbol D (h_lib s Urts) name s
        in (if status = 1 then hsym else None, s))"

text \<open>A call of a stub: the function that is called, or the exit of \<open>_undefined_symbol\<close>.\<close>

datatype stub_call = Calls "nat option" | Undefined_symbol string

definition call_stub :: "linker \<Rightarrow> stub \<Rightarrow> stubs \<Rightarrow> stub_call \<times> stubs" where
  "call_stub D f s =
     (let (lib, name) = stub_symbol f;
          s = (if l_fun s f = 0 then
                 let s = (if h_lib s lib = None then snd (load_library D lib s) else s);
                     (p, status, s) = load_symbol D (h_lib s lib) name s
                 in s\<lparr>p_fun := (p_fun s)(f := p), l_fun := (l_fun s)(f := status)\<rparr>
               else s)
      in (if l_fun s f = -1 then Undefined_symbol name else Calls (p_fun s f), s))"

text \<open>The calls that the program makes, up to the one that ends it.\<close>

fun call_stubs :: "linker \<Rightarrow> stub list \<Rightarrow> stubs \<Rightarrow> stub_call list" where
  "call_stubs D [] s = []"
| "call_stubs D (f # fs) s =
     (case call_stub D f s of
        (Undefined_symbol n, s) \<Rightarrow> [Undefined_symbol n]
      | (Calls p, s) \<Rightarrow> Calls p # call_stubs D fs s)"

section \<open>The size of a quote\<close>

text \<open>
  The two functions of the platform software, by their pointers, return a status and a size. The
  result is the return value, with what is stored through the pointers.
\<close>

definition get_quote_size ::
    "linker \<Rightarrow> (nat \<Rightarrow> 32 word \<times> 32 word) \<Rightarrow> 32 word \<times> 32 word \<Rightarrow> stubs \<Rightarrow> (bool \<times> 32 word \<times> 32 word) \<times> stubs" where
  "get_quote_size D run st0 s =
     (case get_sgx_ufunction D ''sgx_calc_quote_size'' s of
        (Some p, s) \<Rightarrow> ((True, run p), s)
      | (None, s) \<Rightarrow>
          (case get_sgx_ufunction D ''sgx_get_quote_size'' s of
             (None, s) \<Rightarrow> ((False, st0), s)
           | (Some p, s) \<Rightarrow> ((True, run p), s)))"

section \<open>Is SGX there?\<close>

definition SGX_SUPPORT_UNKNOWN :: "32 word" where "SGX_SUPPORT_UNKNOWN = 0x00000000"
definition SGX_SUPPORT_NO :: "32 word" where "SGX_SUPPORT_NO = 0x80000000"
definition SGX_SUPPORT_YES :: "32 word" where "SGX_SUPPORT_YES = 0x00000001"
definition SGX_SUPPORT_ENABLED :: "32 word" where "SGX_SUPPORT_ENABLED = 0x00000002"
definition SGX_SUPPORT_REBOOT_REQUIRED :: "32 word" where "SGX_SUPPORT_REBOOT_REQUIRED = 0x00000004"
definition SGX_SUPPORT_ENABLE_REQUIRED :: "32 word" where "SGX_SUPPORT_ENABLE_REQUIRED = 0x00000008"

text \<open>What \<open>sgx_cap_get_status\<close> tells about the device, \<open>None\<close> when it fails.\<close>

datatype device_status = SGX_ENABLED | SGX_DISABLED_REBOOT_REQUIRED | SGX_DISABLED_LEGACY_OS | Other_device_status

definition get_sgx_support ::
    "linker \<Rightarrow> device_status option \<Rightarrow> 32 word \<times> stubs \<Rightarrow> 32 word \<times> 32 word \<times> stubs" where
  "get_sgx_support D cap st =
     (let (support, s) = st in
      if support \<noteq> SGX_SUPPORT_UNKNOWN then (support, support, s)
      else let (psw, s) = have_sgx_psw D s in
        if \<not> psw then (SGX_SUPPORT_NO, SGX_SUPPORT_NO, s)
        else
          let r = (case cap of
              None \<Rightarrow> SGX_SUPPORT_YES
            | Some SGX_ENABLED \<Rightarrow> SGX_SUPPORT_YES OR SGX_SUPPORT_ENABLED
            | Some SGX_DISABLED_REBOOT_REQUIRED \<Rightarrow> SGX_SUPPORT_YES OR SGX_SUPPORT_REBOOT_REQUIRED
            | Some SGX_DISABLED_LEGACY_OS \<Rightarrow> SGX_SUPPORT_YES OR SGX_SUPPORT_ENABLE_REQUIRED
            | Some Other_device_status \<Rightarrow> SGX_SUPPORT_YES)
          in (r, r, s))"

section \<open>Lemmas\<close>

text \<open>What a stub stands for, without anything remembered.\<close>

definition direct_call :: "linker \<Rightarrow> stub \<Rightarrow> stub_call" where
  "direct_call D f =
     (let (lib, name) = stub_symbol f; (p, err) = dlsym D (dlopen D lib) name
      in if err = None then Calls p else Undefined_symbol name)"

text \<open>What is remembered agrees with the linker.\<close>

definition coherent :: "linker \<Rightarrow> stubs \<Rightarrow> bool" where
  "coherent D s \<longleftrightarrow>
     (\<forall>lib. if l_lib s lib = 0 then h_lib s lib = None else h_lib s lib = dlopen D lib) \<and>
     (\<forall>f. l_fun s f = 0 \<or> (let (p, err) = dlsym D (dlopen D (fst (stub_symbol f))) (snd (stub_symbol f)) in
        p_fun s f = p \<and> l_fun s f = (if err = None then 1 else -1)))"

lemma coherent_init: "coherent D stubs_init"
  by (simp add: coherent_def stubs_init_def)

lemma coherent_load_library:
  assumes "coherent D s" and "load_library D lib s = (h, s')"
  shows "coherent D s' \<and> h = dlopen D lib \<and> h_lib s' lib = h"
  using assms by (auto simp: load_library_def coherent_def Let_def split: if_splits)

lemma coherent_dlerr [simp]: "coherent D (s\<lparr>dlerr := e\<rparr>) = coherent D s"
  by (simp add: coherent_def)

lemma coherent_load_symbol: "coherent D s \<Longrightarrow> load_symbol D h n s = (p, st, s') \<Longrightarrow> coherent D s'"
  by (auto simp: load_symbol_def split: prod.splits)

text \<open>The handle that a stub uses is that of its library, loaded or not.\<close>

lemma coherent_handle:
  assumes "coherent D s" and s': "s' = (if h_lib s lib = None then snd (load_library D lib s) else s)"
  shows "coherent D s' \<and> h_lib s' lib = dlopen D lib \<and> l_fun s' = l_fun s \<and> p_fun s' = p_fun s"
proof (cases "h_lib s lib")
  case None
  then have "s' = snd (load_library D lib s)" using s' by simp
  moreover obtain h t where l: "load_library D lib s = (h, t)" by (rule prod.exhaust)
  moreover have "l_fun t = l_fun s \<and> p_fun t = p_fun s"
    using l by (auto simp: load_library_def Let_def split: if_splits)
  ultimately show ?thesis using coherent_load_library [OF assms(1) l] by simp
next
  case (Some h)
  then show ?thesis using assms(1) s' by (auto simp: coherent_def split: if_splits) (metis option.distinct(1))
qed

lemma coherent_bind:
  assumes "coherent D s" and "dlsym D (dlopen D (fst (stub_symbol f))) (snd (stub_symbol f)) = (p, err)"
  shows "coherent D (s\<lparr>p_fun := (p_fun s)(f := p), l_fun := (l_fun s)(f := if err = None then 1 else -1)\<rparr>)"
  using assms by (auto simp: coherent_def Let_def)

lemma call_stub_direct:
  assumes "coherent D s" and "call_stub D f s = (r, s')"
  shows "r = direct_call D f \<and> coherent D s'"
proof -
  obtain lib name where f: "stub_symbol f = (lib, name)" by (rule prod.exhaust)
  obtain p err where sym: "dlsym D (dlopen D lib) name = (p, err)" by (rule prod.exhaust)
  define st :: int where "st = (if err = None then 1 else -1)"
  have st: "st \<noteq> 0" "st = -1 \<longleftrightarrow> err \<noteq> None" by (simp_all add: st_def)
  show ?thesis
  proof (cases "l_fun s f = 0")
    case False
    then have "p_fun s f = p" "l_fun s f = st"
      using assms(1) f sym by (auto simp: coherent_def st_def)
    then show ?thesis using assms False f sym st by (auto simp: call_stub_def direct_call_def)
  next
    case True
    define s1 where "s1 = (if h_lib s lib = None then snd (load_library D lib s) else s)"
    note s1 = coherent_handle [OF assms(1) s1_def]
    let ?s2 = "s1\<lparr>dlerr := err\<rparr>"
    have "coherent D (?s2\<lparr>p_fun := (p_fun ?s2)(f := p), l_fun := (l_fun ?s2)(f := st)\<rparr>)"
      unfolding st_def using s1 f sym by (intro coherent_bind) simp_all
    moreover have "load_symbol D (h_lib s1 lib) name s1 = (p, st, ?s2)"
      using s1 sym by (simp add: load_symbol_def st_def)
    ultimately show ?thesis
      using assms(2) True f sym st by (auto simp: call_stub_def direct_call_def Let_def s1_def [symmetric])
  qed
qed

section \<open>Properties\<close>

text \<open>
  C32. The remembered handles and pointers make no difference: whatever functions the program calls
  in whatever order, each call reaches the function that its library has under its name, and
  the first one that is missing ends the program with a message that names it.
\<close>

theorem stubs_are_transparent:
  "call_stubs D fs stubs_init =
     (let direct = map (direct_call D) fs; called = takeWhile (\<lambda>r. \<exists>p. r = Calls p) direct
      in called @ take 1 (drop (length called) direct))"
proof -
  have "coherent D s \<Longrightarrow> call_stubs D fs s =
     (let direct = map (direct_call D) fs; called = takeWhile (\<lambda>r. \<exists>p. r = Calls p) direct
      in called @ take 1 (drop (length called) direct))" for s
  proof (induction fs arbitrary: s)
    case (Cons f fs)
    obtain r s' where c: "call_stub D f s = (r, s')" by (rule prod.exhaust)
    have d: "direct_call D f = r" and s': "coherent D s'" using call_stub_direct [OF Cons.prems c] by simp_all
    show ?case using Cons.IH [OF s'] by (cases r) (simp_all add: c d Let_def)
  qed simp
  then show ?thesis using coherent_init .
qed

text \<open>
  A function that only the second library has is never found by name, as the null pointer of
  the first search is returned: the size of a quote can be asked for only when the first library
  has one of the two functions.
\<close>

theorem urts_functions_not_found:
  assumes "\<forall>n. \<exists>e. dlsym D (h_lib s Uae_service) n = (None, Some e)"
  shows "fst (get_sgx_ufunction D name s) = None \<and> fst (get_quote_size D run st0 s) = (False, st0)"
proof -
  have u: "fst (get_sgx_ufunction D n t) = None \<and> h_lib (snd (get_sgx_ufunction D n t)) = h_lib t"
    if h: "h_lib t Uae_service = h_lib s Uae_service" for n t
  proof -
    obtain e where "dlsym D (h_lib t Uae_service) n = (None, Some e)" using assms h by auto
    then show ?thesis by (simp add: get_sgx_ufunction_def load_symbol_def split: prod.split)
  qed
  obtain t1 where t1: "get_sgx_ufunction D ''sgx_calc_quote_size'' s = (None, t1)" "h_lib t1 = h_lib s"
    using u [of s "''sgx_calc_quote_size''"] by (metis prod.collapse)
  obtain t2 where "get_sgx_ufunction D ''sgx_get_quote_size'' t1 = (None, t2)"
    using u [of t1 "''sgx_get_quote_size''"] t1 by (metis prod.collapse)
  with t1 u show ?thesis by (simp add: get_quote_size_def)
qed

definition sample_linker :: linker where
  "sample_linker = \<lparr>dlopen = (\<lambda>lib. case lib of Uae_service \<Rightarrow> Some 1 | Urts \<Rightarrow> Some 2),
     dlsym = (\<lambda>h n. if h = Some 2 then (Some 9, None) else (None, Some ''undefined symbol''))\<rparr>"

theorem urts_functions_not_found_witness:
  "fst (get_sgx_ufunction sample_linker ''sgx_ecall'' (stubs_init\<lparr>h_lib := dlopen sample_linker\<rparr>)) = None \<and>
   fst (get_quote_size sample_linker (\<lambda>_. (0, 0)) (0, 0) (stubs_init\<lparr>h_lib := dlopen sample_linker\<rparr>)) = (False, 0, 0)"
  by (rule urts_functions_not_found) (simp add: sample_linker_def)

end
