(* ===== verification/Sgx_Calls.thy ===== *)
theory Sgx_Calls
  imports Sgx_Stub
begin

text \<open>
  The functions that \<open>service-provider/sgx_stub.c\<close> exports, one definition for each, with the arguments
  that it hands on. A pointer is a number, as in the theory \<open>Sgx_Stub\<close>, an integer argument of any
  width or signedness is an \<open>int\<close>. The function of the library that is reached takes the arguments in a
  list; what it returns is not changed by the stub. \<open>sgx_init_quote_ex\<close> is that of a build without
  \<open>UAE_SERVICE_HAS_BOOL\<close>, with four arguments.
\<close>

section \<open>Handing on a call\<close>

datatype c_arg = Ptr nat | Num int

type_synonym ptr = nat

text \<open>The function reached with its arguments, or the name of the missing function that ended the program.\<close>

datatype reached = Reached "nat option" "c_arg list" | Ended string

type_synonym stub_run = "stubs \<Rightarrow> reached \<times> stubs"

definition forward :: "linker \<Rightarrow> stub \<Rightarrow> c_arg list \<Rightarrow> stub_run" where
  "forward D f args s =
     (case call_stub D f s of
        (Calls p, s) \<Rightarrow> (Reached p args, s)
      | (Undefined_symbol n, s) \<Rightarrow> (Ended n, s))"

section \<open>The exported functions\<close>

definition sgx_register_wl_cert_chain :: "linker \<Rightarrow> ptr \<Rightarrow> int \<Rightarrow> stub_run" where
  "sgx_register_wl_cert_chain D p_wl_cert_chain wl_cert_chain_size =
     forward D Sgx_register_wl_cert_chain [Ptr p_wl_cert_chain, Num wl_cert_chain_size]"

definition invoke_service_ocall :: "linker \<Rightarrow> ptr \<Rightarrow> int \<Rightarrow> ptr \<Rightarrow> int \<Rightarrow> int \<Rightarrow> stub_run" where
  "invoke_service_ocall D pse_message_req pse_message_req_size pse_message_resp pse_message_resp_size
      timeout =
     forward D Invoke_service_ocall [Ptr pse_message_req, Num pse_message_req_size,
         Ptr pse_message_resp, Num pse_message_resp_size, Num timeout]"

definition sgx_get_target_info :: "linker \<Rightarrow> int \<Rightarrow> ptr \<Rightarrow> stub_run" where
  "sgx_get_target_info D enclave_id target_info =
     forward D Sgx_get_target_info [Num enclave_id, Ptr target_info]"

definition sgx_thread_setwait_untrusted_events_ocall :: "linker \<Rightarrow> ptr \<Rightarrow> ptr \<Rightarrow> stub_run" where
  "sgx_thread_setwait_untrusted_events_ocall D waiter self =
     forward D Sgx_thread_setwait_untrusted_events_ocall [Ptr waiter, Ptr self]"

definition sgx_get_extended_epid_group_id :: "linker \<Rightarrow> ptr \<Rightarrow> stub_run" where
  "sgx_get_extended_epid_group_id D p_extended_epid_group_id =
     forward D Sgx_get_extended_epid_group_id [Ptr p_extended_epid_group_id]"

definition close_session_ocall :: "linker \<Rightarrow> int \<Rightarrow> int \<Rightarrow> stub_run" where
  "close_session_ocall D sid timeout =
     forward D Close_session_ocall [Num sid, Num timeout]"

definition sgx_get_whitelist_size :: "linker \<Rightarrow> ptr \<Rightarrow> stub_run" where
  "sgx_get_whitelist_size D p_whitelist_size =
     forward D Sgx_get_whitelist_size [Ptr p_whitelist_size]"

definition sgx_create_enclave_ex ::
    "linker \<Rightarrow> ptr \<Rightarrow> int \<Rightarrow> ptr \<Rightarrow> ptr \<Rightarrow> ptr \<Rightarrow> ptr \<Rightarrow> int \<Rightarrow> ptr \<Rightarrow> stub_run" where
  "sgx_create_enclave_ex D file_name debug_v launch_token launch_token_updated enclave_id misc_attr
      ex_features ex_features_p =
     forward D Sgx_create_enclave_ex [Ptr file_name, Num debug_v, Ptr launch_token,
         Ptr launch_token_updated, Ptr enclave_id, Ptr misc_attr, Num ex_features, Ptr ex_features_p]"

definition sgx_create_enclave :: "linker \<Rightarrow> ptr \<Rightarrow> int \<Rightarrow> ptr \<Rightarrow> ptr \<Rightarrow> ptr \<Rightarrow> ptr \<Rightarrow> stub_run" where
  "sgx_create_enclave D file_name debug_v launch_token launch_token_updated enclave_id misc_attr =
     forward D Sgx_create_enclave [Ptr file_name, Num debug_v, Ptr launch_token,
         Ptr launch_token_updated, Ptr enclave_id, Ptr misc_attr]"

definition sgx_get_quote_ex :: "linker \<Rightarrow> ptr \<Rightarrow> ptr \<Rightarrow> ptr \<Rightarrow> ptr \<Rightarrow> int \<Rightarrow> stub_run" where
  "sgx_get_quote_ex D p_app_report p_att_key_id p_qe_report_info p_quote quote_size =
     forward D Sgx_get_quote_ex [Ptr p_app_report, Ptr p_att_key_id, Ptr p_qe_report_info, Ptr p_quote,
         Num quote_size]"

definition sgx_oc_cpuidex :: "linker \<Rightarrow> ptr \<Rightarrow> int \<Rightarrow> int \<Rightarrow> stub_run" where
  "sgx_oc_cpuidex D cpuinfo leaf subleaf =
     forward D Sgx_oc_cpuidex [Ptr cpuinfo, Num leaf, Num subleaf]"

definition sgx_destroy_enclave :: "linker \<Rightarrow> int \<Rightarrow> stub_run" where
  "sgx_destroy_enclave D enclave_id =
     forward D Sgx_destroy_enclave [Num enclave_id]"

definition create_session_ocall :: "linker \<Rightarrow> ptr \<Rightarrow> ptr \<Rightarrow> int \<Rightarrow> int \<Rightarrow> stub_run" where
  "create_session_ocall D sid dh_msg1 dh_msg1_size timeout =
     forward D Create_session_ocall [Ptr sid, Ptr dh_msg1, Num dh_msg1_size, Num timeout]"

definition sgx_report_attestation_status :: "linker \<Rightarrow> ptr \<Rightarrow> int \<Rightarrow> ptr \<Rightarrow> stub_run" where
  "sgx_report_attestation_status D p_platform_info attestation_status p_update_info =
     forward D Sgx_report_attestation_status [Ptr p_platform_info, Num attestation_status,
         Ptr p_update_info]"

definition sgx_get_whitelist :: "linker \<Rightarrow> ptr \<Rightarrow> int \<Rightarrow> stub_run" where
  "sgx_get_whitelist D p_whitelist whitelist_size =
     forward D Sgx_get_whitelist [Ptr p_whitelist, Num whitelist_size]"

definition sgx_create_enclave_from_buffer_ex ::
    "linker \<Rightarrow> ptr \<Rightarrow> int \<Rightarrow> int \<Rightarrow> ptr \<Rightarrow> ptr \<Rightarrow> int \<Rightarrow> ptr \<Rightarrow> stub_run" where
  "sgx_create_enclave_from_buffer_ex D buffer buffer_size debug_v enclave_id misc_attr ex_features
      ex_features_p =
     forward D Sgx_create_enclave_from_buffer_ex [Ptr buffer, Num buffer_size, Num debug_v,
         Ptr enclave_id, Ptr misc_attr, Num ex_features, Ptr ex_features_p]"

definition sgx_get_quote ::
    "linker \<Rightarrow> ptr \<Rightarrow> int \<Rightarrow> ptr \<Rightarrow> ptr \<Rightarrow> ptr \<Rightarrow> int \<Rightarrow> ptr \<Rightarrow> ptr \<Rightarrow> int \<Rightarrow> stub_run" where
  "sgx_get_quote D p_report quote_type p_spid p_nonce p_sig_rl sig_rl_size p_qe_report p_quote
      quote_size =
     forward D Sgx_get_quote [Ptr p_report, Num quote_type, Ptr p_spid, Ptr p_nonce, Ptr p_sig_rl,
         Num sig_rl_size, Ptr p_qe_report, Ptr p_quote, Num quote_size]"

definition sgx_get_quote_size :: "linker \<Rightarrow> ptr \<Rightarrow> ptr \<Rightarrow> stub_run" where
  "sgx_get_quote_size D p_sig_rl p_quote_size =
     forward D Sgx_get_quote_size [Ptr p_sig_rl, Ptr p_quote_size]"

definition sgx_ocall :: "linker \<Rightarrow> int \<Rightarrow> ptr \<Rightarrow> stub_run" where
  "sgx_ocall D index_v ms =
     forward D Sgx_ocall [Num index_v, Ptr ms]"

definition sgx_init_quote :: "linker \<Rightarrow> ptr \<Rightarrow> ptr \<Rightarrow> stub_run" where
  "sgx_init_quote D p_target_info p_gid =
     forward D Sgx_init_quote [Ptr p_target_info, Ptr p_gid]"

definition sgx_calc_quote_size :: "linker \<Rightarrow> ptr \<Rightarrow> int \<Rightarrow> ptr \<Rightarrow> stub_run" where
  "sgx_calc_quote_size D p_sig_rl sig_rl_size p_quote_size =
     forward D Sgx_calc_quote_size [Ptr p_sig_rl, Num sig_rl_size, Ptr p_quote_size]"

definition sgx_thread_wait_untrusted_event_ocall :: "linker \<Rightarrow> ptr \<Rightarrow> stub_run" where
  "sgx_thread_wait_untrusted_event_ocall D self =
     forward D Sgx_thread_wait_untrusted_event_ocall [Ptr self]"

definition sgx_ecall_switchless :: "linker \<Rightarrow> int \<Rightarrow> int \<Rightarrow> ptr \<Rightarrow> ptr \<Rightarrow> stub_run" where
  "sgx_ecall_switchless D eid index_v ocall_table ms =
     forward D Sgx_ecall_switchless [Num eid, Num index_v, Ptr ocall_table, Ptr ms]"

definition sgx_init_quote_ex :: "linker \<Rightarrow> ptr \<Rightarrow> ptr \<Rightarrow> ptr \<Rightarrow> ptr \<Rightarrow> stub_run" where
  "sgx_init_quote_ex D p_att_key_id p_qe_target_info p_pub_key_id_size p_pub_key_id =
     forward D Sgx_init_quote_ex [Ptr p_att_key_id, Ptr p_qe_target_info, Ptr p_pub_key_id_size,
         Ptr p_pub_key_id]"

definition sgx_create_encrypted_enclave ::
    "linker \<Rightarrow> ptr \<Rightarrow> int \<Rightarrow> ptr \<Rightarrow> ptr \<Rightarrow> ptr \<Rightarrow> ptr \<Rightarrow> ptr \<Rightarrow> stub_run" where
  "sgx_create_encrypted_enclave D file_name debug_v launch_token launch_token_updated enclave_id
      misc_attr sealed_key =
     forward D Sgx_create_encrypted_enclave [Ptr file_name, Num debug_v, Ptr launch_token,
         Ptr launch_token_updated, Ptr enclave_id, Ptr misc_attr, Ptr sealed_key]"

definition sgx_thread_set_untrusted_event_ocall :: "linker \<Rightarrow> ptr \<Rightarrow> stub_run" where
  "sgx_thread_set_untrusted_event_ocall D waiter =
     forward D Sgx_thread_set_untrusted_event_ocall [Ptr waiter]"

definition sgx_get_quote_size_ex :: "linker \<Rightarrow> ptr \<Rightarrow> ptr \<Rightarrow> stub_run" where
  "sgx_get_quote_size_ex D p_att_key_id p_quote_size =
     forward D Sgx_get_quote_size_ex [Ptr p_att_key_id, Ptr p_quote_size]"

definition sgx_ecall :: "linker \<Rightarrow> int \<Rightarrow> int \<Rightarrow> ptr \<Rightarrow> ptr \<Rightarrow> stub_run" where
  "sgx_ecall D eid index_v ocall_table ms =
     forward D Sgx_ecall [Num eid, Num index_v, Ptr ocall_table, Ptr ms]"

definition sgx_thread_set_multiple_untrusted_events_ocall :: "linker \<Rightarrow> ptr \<Rightarrow> int \<Rightarrow> stub_run" where
  "sgx_thread_set_multiple_untrusted_events_ocall D waiters total_v =
     forward D Sgx_thread_set_multiple_untrusted_events_ocall [Ptr waiters, Num total_v]"

definition exchange_report_ocall :: "linker \<Rightarrow> int \<Rightarrow> ptr \<Rightarrow> int \<Rightarrow> ptr \<Rightarrow> int \<Rightarrow> int \<Rightarrow> stub_run" where
  "exchange_report_ocall D sid dh_msg2 dh_msg2_size dh_msg3 dh_msg3_size timeout =
     forward D Exchange_report_ocall [Num sid, Ptr dh_msg2, Num dh_msg2_size, Ptr dh_msg3,
         Num dh_msg3_size, Num timeout]"

section \<open>What a call reaches\<close>

definition reaches :: "linker \<Rightarrow> stub \<Rightarrow> c_arg list \<Rightarrow> reached" where
  "reaches D f args = (case direct_call D f of Calls p \<Rightarrow> Reached p args | Undefined_symbol n \<Rightarrow> Ended n)"

lemma forward_direct:
  assumes "coherent D s" and "forward D f args s = (r, s')"
  shows "r = reaches D f args \<and> coherent D s'"
proof -
  obtain c t where c: "call_stub D f s = (c, t)" by (rule prod.exhaust)
  from call_stub_direct [OF assms(1) c] show ?thesis
    using assms(2) c by (auto simp: forward_def reaches_def split: stub_call.splits)
qed

text \<open>A program that makes its calls one after the other.\<close>

fun run_calls :: "linker \<Rightarrow> (stub \<times> c_arg list) list \<Rightarrow> stubs \<Rightarrow> reached list" where
  "run_calls D [] s = []"
| "run_calls D ((f, args) # fs) s =
     (case forward D f args s of
        (Ended n, s) \<Rightarrow> [Ended n]
      | (Reached p as, s) \<Rightarrow> Reached p as # run_calls D fs s)"

text \<open>
  As long as every function is there, each call reaches its own, with the arguments it was made
  with, whatever was called before.
\<close>

lemma arguments_handed_on:
  assumes "coherent D s" and "\<forall>(f, args) \<in> set fs. \<exists>p. direct_call D f = Calls p"
  shows "run_calls D fs s = map (\<lambda>(f, args). reaches D f args) fs"
  using assms
proof (induction fs arbitrary: s)
  case (Cons fa fs)
  obtain f args where fa: "fa = (f, args)" by (rule prod.exhaust)
  obtain r t where r: "forward D f args s = (r, t)" by (rule prod.exhaust)
  obtain p where p: "direct_call D f = Calls p" using Cons.prems(2) fa by auto
  have "r = Reached p args" "coherent D t"
    using forward_direct [OF Cons.prems(1) r] p by (simp_all add: reaches_def)
  then show ?case using Cons fa r p by (simp add: reaches_def)
qed simp

text \<open>The calls of the client for a quote.\<close>

lemma quote_calls:
  assumes "coherent D s" and "sgx_init_quote D ti gid s = (r, s')" "direct_call D Sgx_init_quote = Calls p"
    and "sgx_get_quote D rep typ spid nonce rl rl_sz qe quote sz s' = (q, s'')" "direct_call D Sgx_get_quote = Calls p'"
  shows "r = Reached p [Ptr ti, Ptr gid] \<and>
    q = Reached p' [Ptr rep, Num typ, Ptr spid, Ptr nonce, Ptr rl, Num rl_sz, Ptr qe, Ptr quote, Num sz]"
proof -
  have "r = reaches D Sgx_init_quote [Ptr ti, Ptr gid]" "coherent D s'"
    using forward_direct [OF assms(1) assms(2) [unfolded sgx_init_quote_def]] by simp_all
  with forward_direct [OF _ assms(4) [unfolded sgx_get_quote_def]] show ?thesis
    using assms(3,5) by (simp add: reaches_def)
qed

end
