(* ===== verification/Client_Options.thy ===== *)
theory Client_Options
  imports Client Sp_Options
begin

text \<open>
  The start of the client (\<open>App/App.cpp\<close>): the options of \<open>main\<close>, the random nonce, the address
  of the server, and what is asked before the enclave is launched.

  The surroundings are those of the options of the service provider. \<open>rd n\<close> is what the \<open>n\<close>-th
  execution of \<open>RDRAND\<close> gives, \<open>None\<close> when it has no random number.
\<close>

section \<open>State\<close>

definition MODE_ATTEST :: "8 word" where "MODE_ATTEST = 0x0"
definition MODE_EPID :: "8 word" where "MODE_EPID = 0x1"
definition MODE_QUOTE :: "8 word" where "MODE_QUOTE = 0x2"

record client_opts =
  co_cfg :: client_config
  co_have_spid :: "8 word"
  co_stdio :: bool
  co_debug :: bool
  co_verbose :: bool
  co_rd :: nat

text \<open>
  How the program ends: with an exit code, with an access through the null pointer, not at
  all, or not before the peer answers.
\<close>

datatype main_end = Exit_code int | Crash | Hang | Awaits

section \<open>The random nonce\<close>

text \<open>
  The loop for one word: the counter \<open>retry\<close> is never changed, so that only success ends it. The
  result is the word and the number of executions so far.
\<close>

partial_function (option) rdrand_loop :: "(nat \<Rightarrow> 64 word option) \<Rightarrow> nat \<Rightarrow> (64 word \<times> nat) option" where
  "rdrand_loop rd n = (case rd n of Some v \<Rightarrow> Some (v, Suc n) | None \<Rightarrow> rdrand_loop rd (Suc n))"

definition le64 :: "64 word \<Rightarrow> bytes" where
  "le64 v = le32 (ucast v) @ le32 (ucast (drop_bit 32 v))"

definition random_nonce :: "(nat \<Rightarrow> 64 word option) \<Rightarrow> nat \<Rightarrow> (bytes \<times> nat) option" where
  "random_nonce rd n =
     (case rdrand_loop rd n of None \<Rightarrow> None
      | Some (v, n) \<Rightarrow>
          (case rdrand_loop rd n of None \<Rightarrow> None | Some (v', n) \<Rightarrow> Some (le64 v @ le64 v', n)))"

section \<open>The options\<close>

definition client_shorts :: string where "client_shorts = ''N:P:S:dehlmn:p:qrs:vz''"

definition client_longs :: long_options where
  "client_longs =
    [(''help'', No_argument, CHR ''h''), (''debug'', No_argument, CHR ''d''), (''epid-gid'', No_argument, CHR ''e''),
     (''nonce'', Required_argument, CHR ''n''), (''nonce-file'', Required_argument, CHR ''N''),
     (''rand-nonce'', No_argument, CHR ''r''), (''spid'', Required_argument, CHR ''s''),
     (''spid-file'', Required_argument, CHR ''S''), (''linkable'', No_argument, CHR ''l''),
     (''pubkey'', Optional_argument, CHR ''p''), (''pubkey-file'', Required_argument, CHR ''P''),
     (''quote'', No_argument, CHR ''q''), (''verbose'', No_argument, CHR ''v''), (''stdio'', No_argument, CHR ''z'')]"

definition client_defaults :: client_opts where
  "client_defaults = \<lparr>co_cfg = \<lparr>cc_mode = MODE_ATTEST, cc_flags = 0, cc_spid = replicate 16 0,
       cc_pubkey = replicate 64 0, cc_nonce = replicate 16 0, cc_server = None, cc_port = None\<rparr>,
     co_have_spid = 0, co_stdio = False, co_debug = False, co_verbose = False, co_rd = 0\<rparr>"

definition set_cfg :: "(client_config \<Rightarrow> client_config) \<Rightarrow> client_opts \<Rightarrow> client_opts" where
  "set_cfg f q = q\<lparr>co_cfg := f (co_cfg q)\<rparr>"

definition set_opt :: "32 word \<Rightarrow> client_config \<Rightarrow> client_config" where
  "set_opt x k = k\<lparr>cc_flags := cc_flags k OR x\<rparr>"

text \<open>One option. An argument that is not there is the null pointer.\<close>

definition client_opt_step ::
    "opt_env \<Rightarrow> (nat \<Rightarrow> 64 word option) \<Rightarrow> option_event \<Rightarrow> client_opts \<Rightarrow> cstate \<Rightarrow> main_end + (client_opts \<times> cstate)" where
  "client_opt_step V rd ev q s =
     (let c = fst ev; arg = (case snd ev of Some t \<Rightarrow> t | None \<Rightarrow> []); L = oe_lib V; fs = oe_files V;
          cfg = co_cfg q; fail = Inl (Exit_code 1) in
      if c = CHR ''N'' then
        (case from_hexstring_file (oe_junk V) (oe_malloc V) (oe_heap V) fs arg 16 of
           (False, _) \<Rightarrow> fail
         | (True, bs) \<Rightarrow> Inr (set_cfg (\<lambda>k. set_opt OPT_NONCE (k\<lparr>cc_nonce := bs\<rparr>)) q, s))
      else if c = CHR ''P'' then
        (case key_load_file L arg (fs arg) KEY_PUBLIC s of
           (True, Some key, s) \<Rightarrow>
             (case key_to_sgx_ec256 L (take 32 (cc_pubkey cfg), drop 32 (cc_pubkey cfg)) key s of
                (True, (gx, gy), s) \<Rightarrow> Inr (set_cfg (\<lambda>k. set_opt OPT_PUBKEY (k\<lparr>cc_pubkey := gx @ gy\<rparr>)) q, s)
              | _ \<Rightarrow> fail)
         | (True, None, s) \<Rightarrow> Inl Crash
         | (False, _, s) \<Rightarrow> fail)
      else if c = CHR ''S'' then
        (case from_hexstring_file (oe_junk V) (oe_malloc V) (oe_heap V) fs arg 16 of
           (False, _) \<Rightarrow> fail
         | (True, bs) \<Rightarrow> Inr ((set_cfg (\<lambda>k. k\<lparr>cc_spid := bs\<rparr>) q)\<lparr>co_have_spid := co_have_spid q + 1\<rparr>, s))
      else if c = CHR ''d'' then Inr (q\<lparr>co_debug := True\<rparr>, s)
      else if c = CHR ''e'' then Inr (set_cfg (\<lambda>k. k\<lparr>cc_mode := MODE_EPID\<rparr>) q, s)
      else if c = CHR ''l'' then Inr (set_cfg (set_opt OPT_LINK) q, s)
      else if c = CHR ''m'' then Inr (set_cfg (set_opt OPT_PSE) q, s)
      else if c = CHR ''n'' then
        (if length arg < 32 then fail
         else case hex_option V arg 16 of
           (False, _) \<Rightarrow> fail
         | (True, bs) \<Rightarrow> Inr (set_cfg (\<lambda>k. set_opt OPT_NONCE (k\<lparr>cc_nonce := bs\<rparr>)) q, s))
      else if c = CHR ''p'' then
        (if snd ev = None then Inl Crash
         else case hex_option V arg 64 of
           (False, _) \<Rightarrow> fail
         | (True, bs) \<Rightarrow>
             Inr (set_cfg (\<lambda>k. set_opt OPT_PUBKEY (k\<lparr>cc_pubkey := rev (take 32 bs) @ rev (drop 32 bs)\<rparr>)) q, s))
      else if c = CHR ''q'' then Inr (set_cfg (\<lambda>k. k\<lparr>cc_mode := MODE_QUOTE\<rparr>) q, s)
      else if c = CHR ''r'' then
        (case random_nonce rd (co_rd q) of
           None \<Rightarrow> Inl Hang
         | Some (bs, n) \<Rightarrow> Inr ((set_cfg (\<lambda>k. set_opt OPT_NONCE (k\<lparr>cc_nonce := bs\<rparr>)) q)\<lparr>co_rd := n\<rparr>, s))
      else if c = CHR ''s'' then
        (if length arg < 32 then fail
         else case hex_option V arg 16 of
           (False, _) \<Rightarrow> fail
         | (True, bs) \<Rightarrow> Inr ((set_cfg (\<lambda>k. k\<lparr>cc_spid := bs\<rparr>) q)\<lparr>co_have_spid := co_have_spid q + 1\<rparr>, s))
      else if c = CHR ''v'' then Inr (q\<lparr>co_verbose := True\<rparr>, s)
      else if c = CHR ''z'' then Inr (q\<lparr>co_stdio := True\<rparr>, s)
      else fail)"

fun client_opt_loop ::
    "opt_env \<Rightarrow> (nat \<Rightarrow> 64 word option) \<Rightarrow> option_event list \<Rightarrow> client_opts \<Rightarrow> cstate \<Rightarrow> main_end + (client_opts \<times> cstate)" where
  "client_opt_loop V rd [] q s = Inr (q, s)"
| "client_opt_loop V rd (ev # evs) q s =
     (case client_opt_step V rd ev q s of Inl e \<Rightarrow> Inl e | Inr (q', s') \<Rightarrow> client_opt_loop V rd evs q' s')"

text \<open>The remaining argument is the host, with a port behind the first colon.\<close>

definition server_argument :: "opt_env \<Rightarrow> client_opts \<Rightarrow> string list \<Rightarrow> main_end + client_opts" where
  "server_argument V q rest =
     (if length rest > 1 then Inl (Exit_code 1)
      else case rest of
        [] \<Rightarrow>
          if co_stdio q then Inr q
          else if oe_strdup V then Inr (set_cfg (\<lambda>k. k\<lparr>cc_server := Some ''localhost''\<rparr>) q)
          else Inl (Exit_code 1)
      | host # _ \<Rightarrow>
          if co_stdio q \<or> \<not> oe_strdup V then Inl (Exit_code 1)
          else let name = takeWhile (\<lambda>c. c \<noteq> CHR '':'') host in
            Inr (set_cfg (\<lambda>k. k\<lparr>cc_server := Some name,
              cc_port := if length name < length host then Some (drop (Suc (length name)) host) else cc_port k\<rparr>) q))"

definition client_setup ::
    "opt_env \<Rightarrow> (nat \<Rightarrow> 64 word option) \<Rightarrow> string list \<Rightarrow> main_end + client_opts" where
  "client_setup V rd args =
     (let (evs, rest) = getopt_long (short_spec client_shorts) client_longs args in
      case client_opt_loop V rd evs client_defaults crypto_init of Inl e \<Rightarrow> Inl e
      | Inr (q, s) \<Rightarrow>
          (case server_argument V q rest of Inl e \<Rightarrow> Inl e
           | Inr q \<Rightarrow> if co_have_spid q = 0 \<and> cc_mode (co_cfg q) \<noteq> MODE_EPID then Inl (Exit_code 1) else Inr q))"

section \<open>Lemmas\<close>

definition first_random :: "(nat \<Rightarrow> 64 word option) \<Rightarrow> nat \<Rightarrow> 64 word \<times> nat \<Rightarrow> bool" where
  "first_random rd n r \<longleftrightarrow>
     n < snd r \<and> rd (snd r - 1) = Some (fst r) \<and> (\<forall>k. n \<le> k \<and> k < snd r - 1 \<longrightarrow> rd k = None)"

lemma first_random_Suc: "rd n = None \<Longrightarrow> first_random rd (Suc n) r \<Longrightarrow> first_random rd n r"
  by (auto simp: first_random_def) (metis Suc_leI le_neq_implies_less)

lemma rdrand_loop_found:
  assumes "rdrand_loop rd n = Some r"
  shows "first_random rd n r"
proof (rule rdrand_loop.raw_induct [OF _ assms])
  fix loop :: "(nat \<Rightarrow> 64 word option) \<Rightarrow> nat \<Rightarrow> (64 word \<times> nat) option" and rd n r
  assume "\<And>rd n r. loop rd n = Some r \<Longrightarrow> first_random rd n r"
    and "(case rd n of None \<Rightarrow> loop rd (Suc n) | Some v \<Rightarrow> Some (v, Suc n)) = Some r"
  then show "first_random rd n r"
    using first_random_Suc [of rd n r] by (cases "rd n") (auto simp: first_random_def [of rd n "(_, Suc n)"])
qed

lemma rdrand_loop_finds: "rd (n + d) \<noteq> None \<Longrightarrow> rdrand_loop rd n \<noteq> None"
proof (induction d arbitrary: n)
  case 0
  then show ?case by (subst rdrand_loop.simps) (auto split: option.split)
next
  case (Suc d)
  then have "rdrand_loop rd (Suc n) \<noteq> None" by simp
  then show ?case by (subst rdrand_loop.simps) (auto split: option.split)
qed

text \<open>The invariant of the options.\<close>

definition client_opts_ok :: "client_opts \<Rightarrow> bool" where
  "client_opts_ok q \<longleftrightarrow> length (cc_spid (co_cfg q)) = 16 \<and> length (cc_nonce (co_cfg q)) = 16 \<and>
     cc_server (co_cfg q) = None \<and> cc_port (co_cfg q) = None"

lemma length_le64 [simp]: "length (le64 v) = 8"
  by (simp add: le64_def)

lemma random_nonce_length: "random_nonce rd n = Some (bs, m) \<Longrightarrow> length bs = 16"
  by (auto simp: random_nonce_def split: option.splits prod.splits)

lemma client_opts_ok_default: "client_opts_ok client_defaults"
  by (simp add: client_opts_ok_def client_defaults_def)

lemma client_opt_step_ok:
  assumes "client_opts_ok q" and "client_opt_step V rd ev q s = Inr (q', s')"
  shows "client_opts_ok q'"
proof -
  obtain c a where ev: "ev = (c, a)" by (rule prod.exhaust)
  have "c \<in> set ''NPSdelmnpqrsvz''"
    using assms(2) unfolding ev client_opt_step_def Let_def by (auto split: if_splits)
  then show ?thesis
    using assms unfolding ev
    by (auto simp: client_opt_step_def client_opts_ok_def set_cfg_def set_opt_def Let_def
        dest: hex_option_length from_hexstring_file_length random_nonce_length
        split: if_splits option.splits prod.splits bool.splits)
qed

lemma client_opt_loop_ok:
  "client_opts_ok q \<Longrightarrow> client_opt_loop V rd evs q s = Inr (q', s') \<Longrightarrow> client_opts_ok q'"
  by (induction evs arbitrary: q s) (auto dest: client_opt_step_ok split: sum.splits prod.splits)

section \<open>Properties\<close>

text \<open>
  A word of the random nonce is the first that \<open>RDRAND\<close> has; when it never has one, the loop
  never ends: the limit of ten tries is not kept, and the message about the underflow is never
  reached.
\<close>

theorem rdrand_waits_for_success:
  "case rdrand_loop rd n of None \<Rightarrow> \<forall>k\<ge>n. rd k = None | Some r \<Rightarrow> first_random rd n r"
proof (cases "rdrand_loop rd n")
  case None
  have "rd k = None" if "k \<ge> n" for k
    using rdrand_loop_finds [of rd n "k - n"] None that by (cases "rd k") auto
  with None show ?thesis by simp
qed (simp add: rdrand_loop_found)

theorem rdrand_waits_for_success_witness:
  "rdrand_loop (\<lambda>k. if k < 3 then None else Some 7) 0 = Some (7, 4)"
proof -
  let ?rd = "\<lambda>k :: nat. if k < 3 then None else Some (7 :: 64 word)"
  note t = rdrand_waits_for_success [of 0 ?rd]
  show ?thesis
  proof (cases "rdrand_loop ?rd 0")
    case None
    then have "?rd 3 = None" using t by (simp only: option.case)
    then show ?thesis by simp
  next
    case (Some r)
    then have f: "first_random ?rd 0 r" using t by simp
    then have "\<not> snd r - 1 < 3" "fst r = 7" by (auto simp: first_random_def split: if_splits)
    moreover have "\<not> 3 < snd r - 1" using f by (auto simp: first_random_def)
    ultimately show ?thesis using Some f by (cases r) (auto simp: first_random_def)
  qed
qed

text \<open>
  A client that gets through its options has a nonce and an SPID of full length, an SPID that was
  given unless only the group is asked for, and a server to talk to exactly when it does not
  talk over the standard streams.
\<close>

theorem client_starts_configured:
  assumes "client_setup V rd args = Inr q"
  shows "length (cc_nonce (co_cfg q)) = 16 \<and> length (cc_spid (co_cfg q)) = 16 \<and>
    (co_have_spid q \<noteq> 0 \<or> cc_mode (co_cfg q) = MODE_EPID) \<and> (cc_server (co_cfg q) = None \<longleftrightarrow> co_stdio q)"
proof -
  obtain evs rest where g: "getopt_long (short_spec client_shorts) client_longs args = (evs, rest)" by (rule prod.exhaust)
  obtain q1 s where l: "client_opt_loop V rd evs client_defaults crypto_init = Inr (q1, s)"
    using assms g by (auto simp: client_setup_def split: sum.splits prod.splits)
  have a: "server_argument V q1 rest = Inr q" "\<not> (co_have_spid q = 0 \<and> cc_mode (co_cfg q) \<noteq> MODE_EPID)"
    using assms g l by (auto simp: client_setup_def split: sum.splits if_splits)
  have "client_opts_ok q1" by (rule client_opt_loop_ok [OF client_opts_ok_default l])
  with a show ?thesis
    by (auto simp: client_opts_ok_def server_argument_def set_cfg_def Let_def split: if_splits list.splits)
qed

theorem client_starts_configured_witness:
  "\<exists>q. client_setup (sample_env []) (\<lambda>_. None) [''-e'', ''host:99''] = Inr q \<and> length (cc_nonce (co_cfg q)) = 16"
proof -
  have "\<exists>q. client_setup (sample_env []) (\<lambda>_. None) [''-e'', ''host:99''] = Inr q"
    by (simp add: client_setup_def getopt_long.simps client_shorts_def client_opt_step_def server_argument_def
        set_cfg_def client_defaults_def sample_env_def MODE_EPID_def)
  then show ?thesis using client_starts_configured by blast
qed

text \<open>
  The long form of the option for the public key may be given without a value; the program
  then reads the key through the null pointer.
\<close>

theorem pubkey_option_crashes:
  "client_setup V rd (''--pubkey'' # args) = Inl Crash"
proof -
  have "long_matches client_longs ''pubkey'' = [(''pubkey'', Optional_argument, CHR ''p'')]"
    by (simp add: long_matches_def client_longs_def)
  then have "long_option client_longs ''pubkey'' args = ((CHR ''p'', None), args)"
    by (simp add: long_option_def)
  then show ?thesis
    by (simp add: client_setup_def getopt_long.simps client_opt_step_def Let_def split: prod.split)
qed

end
