(* ===== verification/Client_Main.thy ===== *)
theory Client_Main
  imports Client_Options Sgx_Stub
begin

text \<open>
  The rest of the client (\<open>App/App.cpp\<close>): how the enclave is found and launched, \<open>do_quote\<close>, the
  two ways to run the program, and \<open>main\<close>. The system calls and the SGX SDK are parameters, as in
  the other theories; the value of an error code of the SDK is a parameter of the messages.
\<close>

section \<open>Messages for the errors of the launch\<close>

datatype sgx_error =
  SGX_ERROR_UNEXPECTED | SGX_ERROR_INVALID_PARAMETER | SGX_ERROR_OUT_OF_MEMORY | SGX_ERROR_ENCLAVE_LOST
| SGX_ERROR_INVALID_ENCLAVE | SGX_ERROR_INVALID_ENCLAVE_ID | SGX_ERROR_INVALID_SIGNATURE
| SGX_ERROR_OUT_OF_EPC | SGX_ERROR_NO_DEVICE | SGX_ERROR_MEMORY_MAP_CONFLICT
| SGX_ERROR_INVALID_METADATA | SGX_ERROR_DEVICE_BUSY | SGX_ERROR_INVALID_VERSION
| SGX_ERROR_INVALID_ATTRIBUTE | SGX_ERROR_ENCLAVE_FILE_ACCESS

definition sgx_errlist :: "(sgx_error \<times> string \<times> string option) list" where
  "sgx_errlist =
    [(SGX_ERROR_UNEXPECTED, ''Unexpected error occurred.'', None),
     (SGX_ERROR_INVALID_PARAMETER, ''Invalid parameter.'', None),
     (SGX_ERROR_OUT_OF_MEMORY, ''Out of memory.'', None),
     (SGX_ERROR_ENCLAVE_LOST, ''Power transition occurred.'',
        Some (''Please refer to the sample '' @ [DQUOTE] @ ''PowerTransition'' @ [DQUOTE] @ '' for details.'')),
     (SGX_ERROR_INVALID_ENCLAVE, ''Invalid enclave image.'', None),
     (SGX_ERROR_INVALID_ENCLAVE_ID, ''Invalid enclave identification.'', None),
     (SGX_ERROR_INVALID_SIGNATURE, ''Invalid enclave signature.'', None),
     (SGX_ERROR_OUT_OF_EPC, ''Out of EPC memory.'', None),
     (SGX_ERROR_NO_DEVICE, ''Invalid SGX device.'',
        Some ''Please make sure SGX module is enabled in the BIOS, and install SGX driver afterwards.''),
     (SGX_ERROR_MEMORY_MAP_CONFLICT, ''Memory map conflicted.'', None),
     (SGX_ERROR_INVALID_METADATA, ''Invalid enclave metadata.'', None),
     (SGX_ERROR_DEVICE_BUSY, ''SGX device was busy.'', None),
     (SGX_ERROR_INVALID_VERSION, ''Enclave version was invalid.'', None),
     (SGX_ERROR_INVALID_ATTRIBUTE, ''Enclave was not authorized.'', None),
     (SGX_ERROR_ENCLAVE_FILE_ACCESS, ''Can't open enclave file.'', None)]"

fun show_hex :: "nat \<Rightarrow> string" where
  "show_hex n = (let d = ''0123456789ABCDEF'' ! (n mod 16) in if n < 16 then [d] else show_hex (n div 16) @ [d])"

declare show_hex.simps [simp del]

fun error_lines :: "(sgx_error \<Rightarrow> 32 word) \<Rightarrow> 32 word \<Rightarrow> (sgx_error \<times> string \<times> string option) list \<Rightarrow> string" where
  "error_lines val r [] = ''Error code is 0x'' @ show_hex (unat r) @ ''. Please refer to the '' @ [DQUOTE] @
     ''Intel SGX SDK Developer Reference'' @ [DQUOTE] @ '' for more details.'' @ [LF]"
| "error_lines val r ((err, msg, sug) # es) =
     (if r = val err then
        (case sug of None \<Rightarrow> [] | Some t \<Rightarrow> ''Info: '' @ t @ [LF]) @ ''Error: '' @ msg @ [LF]
      else error_lines val r es)"

definition print_error_message :: "(sgx_error \<Rightarrow> 32 word) \<Rightarrow> 32 word \<Rightarrow> string" where
  "print_error_message val r = error_lines val r sgx_errlist"

section \<open>Finding the enclave\<close>

fun split_at :: "char \<Rightarrow> string \<Rightarrow> string list" where
  "split_at d [] = [[]]"
| "split_at d (c # cs) =
     (if c = d then [] # split_at d cs else (case split_at d cs of [] \<Rightarrow> [[c]] | t # ts \<Rightarrow> (c # t) # ts))"

text \<open>The tokens of \<open>strtok\<close>, which skips empty ones.\<close>

definition strtok_tokens :: "char \<Rightarrow> string \<Rightarrow> string list" where
  "strtok_tokens d s = filter (\<lambda>t. t \<noteq> []) (split_at d s)"

text \<open>\<open>strncat\<close> into a buffer of \<open>len\<close> characters that holds \<open>dst\<close>; \<open>None\<close> is a write beyond it.\<close>

definition strncat :: "nat \<Rightarrow> string \<Rightarrow> string \<Rightarrow> 64 word \<Rightarrow> string option" where
  "strncat len dst src n = (let r = dst @ take (unat n) src in if length r < len then Some r else None)"

text \<open>The path for one directory: the space that is left is computed in \<open>size_t\<close>.\<close>

definition candidate :: "nat \<Rightarrow> string \<Rightarrow> string \<Rightarrow> string option" where
  "candidate len dir fname =
     (let rem = of_nat (len - 1) - of_nat (length dir) - 1 in
      case strncat len (take (len - 1) dir) ''/'' rem of None \<Rightarrow> None
      | Some p \<Rightarrow> strncat len p fname (rem - 1))"

fun search_dirs :: "(string \<Rightarrow> bool) \<Rightarrow> nat \<Rightarrow> string \<Rightarrow> string list \<Rightarrow> string option option" where
  "search_dirs exists len fname [] = Some None"
| "search_dirs exists len fname (d # ds) =
     (case candidate len d fname of None \<Rightarrow> None
      | Some p \<Rightarrow> if exists p then Some (Some p) else search_dirs exists len fname ds)"

text \<open>The outer \<open>None\<close> is the overflow of the buffer, the inner one that nothing was found.\<close>

definition file_in_searchpath ::
    "bool \<Rightarrow> (string \<Rightarrow> bool) \<Rightarrow> string \<Rightarrow> string option \<Rightarrow> nat \<Rightarrow> string option option" where
  "file_in_searchpath strdup_ok exists fname search len =
     (case search of None \<Rightarrow> Some None
      | Some s \<Rightarrow>
          if s = [] \<or> \<not> strdup_ok then Some None
          else search_dirs exists len fname (strtok_tokens CHR '':'' s))"

record launch_env =
  le_exists :: "string \<Rightarrow> bool"
  le_getenv :: "string \<Rightarrow> string option"
  le_strdup :: bool
  le_create :: "string \<Rightarrow> 32 word"
  le_path_max :: nat

definition ENCLAVE_NAME :: string where "ENCLAVE_NAME = ''enclave.signed.so''"
definition DEF_LIB_SEARCHPATH :: string where "DEF_LIB_SEARCHPATH = ''/lib:/lib64:/usr/lib:/usr/lib64''"

definition search_paths :: "launch_env \<Rightarrow> string option list" where
  "search_paths F = [le_getenv F ''LD_LIBRARY_PATH'', le_getenv F ''DT_RUNPATH'', Some DEF_LIB_SEARCHPATH]"

fun try_paths :: "launch_env \<Rightarrow> string \<Rightarrow> string option list \<Rightarrow> string option" where
  "try_paths F fname [] = Some fname"
| "try_paths F fname (s # ss) =
     (case file_in_searchpath (le_strdup F) (le_exists F) fname s (le_path_max F) of
        None \<Rightarrow> None
      | Some (Some p) \<Rightarrow> Some p
      | Some None \<Rightarrow> try_paths F fname ss)"

text \<open>The path that is loaded, and the status of the launch.\<close>

definition sgx_create_enclave_search :: "launch_env \<Rightarrow> string \<Rightarrow> (string \<times> 32 word) option" where
  "sgx_create_enclave_search F fname =
     (if take 1 fname = ''/'' \<or> le_exists F fname then Some (fname, le_create F fname)
      else map_option (\<lambda>p. (p, le_create F p)) (try_paths F fname (search_paths F)))"

definition initialize_enclave :: "(sgx_error \<Rightarrow> 32 word) \<Rightarrow> launch_env \<Rightarrow> int \<times> string" where
  "initialize_enclave val F =
     (let r = le_create F ENCLAVE_NAME in
      if r \<noteq> SGX_SUCCESS then (-1, print_error_message val r) else (0, []))"

section \<open>The quote\<close>

record quote_env =
  qe_init :: "32 word \<times> bytes \<times> 32 word"
  qe_size :: "bool \<times> 32 word \<times> 32 word"
  qe_malloc :: bool
  qe_quote :: "bytes \<Rightarrow> bool \<Rightarrow> bytes \<Rightarrow> bytes option \<Rightarrow> 32 word \<Rightarrow> 32 word \<times> bytes"
  qe_bio :: bio
  qe_alloc :: bool

definition quote_text :: "string \<Rightarrow> bytes option \<Rightarrow> string" where
  "quote_text b64 nonce =
     ''{'' @ [LF, DQUOTE] @ ''isvEnclaveQuote'' @ [DQUOTE] @ '':'' @ [DQUOTE] @ b64 @ [DQUOTE] @
     (case nonce of None \<Rightarrow> []
      | Some n \<Rightarrow> '','' @ [LF, DQUOTE] @ ''nonce'' @ [DQUOTE] @ '':'' @ [DQUOTE] @ print_hexstring n @ [DQUOTE]) @
     [LF] @ ''}'' @ [LF]"

text \<open>How the function ends, and what goes to the standard output.\<close>

definition do_quote ::
    "client_env \<Rightarrow> quote_env \<Rightarrow> client_config \<Rightarrow> tcall list \<Rightarrow> (client_end \<times> string) \<times> tcall list" where
  "do_quote V Q cfg tr =
     (let nonce = (if cc_flags cfg AND OPT_NONCE \<noteq> 0 then Some (cc_nonce cfg) else None);
          (st, target_info, gid) = qe_init Q in
      if st \<noteq> SGX_SUCCESS then ((Returns 1, []), tr)
      else if cc_mode cfg = MODE_EPID then ((Exits 0, print_hexstring (rev (le32 gid)) @ [LF]), tr)
      else if ce_ecall V tr \<noteq> SGX_SUCCESS then ((Returns 1, []), tr)
      else let ((sgxrv, report), tr) = get_report (ce_sdk V) target_info tr in
        if sgxrv \<noteq> SGX_SUCCESS then ((Returns 1, []), tr)
        else let (there, st, sz) = qe_size Q in
          if \<not> there \<or> st \<noteq> SGX_SUCCESS \<or> \<not> qe_malloc Q then ((Returns 1, []), tr)
          else let (st, quote) = qe_quote Q report (cc_flags cfg AND OPT_LINK \<noteq> 0) (cc_spid cfg) nonce sz in
            if st \<noteq> SGX_SUCCESS then ((Returns 1, []), tr)
            else (case base64_encode (qe_bio Q) (qe_alloc Q) quote of
                None \<Rightarrow> ((Returns 1, []), tr)
              | Some b64 \<Rightarrow> ((Returns 0, quote_text b64 nonce), tr)))"

section \<open>The program\<close>

record client_sys =
  cs_opts :: opt_env
  cs_rd :: "nat \<Rightarrow> 64 word option"
  cs_logfile :: bool
  cs_localtime :: bool
  cs_launch :: launch_env
  cs_errors :: "sgx_error \<Rightarrow> 32 word"
  cs_linker :: linker
  cs_cap :: "device_status option"
  cs_client :: client_env
  cs_quote :: quote_env
  cs_resolve :: "string \<Rightarrow> string \<Rightarrow> address list option"
  cs_world :: world

text \<open>The result of \<open>do_attestation\<close> is not looked at.\<close>

definition after_attestation :: "client_end run \<Rightarrow> main_end" where
  "after_attestation r =
     (case r of Done (Exits n) \<Rightarrow> Exit_code (int n) | Done (Returns n) \<Rightarrow> Exit_code 0
      | Undefined \<Rightarrow> Crash | Throws e \<Rightarrow> Crash | Waits \<Rightarrow> Awaits)"

definition attest :: "client_sys \<Rightarrow> client_config \<Rightarrow> bool \<Rightarrow> client_end run \<times> client" where
  "attest S cfg vb =
     do_attestation ((cs_client S)\<lparr>ce_verbose := vb\<rparr>) (cs_resolve S) cfg (cs_world S) []"

text \<open>The inner result is the value that the function returns, unless the program ends in it.\<close>

definition attestation_with_custom_config :: "client_sys \<Rightarrow> (main_end + int) \<times> client option" where
  "attestation_with_custom_config S =
     (if \<not> cs_logfile S then (Inl (Exit_code 1), None)
      else if \<not> cs_localtime S \<or> \<not> oe_strdup (cs_opts S) then (Inr 1, None)
      else case random_nonce (cs_rd S) 0 of
        None \<Rightarrow> (Inl Hang, None)
      | Some (nonce, _) \<Rightarrow>
          let cfg = set_opt OPT_LINK (set_opt OPT_NONCE
                ((co_cfg client_defaults)\<lparr>cc_server := Some ''localhost'', cc_nonce := nonce\<rparr>))
          in if fst (initialize_enclave (cs_errors S) (cs_launch S)) < 0 then (Inr (-1), None)
             else (case attest S cfg True of
                 (Done (Returns n), c) \<Rightarrow> (Inr 0, Some c)
               | (r, c) \<Rightarrow> (Inl (after_attestation r), Some c)))"

text \<open>Without arguments: the sum of 2 and 3 in the enclave, then the attestation.\<close>

definition main_default :: "client_sys \<Rightarrow> main_end \<times> client option" where
  "main_default S =
     (if fst (initialize_enclave (cs_errors S) (cs_launch S)) < 0 then (Exit_code (-1), None)
      else case attestation_with_custom_config S of (Inl e, c) \<Rightarrow> (e, c) | (Inr _, c) \<Rightarrow> (Exit_code 0, c))"

definition sgx_usable :: "32 word \<Rightarrow> bool" where
  "sgx_usable support \<longleftrightarrow>
     \<not> (support AND SGX_SUPPORT_NO \<noteq> 0 \<or> support AND SGX_SUPPORT_ENABLE_REQUIRED \<noteq> 0 \<or>
        support AND SGX_SUPPORT_REBOOT_REQUIRED \<noteq> 0 \<or> support AND SGX_SUPPORT_ENABLED = 0)"

definition client_main :: "client_sys \<Rightarrow> string list \<Rightarrow> main_end \<times> client option" where
  "client_main S args =
     (if args = [] then main_default S
      else if \<not> cs_logfile S \<or> \<not> cs_localtime S then (Exit_code 1, None)
      else case client_setup (cs_opts S) (cs_rd S) args of
        Inl e \<Rightarrow> (e, None)
      | Inr q \<Rightarrow>
          if \<not> sgx_usable (fst (get_sgx_support (cs_linker S) (cs_cap S) (SGX_SUPPORT_UNKNOWN, stubs_init)))
          then (Exit_code 1, None)
          else (case sgx_create_enclave_search (cs_launch S) ENCLAVE_NAME of
              None \<Rightarrow> (Crash, None)
            | Some (_, st) \<Rightarrow>
                if st \<noteq> SGX_SUCCESS then (Exit_code 1, None)
                else if cc_mode (co_cfg q) = MODE_ATTEST then
                  (let (r, c) = attest S (co_cfg q) (co_verbose q) in (after_attestation r, Some c))
                else if cc_mode (co_cfg q) = MODE_EPID \<or> cc_mode (co_cfg q) = MODE_QUOTE then
                  (case fst (fst (do_quote (cs_client S) (cs_quote S) (co_cfg q) [])) of
                     Exits n \<Rightarrow> (Exit_code (int n), None) | Returns n \<Rightarrow> (Exit_code 0, None))
                else (Exit_code 1, None)))"

text \<open>The library function beside the program: a sum computed in a fresh enclave.\<close>

definition add_nums :: "client_sys \<Rightarrow> 32 word \<Rightarrow> 32 word \<Rightarrow> 32 word" where
  "add_nums S a b =
     (if fst (initialize_enclave (cs_errors S) (cs_launch S)) < 0 then -1
      else if ce_ecall (cs_client S) [] \<noteq> SGX_SUCCESS then 0 else addition a b)"

section \<open>Lemmas\<close>

text \<open>The room for \<open>n\<close> characters of a directory in a buffer of \<open>len\<close>.\<close>

abbreviation room :: "nat \<Rightarrow> nat \<Rightarrow> 64 word" where
  "room len n \<equiv> of_nat (len - 1) - of_nat n - 1"

lemma room_left: "room (n + 2 + k) n = of_nat k"
  by simp

lemma unat_room_left: "k < 2 ^ 64 \<Longrightarrow> unat (room (n + 2 + k) n) = k"
  by (simp only: room_left unat_of_nat_64)

lemma room_wraps:
  assumes "1 \<le> len" and "len < n + 2" and "n < 2 ^ 64 - 1"
  shows "1 \<le> unat (room len n)"
proof -
  let ?j = "n + 2 - len"
  have n: "n + 1 = (len - 1) + ?j" using assms by simp
  have "of_nat n + 1 = (of_nat (len - 1) + of_nat ?j :: 64 word)"
    using arg_cong [OF n, of "of_nat :: nat \<Rightarrow> 64 word"] by (simp only: of_nat_add of_nat_1)
  then have r: "room len n = - of_nat ?j" by (simp add: algebra_simps)
  have "unat (of_nat ?j :: 64 word) = ?j" using assms by (intro unat_of_nat_64) simp
  then have "(of_nat ?j :: 64 word) \<noteq> 0" using assms(2) by (metis unat_0 zero_less_diff less_irrefl)
  then have "room len n \<noteq> 0" unfolding r by (simp only: neg_equal_0_iff_equal) simp
  then have "unat (room len n) \<noteq> 0" by (simp only: unat_eq_0) simp
  then show ?thesis by linarith
qed

lemma usable_enabled:
  "sgx_usable (fst (get_sgx_support D cap (SGX_SUPPORT_UNKNOWN, stubs_init))) \<longleftrightarrow>
     dlopen D Uae_service \<noteq> None \<and> dlopen D Urts \<noteq> None \<and> cap = Some SGX_ENABLED"
  by (auto simp: get_sgx_support_def have_sgx_psw_def load_library_def stubs_init_def sgx_usable_def Let_def
      SGX_SUPPORT_UNKNOWN_def SGX_SUPPORT_NO_def SGX_SUPPORT_YES_def SGX_SUPPORT_ENABLED_def
      SGX_SUPPORT_REBOOT_REQUIRED_def SGX_SUPPORT_ENABLE_REQUIRED_def split: option.split device_status.split)

text \<open>The only exit code within an attestation is 1, and one that ends leaves no context open.\<close>

interpretation exits: client_contract V "\<lambda>_. True" "\<lambda>_ _. True" "\<lambda>r _. \<forall>n. r = Done (Exits n) \<longrightarrow> n = 1" for V
proof (unfold_locales, goal_cases)
  case (6 ctx c r c')
  then show ?case by (auto simp: receive_def leave_def Let_def split: prod.splits if_splits read_result.splits option.splits)
next
  case (8 ctx c b r c')
  then show ?case by (auto simp: answer_msg2_def leave_def Let_def split: prod.splits if_splits)
next
  case (9 ctx c b r c')
  then show ?case by (auto simp: process_msg4_def leave_def Let_def split: prod.splits if_splits)
qed (auto simp: leave_def)

lemma attestation_exits: "do_attestation V resolve cfg w tr = (Done (Exits n), c) \<Longrightarrow> n = 1"
  using exits.run by (fastforce simp: do_attestation_def split: prod.splits option.splits)

lemma attestation_closes:
  assumes "\<forall>tr. ce_ecall V tr = SGX_SUCCESS" and "do_attestation V resolve cfg w [] = (Done e, c)"
  shows "context_after (ce_sdk V) [] None (cl_calls c) = Some None"
proof (cases "client_open resolve cfg w")
  case (Pair io w0)
  show ?thesis
  proof (cases io)
    case None
    then show ?thesis using assms(2) Pair by (auto simp: do_attestation_def client_start_def)
  next
    case (Some x)
    have "in_session V None x w0 (client_start x w0 [])" by (simp add: in_session_def client_start_def same_fds_def)
    then show ?thesis
      using discipline.run [of V x w0 "client_start x w0 []"] assms Pair Some
      by (fastforce simp: do_attestation_def released_def)
  qed
qed

section \<open>Properties\<close>

text \<open>
  The path that is tried for a directory of the search path: the name of the enclave is cut
  to the room that is left, which is counted one too small; for a directory that leaves less
  than three characters of room the count wraps and the buffer is overrun.
\<close>

theorem candidate_path:
  assumes "2 \<le> len" and "len < 2 ^ 64" and "2 \<le> length fname" and "length dir < 2 ^ 64 - 1"
  shows "candidate len dir fname =
    (if length dir + 3 \<le> len then Some (dir @ ''/'' @ take (len - length dir - 3) fname) else None)"
proof -
  consider (fits) k where "len = length dir + 2 + Suc k" | (full) "len = length dir + 2" | (long) "len < length dir + 2"
    by (metis Suc_diff_Suc add_diff_inverse_nat le_neq_implies_less not_less zero_less_diff)
  then show ?thesis
  proof cases
    case fits
    have "room len (length dir) = of_nat (Suc k)" unfolding fits by (rule room_left)
    moreover have "of_nat (Suc k) - 1 = (of_nat k :: 64 word)" by simp
    moreover have "unat (of_nat (Suc k) :: 64 word) = Suc k" "unat (of_nat k :: 64 word) = k"
      using assms(2) fits by (intro unat_of_nat_64; simp)+
    ultimately show ?thesis using fits by (simp add: candidate_def strncat_def del: of_nat_Suc)
  next
    case full
    have "room len (length dir) = of_nat 0" using room_left [of "length dir" 0] full by simp
    then have "room len (length dir) = 0" by simp
    moreover have "2 \<le> length (take (unat (-1 :: 64 word)) fname)"
      using assms(3) by (simp add: unsigned_minus_1_eq_mask mask_eq_exp_minus_1)
    ultimately show ?thesis using full by (auto simp: candidate_def strncat_def)
  next
    case long
    then have "1 \<le> unat (room len (length dir))" using room_wraps [of len "length dir"] assms(1,4) by simp
    then have "take (unat (room len (length dir))) ''/'' = ''/''" by (cases "unat (room len (length dir))") auto
    then show ?thesis using long assms(1) by (simp add: candidate_def strncat_def)
  qed
qed

theorem candidate_path_witness:
  "candidate 4096 ''/usr/lib'' ENCLAVE_NAME = Some ''/usr/lib/enclave.signed.so'' \<and>
   candidate 4096 (replicate 4095 CHR ''a'') ENCLAVE_NAME = None"
  using candidate_path [of 4096 ENCLAVE_NAME "''/usr/lib''"]
    candidate_path [of 4096 ENCLAVE_NAME "replicate 4095 CHR ''a''"] by (simp add: ENCLAVE_NAME_def)


definition sample_sys :: client_sys where
  "sample_sys = \<lparr>cs_opts = sample_env [], cs_rd = (\<lambda>_. Some 1), cs_logfile = True, cs_localtime = True,
     cs_launch = \<lparr>le_exists = (\<lambda>_. True), le_getenv = (\<lambda>_. None), le_strdup = True, le_create = (\<lambda>_. SGX_SUCCESS),
       le_path_max = 4096\<rparr>,
     cs_errors = (\<lambda>_. 1), cs_linker = sample_linker, cs_cap = Some SGX_ENABLED, cs_client = sample_client_env,
     cs_quote = \<lparr>qe_init = (0, [], 0), qe_size = (True, 0, 1), qe_malloc = True, qe_quote = (\<lambda>_ _ _ _ _. (0, [1])),
       qe_bio = sample_bio, qe_alloc = True\<rparr>,
     cs_resolve = sample_resolve, cs_world = sample_client_world\<rparr>"

lemma sample_setup:
  "client_setup (sample_env []) rd [''-v'', ''-s'', print_hexstring (replicate 16 0)] =
     Inr (client_defaults\<lparr>co_cfg := sample_client_config, co_have_spid := 1, co_verbose := True\<rparr>)"
proof -
  define t where "t = print_hexstring (replicate 16 (0 :: byte))"
  have "hex_option (sample_env []) t 16 = (True, replicate 16 0)"
    using hexc.dec_enc [of "\<lambda>_. 0" "replicate 16 0" "[NUL]"] by (simp add: hex_option_def sample_env_def t_def)
  moreover have "length t = 32" by (simp add: t_def hexc.enc_length)
  ultimately show ?thesis unfolding t_def [symmetric]
    by (simp add: client_setup_def getopt_long.simps client_shorts_def client_opt_step_def server_argument_def
        set_cfg_def client_defaults_def sample_env_simps sample_client_config_def MODE_ATTEST_def MODE_EPID_def)
qed

lemma sample_main:
  "\<exists>c. client_main sample_sys [''-v'', ''-s'', print_hexstring (replicate 16 0)] = (Exit_code 0, Some c)"
proof -
  have u: "sgx_usable (fst (get_sgx_support (cs_linker sample_sys) (cs_cap sample_sys) (SGX_SUPPORT_UNKNOWN, stubs_init)))"
    unfolding usable_enabled by (simp add: sample_sys_def sample_linker_def)
  have l: "sgx_create_enclave_search (cs_launch sample_sys) ENCLAVE_NAME = Some (ENCLAVE_NAME, SGX_SUCCESS)"
    by (simp add: sample_sys_def sgx_create_enclave_search_def)
  have e: "sample_client_env\<lparr>ce_verbose := True\<rparr> = sample_client_env" by (simp add: sample_client_env_def)
  obtain c where "do_attestation sample_client_env sample_resolve sample_client_config sample_client_world [] =
     (Done (Returns 0), c)" using sample_client_run by blast
  then have "attest sample_sys sample_client_config True = (Done (Returns 0), c)"
    by (simp add: attest_def sample_sys_def e)
  then show ?thesis
    using u l by (simp add: client_main_def sample_setup sample_sys_def after_attestation_def sample_client_config_def MODE_ATTEST_def)
qed


end
