(* ===== verification/Old_Client.thy ===== *)
theory Old_Client
  imports Client_Main
begin

text \<open>
  The model of \<open>client.cpp\<close>, the client that \<open>App/App.cpp\<close> was made from and that is no longer built:
  \<open>do_attestation\<close> and \<open>main\<close>. The stages of the protocol up to message 4, the options, the launch of
  the enclave and \<open>do_quote\<close> have the same text in both files (outside the Windows branches, which
  are not modelled) and are the models of \<open>App.cpp\<close> under names of this file. This client calls an older version of the ECALL for a key hash, without the cipher text,
  which is not under \<open>src/\<close>: it is the parameter \<open>H\<close>, its result and the trusted calls it makes.
\<close>

section \<open>What has the text of \<open>App.cpp\<close>\<close>

definition old_open where "old_open = client_open"
definition old_init_context where "old_init_context = init_context"
definition old_send_msg01 where "old_send_msg01 = send_msg01"
definition old_receive where "old_receive = receive"
definition old_answer_msg2 where "old_answer_msg2 = answer_msg2"
definition old_setup where "old_setup = client_setup"
definition old_opt_step where "old_opt_step = client_opt_step"
definition old_server_argument where "old_server_argument = server_argument"
definition old_sgx_usable where "old_sgx_usable = sgx_usable"
definition old_file_in_searchpath where "old_file_in_searchpath = file_in_searchpath"
definition old_create_enclave_search where "old_create_enclave_search = sgx_create_enclave_search"
definition old_quote_text where "old_quote_text = quote_text"
definition old_do_quote where "old_do_quote = do_quote"

lemmas old_parts = old_open_def old_init_context_def old_send_msg01_def old_receive_def old_answer_msg2_def
  old_setup_def old_sgx_usable_def old_create_enclave_search_def old_do_quote_def

section \<open>Message 4\<close>

type_synonym old_hash = "tcall list \<Rightarrow> 32 word \<Rightarrow> ra_key_type \<Rightarrow> bytes option \<times> tcall list"

definition old_fetch_hash :: "old_hash \<Rightarrow> 32 word \<Rightarrow> ra_key_type \<Rightarrow> client \<Rightarrow> client" where
  "old_fetch_hash H ctx type c =
     (let (hash, tr) = H (cl_calls c) ctx type in c\<lparr>cl_calls := tr, cl_hashes := cl_hashes c @ [hash]\<rparr>)"

definition old_process_msg4 :: "client_env \<Rightarrow> old_hash \<Rightarrow> 32 word \<Rightarrow> bytes \<Rightarrow> client \<Rightarrow> client_end run \<times> client" where
  "old_process_msg4 V H ctx b c =
     (if length b < 4 + ce_pib_size V then (Undefined, c)
      else
        let st = word_le32 b; pib = field b 4 (ce_pib_size V);
            c = c\<lparr>cl_shown := cl_shown c @ [verdict st]\<rparr>;
            c = show_updates V pib st c;
            c = (if st = status_value Trusted \<or> st = status_value Trusted_ItsComplicated then
                   let c = c\<lparr>cl_world := (cl_world c)\<lparr>out := out (cl_world c) @
                         ''enclaveTrusted == Trusted_ItsComplicated'' @ [LF]\<rparr>\<rparr>;
                       c = old_fetch_hash H ctx SGX_RA_KEY_MK c
                   in old_fetch_hash H ctx SGX_RA_KEY_SK c
                 else c)
        in leave V ctx (Returns 0) c)"

section \<open>\<open>do_attestation\<close> and \<open>main\<close>\<close>

definition old_exchange :: "client_env \<Rightarrow> old_hash \<Rightarrow> 32 word \<Rightarrow> client \<Rightarrow> client_end run \<times> client" where
  "old_exchange V H ctx c =
     (case old_send_msg01 V ctx c of
        (False, c) \<Rightarrow> leave V ctx (Returns 1) c
      | (True, c) \<Rightarrow>
         (case old_receive V ctx c of
            (Inl e, c) \<Rightarrow> (e, c)
          | (Inr m2, c) \<Rightarrow>
             (case old_answer_msg2 V ctx m2 c of
                (Some e, c) \<Rightarrow> (e, c)
              | (None, c) \<Rightarrow>
                 (case old_receive V ctx c of
                    (Inl e, c) \<Rightarrow> (e, c)
                  | (Inr m4, c) \<Rightarrow> old_process_msg4 V H ctx m4 c))))"

definition old_do_attestation ::
    "client_env \<Rightarrow> old_hash \<Rightarrow> (string \<Rightarrow> string \<Rightarrow> address list option) \<Rightarrow> client_config \<Rightarrow> world \<Rightarrow> tcall list
      \<Rightarrow> client_end run \<times> client" where
  "old_do_attestation V H resolve cfg w tr =
     (case old_open resolve cfg w of
        (None, w) \<Rightarrow> (Done (Exits 1), client_start msgio_stdio w tr)
      | (Some io, w) \<Rightarrow>
        (case old_init_context V cfg (client_start io w tr) of
           (None, c) \<Rightarrow> (Done (Returns 1), delete_io c)
         | (Some ctx, c) \<Rightarrow> old_exchange V H ctx c))"

definition OLD_ENCLAVE_NAME :: string where "OLD_ENCLAVE_NAME = ''Enclave.signed.so''"

text \<open>This \<open>main\<close> has no run without options: without arguments it attests over the standard streams.\<close>

definition old_main :: "client_sys \<Rightarrow> old_hash \<Rightarrow> string list \<Rightarrow> main_end \<times> client option" where
  "old_main S H args =
     (if \<not> cs_logfile S \<or> \<not> cs_localtime S then (Exit_code 1, None)
      else case old_setup (cs_opts S) (cs_rd S) args of
        Inl e \<Rightarrow> (e, None)
      | Inr q \<Rightarrow>
          if \<not> old_sgx_usable (fst (get_sgx_support (cs_linker S) (cs_cap S) (SGX_SUPPORT_UNKNOWN, stubs_init)))
          then (Exit_code 1, None)
          else (case old_create_enclave_search (cs_launch S) OLD_ENCLAVE_NAME of
              None \<Rightarrow> (Crash, None)
            | Some (_, st) \<Rightarrow>
                if st \<noteq> SGX_SUCCESS then (Exit_code 1, None)
                else if cc_mode (co_cfg q) = MODE_ATTEST then
                  (let (r, c) = old_do_attestation ((cs_client S)\<lparr>ce_verbose := co_verbose q\<rparr>) H (cs_resolve S)
                       (co_cfg q) (cs_world S) []
                   in (after_attestation r, Some c))
                else if cc_mode (co_cfg q) = MODE_EPID \<or> cc_mode (co_cfg q) = MODE_QUOTE then
                  (case fst (fst (old_do_quote (cs_client S) (cs_quote S) (co_cfg q) [])) of
                     Exits n \<Rightarrow> (Exit_code (int n), None) | Returns n \<Rightarrow> (Exit_code 0, None))
                else (Exit_code 1, None)))"

section \<open>Agreement with the new client\<close>

text \<open>What the service provider and the user see of a client: the verdict, the socket, its closing.\<close>

definition view :: "client \<Rightarrow> string list \<times> string \<times> int list" where
  "view c = (cl_shown c, wire (cl_world c), closed (cl_world c))"

text \<open>What decides about the view at the end.\<close>

definition core :: "client \<Rightarrow> string list \<times> string \<times> int list \<times> msgio" where
  "core c = (cl_shown c, wire (cl_world c), closed (cl_world c), cl_io c)"

lemma core_fetch: "core (old_fetch_hash H ctx t c) = core c" "core (fetch_hash V ctx t mem c) = core c"
proof -
  have "wire (fold ocall_print_string outs w) = wire w \<and> closed (fold ocall_print_string outs w) = closed w" for outs w
    by (induction outs arbitrary: w) (simp_all add: ocall_print_string_def)
  then show "core (old_fetch_hash H ctx t c) = core c" "core (fetch_hash V ctx t mem c) = core c"
    by (simp_all add: core_def old_fetch_hash_def fetch_hash_def split: prod.split)
qed

lemma core_out: "core (c\<lparr>cl_world := (cl_world c)\<lparr>out := t\<rparr>\<rparr>) = core c"
  by (simp add: core_def)

lemma leave_view: "core c = core d \<Longrightarrow> leave V ctx e c = (r, c') \<Longrightarrow> leave V ctx e d = (r', d') \<Longrightarrow> r' = r \<and> view d' = view c'"
  by (auto simp: leave_def delete_io_def close_context_def view_def core_def msgio_destroy_def close_fd_def Let_def)

lemma leave_end: "fst (leave V ctx e c) = Done e"
  by (simp add: leave_def)

lemma msg4_agree:
  assumes "process_msg4 V ctx b c = (r, d)" "old_process_msg4 V H ctx b c = (r', d')"
  shows "r' = r \<and> view d' = view d \<or> r = Undefined \<and> r' = Done (Returns 0)"
proof (cases "length b < 4 + ce_pib_size V")
  case False
  let ?st = "word_le32 b"
  let ?c = "show_updates V (field b 4 (ce_pib_size V)) ?st (c\<lparr>cl_shown := cl_shown c @ [verdict ?st]\<rparr>)"
  show ?thesis
  proof (cases "?st = status_value Trusted \<or> ?st = status_value Trusted_ItsComplicated")
    case True
    have "r' = Done (Returns 0)"
      using assms(2) False True leave_end by (simp add: old_process_msg4_def Let_def) (metis fst_conv)
    moreover have "r' = r \<and> view d' = view d" if "\<not> length b < 4 + ce_pib_size V + 16"
      using assms False True that
      by (auto simp: process_msg4_def old_process_msg4_def Let_def elim!: leave_view [rotated] simp: core_fetch core_out)
    moreover have "r = Undefined" if "length b < 4 + ce_pib_size V + 16"
      using assms(1) False True that by (simp add: process_msg4_def Let_def)
    ultimately show ?thesis by blast
  next
    case untrusted: False
    then show ?thesis using assms False by (simp add: process_msg4_def old_process_msg4_def Let_def)
  qed
qed (use assms in \<open>simp add: process_msg4_def old_process_msg4_def\<close>)

lemma old_attestation_agrees:
  assumes "do_attestation V resolve cfg w tr = (r, c)" and "old_do_attestation V H resolve cfg w tr = (r', c')"
  shows "r' = r \<and> view c' = view c \<or> r = Undefined \<and> r' = Done (Returns 0)"
proof -
  note new = assms(1) [unfolded do_attestation_def run_protocol_def] and old = assms(2) [unfolded old_do_attestation_def old_exchange_def old_parts]
  consider (reached) ctx m4 d where "process_msg4 V ctx m4 d = (r, c)" "old_process_msg4 V H ctx m4 d = (r', c')"
    | (before) "r' = r" "c' = c"
    using new old
    by (auto split: prod.splits option.splits sum.splits bool.splits)
  then show ?thesis
  proof cases
    case reached
    then show ?thesis by (rule msg4_agree)
  qed simp
qed

text \<open>The two programs, on the same command line, when the enclave files of both are found or missing alike.\<close>

lemma old_main_agrees:
  assumes "args \<noteq> []"
    and "map_option snd (sgx_create_enclave_search (cs_launch S) OLD_ENCLAVE_NAME) =
      map_option snd (sgx_create_enclave_search (cs_launch S) ENCLAVE_NAME)"
    and "client_main S args = (e, c)" and "old_main S H args = (e', c')"
  shows "e' = e \<and> map_option view c' = map_option view c \<or> e = Crash \<and> e' = Exit_code 0"
proof -
  let ?V = "\<lambda>q. (cs_client S)\<lparr>ce_verbose := co_verbose q\<rparr>"
  have agree: "after_attestation r' = after_attestation r \<and> view d' = view d \<or>
      after_attestation r = Crash \<and> after_attestation r' = Exit_code 0"
    if "attest S (co_cfg q) (co_verbose q) = (r, d)"
      "old_do_attestation (?V q) H (cs_resolve S) (co_cfg q) (cs_world S) [] = (r', d')" for q r d r' d'
    using old_attestation_agrees [OF that(1) [unfolded attest_def] that(2)] by (auto simp: after_attestation_def)
  show ?thesis
    using assms unfolding client_main_def old_main_def old_parts
    by (auto dest: agree split: if_splits sum.splits option.splits prod.splits)
qed



end
