(* ===== verification/Spec2Isabelle.thy ===== *)
theory Spec2Isabelle
  imports Hexutil Byteorder Http_Parser Msgio Crypto Fileio Enclave_Verify Json Json_Build Json_Store Ias Agent_Curl Key_Tools Protocol Sp_Attest Sp_Session Sp_Server Sp_Types Trust_Chain Sp_Process Getopt Sp_Options Enclave Client End_To_End Network Attestation_Run Sessions Sgx_Stub Sgx_Calls Client_Options Client_Main Old_Client
begin

text \<open>
  A verification development for the Intel SGX remote attestation sample: a client that runs an
  enclave, a service provider that decides whether to trust it, and the attestation service
  (IAS) that the service provider asks. Every definition is a translation of source under
  \<open>src/\<close>; the theorems say what makes the parts correct, and, where the code does not do what
  it means to, exactly what it does instead.

  \<^bold>\<open>The program.\<close> The client (\<open>App/App.cpp\<close>) parses its options, launches the enclave
  (\<open>Enclave/Enclave.c\<close>) and sends messages 0 and 1. The service provider
  (\<open>service-provider/sp.cpp\<close>) derives session keys, fetches the revocation list over the IAS
  client (\<open>iasrequest.cpp\<close>, on \<open>wget\<close> or libcurl) and answers with message 2. The client has
  the platform make a quote and sends message 3; the service provider checks its MAC, has the
  quote attested by IAS, verifies the certificate chain and the signature of the answer, reads
  the report (\<open>json.hpp\<close>), compares the enclave's identity with its policy
  (\<open>enclave_verify.c\<close>), and sends the verdict and a greeting encrypted for the enclave as
  message 4. Both ends exchange lines of hex text (\<open>msgio.cpp\<close>) over a socket or the standard
  streams.

  \<^bold>\<open>Theories, bottom up.\<close>
  \<^item> \<open>Prelude\<close>: what the source uses of the C and C++ libraries (\<open>strtol\<close>, \<open>stoi\<close>, \<open>ctype.h\<close>,
    searching in a \<open>std::string\<close>), the collections of simplification rules, and the locale
    \<open>stepper\<close> of machines that consume their input one element at a time, with its law that
    input may come in pieces. Interpreted by the HTTP parser.
  \<^item> \<open>Hexutil\<close> (\<open>hexutil.c\<close>, the shared buffer of \<open>hexstring\<close> included), with the locale
    \<open>text_codec\<close>; \<open>Byteorder\<close> (\<open>byteorder.c\<close>, on an explicit memory); \<open>Base64\<close>
    (\<open>base64.c\<close>); \<open>Fileio\<close> (\<open>fileio.c\<close>, \<open>logfile.c\<close>, \<open>common.cpp\<close>).
  \<^item> \<open>Http_Parser\<close> (\<open>httpparser/\<close>): the state machine character by character, its
    invariant, and the well-formed responses it accepts.
  \<^item> \<open>Msgio\<close> (\<open>msgio.cpp\<close>): buffers, partial sends and reads, the stdio functions. The
    locale \<open>line_codec\<close> extends \<open>text_codec\<close>; the locale \<open>transport\<close> is what both ends rely
    on, interpreted by sockets and by the standard streams.
  \<^item> \<open>Crypto\<close> (\<open>crypto.c\<close>): every wrapper with its cleanup section; acquired and released
    objects are recorded in the state.
  \<^item> \<open>Ordmap\<close>, \<open>Json\<close> (\<open>json.hpp\<close>): ordered maps behind a locale, JSON values, printer and
    parser. The mutual recursion of the parser has fuel; \<open>2 * length + 3\<close> is always enough,
    and \<open>json_load_terminates\<close> proves that it is never used up. \<open>Json_Build\<close>: the rest of the interface of the class. \<open>Json_Store\<close>: the constructors,
    destructor, assignments and moves of the same class on a heap of blocks, which refine the
    values. Depth \<open>n\<close> suffices when every variable owns fewer than \<open>n\<close> blocks.
  \<^item> \<open>Enclave_Verify\<close> (\<open>enclave_verify.c\<close>); \<open>Agent_Wget\<close> and \<open>Agent_Curl\<close>
    (\<open>agent_wget.cpp\<close>, \<open>agent_curl.cpp\<close>), with the locale \<open>http_agent\<close> both implement;
    \<open>Ias\<close> (\<open>iasrequest.cpp\<close>): subscription keys, \<open>sigrl\<close>, \<open>report\<close>, \<open>url_decode\<close>.
  \<^item> \<open>Protocol\<close> (\<open>protocol.h\<close>), \<open>Sp_Attest\<close>, \<open>Sp_Session\<close>, \<open>Sp_Server\<close> (\<open>sp.cpp\<close>: the trust
    decision; the messages of a session; the server loop as a function and as a step relation
    with its reachable states); \<open>Getopt\<close> (\<open>getopt_long\<close> of the C library) and \<open>Sp_Options\<close>
    (the start of \<open>sp.cpp\<close>, from the options to the loop).
  \<^item> \<open>Enclave\<close> (\<open>Enclave.c\<close>), \<open>Client\<close> (\<open>do_attestation\<close> in stages, with the locale
    \<open>client_contract\<close> of what each stage keeps, interpreted for the use of the trusted
    library, for when keys are shown, and for the exits), \<open>Client_Options\<close> and \<open>Client_Main\<close>
    (the rest of \<open>App.cpp\<close>), \<open>Old_Client\<close> (\<open>client.cpp\<close>, an earlier client that is no longer
    built, and its agreement with the new one), \<open>Sgx_Stub\<close> and \<open>Sgx_Calls\<close>
    (\<open>sgx_stub.c\<close>, \<open>quote_size.c\<close>, \<open>sgx_detect_linux.c\<close>), \<open>Key_Tools\<close> (\<open>mrsigner.c\<close>, \<open>evp-key-to-file-struct.c\<close>).
  \<^item> \<open>Sp_Types\<close> (the sizes of what a session stores) and \<open>Trust_Chain\<close> (what a verdict of trust
    rests on, over all reachable states of the server); \<open>Sp_Process\<close>: the process around the loop,
    with its signals.
  \<^item> \<open>End_To_End\<close> and this theory: client and service provider together, message by message;
    \<open>Network\<close>: the two as processes over a pair of channels, cut at the points where they read, with a
    step relation, its reachable states and the invariant \<open>agreement\<close>; \<open>Attestation_Run\<close>: the
    stages of an attestation in a genuine setting; \<open>Sessions\<close>: clients that come one after the other.

  \<^bold>\<open>How the model is made.\<close> State is passed explicitly, in records named after the structures
  of the code. What the system, OpenSSL, the SGX SDK, \<open>wget\<close>, libcurl and the dynamic linker
  do is a parameter: a record of functions, or of the results of calls in the order in which they
  are made (\<open>world\<close>, \<open>openssl\<close>, \<open>wget_run\<close>, \<open>curl_lib\<close>, \<open>client_env\<close>). Theorems are about
  every behaviour of these, unless a hypothesis says which calls succeed. Machine integers are
  words of their width wherever they can wrap. An exit, an exception and a read outside a
  buffer are values, so that nothing the code can do is left unspecified. A loop without a
  bound (\<open>rdrand\<close>) is a \<open>partial_function\<close>; the server loop is indexed by the peers that connect.

  \<^bold>\<open>What the lemmas show.\<close> Round trips of every encoding (hex, lines, JSON, URLs, keys,
  messages across the wire); that checks fail closed and trust is granted only after all of
  them; that a genuine session gets the answer it should; invariants of all reachable states of
  the server (its trust anchor, the sizes of what it stores) and of the two programs on a network (a
  verdict that is shown was reached, and rests on the checks); that an attestation in a genuine
  setting never gets stuck and ends after five moves, for every client in a row; that cleanup code releases what was acquired, once; that the
  optimised or stateful versions (lazy symbol lookup, shared buffers, the loop of the server)
  do what their simple counterparts do; and, for the defects found, the input on which the code
  misbehaves.

  \<^bold>\<open>Not modelled.\<close> Logging, debug output and usage texts, except where they change state; the
  Windows and hardware-simulation branches; \<open>cli.c\<close>, \<open>ser.c\<close>, \<open>main.py\<close> and the start scripts
  (demonstrations); references into JSON objects and their iterators (an access returns the
  value); the default action of signals without a handler (a write to a connection that the peer
  has closed raises \<open>SIGPIPE\<close>); threads (there are none).
\<close>

section \<open>Client and service provider\<close>

text \<open>
  C12. What the client sends as messages 0 and 1 is, over a socket and in whatever pieces it
  travels, what the service provider answers: the session goes on only for group 0, and then with
  the key and the group of the client's message 1; every other extended group ends it.
\<close>

theorem msg01_reaches_server:
  assumes "socket_ready (cl_io c) (cl_world c)" and "send_msg01 V ctx c = (True, c')"
    and "socket_arrives (socket_sent (cl_world c) (cl_world c')) (s_io st) (s_world st)"
    and "length (snd (ce_msg1 V (cl_calls c) ctx)) = 68"
  shows "(case process_msg01 E cfg ses st of
      (Done (Some (m1, m2, rl, ses')), st') \<Rightarrow>
        snd (ce_gid V) = 0 \<and> m1_g_a m1 = take 64 (snd (ce_msg1 V (cl_calls c) ctx)) \<and>
        m1_gid m1 = drop 64 (snd (ce_msg1 V (cl_calls c) ctx))
    | (r, st') \<Rightarrow> snd (ce_gid V) = 0 \<or> r = Done None)"
proof -
  let ?gid = "snd (ce_gid V)" and ?m1 = "snd (ce_msg1 V (cl_calls c) ctx)"
  obtain res ias s where a: "answer_msg01 E cfg ses (le32 ?gid @ ?m1) (s_ias st) (s_crypto st) = (res, ias, s)"
    by (rule prod_cases3)
  have "fst (process_msg01 E cfg ses st) = res"
    using sockets.msg01_arrives [OF assms(1-3), of E cfg ses] a by auto
  moreover have "res = Done None \<or> ?gid = 0"
    using answer_from_client(1) [OF assms(4), of E cfg ses ?gid] a by (metis fst_conv)
  moreover have "m1_g_a m1 = take 64 ?m1 \<and> m1_gid m1 = drop 64 ?m1" if "res = Done (Some (m1, m2, rl, ses'))" for m1 m2 rl ses'
    using answer_from_client(2) [OF assms(4)] a that by blast
  ultimately show ?thesis by (auto split: prod.splits run.splits option.splits)
qed

definition client_begins :: client where
  "client_begins = client_start client_sock (sample_world [] [] []) []"

lemma sample_msg01_sent:
  "\<exists>c' t. send_msg01 sample_client_env 7 client_begins = (True, c') \<and>
     socket_sent (cl_world client_begins) (cl_world c') = t \<and> t \<noteq> []"
  by (simp add: send_msg01_def sample_client_env_def SGX_SUCCESS_def send_partial_def send_def client_begins_def
      client_start_def client_sock_def sample_world_def send_loop_silent socket_sent_def put_wire_def Let_def)

theorem msg01_reaches_server_witness:
  "\<exists>c'. send_msg01 sample_client_env 7 client_begins = (True, c') \<and>
    (case process_msg01 sample_sp sample_cfg zero_session (sample_state\<lparr>s_world :=
        sample_world [Rcv_data (socket_sent (cl_world client_begins) (cl_world c'))] [] []\<rparr>) of
      (Done (Some (m1, m2, rl, ses')), st') \<Rightarrow> m1_g_a m1 = replicate 64 1 \<and> m1_gid m1 = replicate 4 1
    | (r, st') \<Rightarrow> True)"
proof -
  obtain c' t where s: "send_msg01 sample_client_env 7 client_begins = (True, c')"
    and t: "socket_sent (cl_world client_begins) (cl_world c') = t" "t \<noteq> []"
    using sample_msg01_sent by blast
  let ?st = "sample_state\<lparr>s_world := sample_world [Rcv_data t] [] []\<rparr>"
  have "socket_ready (cl_io client_begins) (cl_world client_begins)"
    by (simp add: client_begins_def client_start_def socket_ready_def client_sock_def sample_world_def)
  moreover have "socket_arrives (socket_sent (cl_world client_begins) (cl_world c')) (s_io ?st) (s_world ?st)"
    using t by (simp add: socket_arrives_def sample_state_def sample_io_def sample_world_def live_def)
  moreover have "snd (ce_msg1 sample_client_env (cl_calls client_begins) 7) = replicate 68 1"
    by (simp add: sample_client_env_def)
  ultimately have "case process_msg01 sample_sp sample_cfg zero_session ?st of
      (Done (Some (m1, m2, rl, ses')), st') \<Rightarrow> m1_g_a m1 = replicate 64 1 \<and> m1_gid m1 = replicate 4 1
    | (r, st') \<Rightarrow> True"
    using msg01_reaches_server [OF _ s, of ?st sample_sp sample_cfg zero_session]
    by (auto split: prod.splits run.splits option.splits)
  with s t show ?thesis by auto
qed


lemma sample_msg4_sent:
  fixes E :: sp_env
  defines "E \<equiv> sample_sp\<lparr>e_aes := \<lambda>_. rev\<rparr>"
  shows "\<exists>m4' ses' st' t. send_msg4 E \<lparr>m4_status = Trusted, m4_pib = replicate 101 0, m4_ciphertext = []\<rparr> sample_ses
      (sample_state\<lparr>s_world := sample_world [] [] []\<rparr>) = (m4', ses', st') \<and>
    m4_ciphertext m4' = rev (to_bytes (take 16 greeting)) \<and> sk ses' = replicate 16 6 \<and>
    socket_sent (sample_world [] [] []) (s_world st') = t \<and> t \<noteq> []"
proof -
  have L: "\<forall>n. ret (e_lib E) n = 1" using sample_ret by (simp add: E_def)
  have ea: "e_aes E = (\<lambda>_. rev)" by (simp add: E_def)
  have k: "cmac_aes (e_lib E) k label_SK = replicate 16 6" for k
    by (simp add: E_def sample_sp_def sample_lib_def label_SK_def)
  obtain s1 where c1: "cmac128 (e_lib E) (kdk sample_ses) label_MK (mk sample_ses) crypto_init =
      (True, cmac_aes (e_lib E) (kdk sample_ses) label_MK, s1)" using cmac128_value [OF L] by blast
  obtain s2 where c2: "cmac128 (e_lib E) (kdk sample_ses) label_SK (sk sample_ses) s1 = (True, replicate 16 6, s2)"
    using cmac128_value [OF L, of "kdk sample_ses" label_SK "sk sample_ses" s1] by (auto simp: k)
  show ?thesis
    by (simp add: send_msg4_def sample_state_def c1 c2 send_partial_def send_def sample_io_def sample_world_def
        send_loop_silent socket_sent_def put_wire_def Let_def ea split: prod.split)
qed


end
